(* ===== verification/Prelude.thy ===== *)
theory Prelude
  imports Main "HOL-Library.Word"
begin

text \<open>
  Shared vocabulary of the development: Go's integers and bytes, errors as values (with the
  message composition of the vendored \<^verbatim>\<open>github.com/pkg/errors\<close>), the three
  ways a Go call can end (returning, panicking, never returning) and the sequencing of calls
  that thread a state, and the functions of Go's \<^verbatim>\<open>strings\<close> and
  \<^verbatim>\<open>fmt\<close> packages that the program uses.
\<close>

section \<open>Integers, bytes and strings\<close>

text \<open>
  A Go \<^verbatim>\<open>int64\<close> is a 64-bit word whose arithmetic wraps; it is compared and
  printed through \<open>sint\<close>.  A Go \<^verbatim>\<open>byte\<close> is an 8-bit word, a Go
  \<^verbatim>\<open>string\<close> is a list of 8-bit characters.
\<close>

type_synonym int64 = "64 word"
type_synonym byte = "8 word"
type_synonym bytes = "byte list"

definition bytes_of_string :: "string \<Rightarrow> bytes" where
  "bytes_of_string s = map of_char s"

section \<open>Errors\<close>

text \<open>
  \<open>ErrEOF\<close> is \<^verbatim>\<open>io.EOF\<close>, compared by identity; \<open>ErrNew\<close> is a message built by the
  program (\<^verbatim>\<open>errors.New\<close>, \<^verbatim>\<open>errors.Errorf\<close>, \<^verbatim>\<open>fmt.Errorf\<close>);
  \<open>ErrWrap\<close> is \<^verbatim>\<open>errors.Wrap\<close> around another error; \<open>ErrExt\<close> is an error
  that a dependency (operating system, registry, driver) returned; \<open>ErrSilent\<close> is groot's
  \<^verbatim>\<open>SilentError\<close>.
\<close>

datatype error =
    ErrEOF
  | ErrNew string
  | ErrWrap string error
  | ErrExt string
  | ErrSilent error

text \<open>The message of an error: \<^verbatim>\<open>Error()\<close> of each kind.\<close>

fun error_text :: "error \<Rightarrow> string" where
  "error_text ErrEOF = ''EOF''"
| "error_text (ErrNew m) = m"
| "error_text (ErrWrap m e) = m @ '': '' @ error_text e"
| "error_text (ErrExt m) = m"
| "error_text (ErrSilent e) = error_text e"

text \<open>\<^verbatim>\<open>errors.Wrap\<close> and \<^verbatim>\<open>errors.Wrapf\<close>: a nil error stays nil.\<close>

definition wrap_err :: "string \<Rightarrow> error option \<Rightarrow> error option" where
  "wrap_err msg err = (case err of None \<Rightarrow> None | Some e \<Rightarrow> Some (ErrWrap msg e))"

lemma wrap_err_simps [simp]:
  "wrap_err m None = None"
  "wrap_err m (Some e) = Some (ErrWrap m e)"
  "wrap_err m err = None \<longleftrightarrow> err = None"
  by (auto simp: wrap_err_def split: option.splits)

text \<open>\<^verbatim>\<open>errors.Wrap\<close> of the error of a \<^verbatim>\<open>(T, error)\<close> result.\<close>

definition wrap_res :: "string \<Rightarrow> error + 'a \<Rightarrow> error + 'a" where
  "wrap_res msg r = map_sum (ErrWrap msg) id r"

lemma map_sum_eq_Inr: "map_sum f g r = Inr y \<longleftrightarrow> (\<exists>x. r = Inr x \<and> y = g x)"
  by (cases r) auto

lemma map_sum_eq_Inl: "map_sum f g r = Inl y \<longleftrightarrow> (\<exists>x. r = Inl x \<and> y = f x)"
  by (cases r) auto

lemma wrap_res_Inr: "wrap_res msg r = Inr y \<longleftrightarrow> r = Inr y"
  by (simp add: wrap_res_def map_sum_eq_Inr)

section \<open>How a call ends\<close>

text \<open>
  A call returns a value, panics with a message, or never returns.  A Go function with
  results \<^verbatim>\<open>(T, error)\<close> whose callers use the value only when the error is nil
  returns a sum, \<open>Inl\<close> the error; where both components matter (\<^verbatim>\<open>Read\<close>,
  \<^verbatim>\<open>Create\<close>) it returns the pair.
\<close>

datatype 'a outcome = Val 'a | Panic string | Diverges

type_synonym 'a res = "error + 'a"

text \<open>Running the rest of a function after a call, with the state the call left.\<close>

definition obind :: "'a outcome \<times> 's \<Rightarrow> ('a \<Rightarrow> 's \<Rightarrow> 'b outcome \<times> 't) \<Rightarrow> ('s \<Rightarrow> 't) \<Rightarrow> 'b outcome \<times> 't" where
  "obind r k f =
     (case r of
        (Val x, s) \<Rightarrow> k x s
      | (Panic m, s) \<Rightarrow> (Panic m, f s)
      | (Diverges, s) \<Rightarrow> (Diverges, f s))"

abbreviation seq :: "'a outcome \<times> 's \<Rightarrow> ('a \<Rightarrow> 's \<Rightarrow> 'b outcome \<times> 's) \<Rightarrow> 'b outcome \<times> 's" where
  "seq r k \<equiv> obind r k (\<lambda>s. s)"

text \<open>A call that can only return.\<close>

definition returning :: "'a \<times> 's \<Rightarrow> 'a outcome \<times> 's" where
  "returning r = (Val (fst r), snd r)"

lemma returning_simps [simp]:
  "returning (x, s) = (Val x, s)"
  "returning r = (Val x, s) \<longleftrightarrow> r = (x, s)"
  "returning r \<noteq> (Panic m, s)" "returning r \<noteq> (Diverges, s)"
  by (cases r; auto simp: returning_def)+

text \<open>
  The same for a call that returns \<^verbatim>\<open>(T, error)\<close>, followed by
  \<^verbatim>\<open>if err != nil { return wrap(err) }\<close>.
\<close>

definition attempt :: "'a res outcome \<times> 's \<Rightarrow> (error \<Rightarrow> error) \<Rightarrow>
    ('a \<Rightarrow> 's \<Rightarrow> 'b res outcome \<times> 's) \<Rightarrow> 'b res outcome \<times> 's" where
  "attempt r h k = seq r (\<lambda>x s. case x of Inl e \<Rightarrow> (Val (Inl (h e)), s) | Inr v \<Rightarrow> k v s)"

lemma obind_simps [simp]:
  "obind (Val x, s) k f = k x s"
  "obind (Panic m, s) k f = (Panic m, f s)"
  "obind (Diverges, s) k f = (Diverges, f s)"
  by (simp_all add: obind_def)

lemma attempt_simps [simp]:
  "attempt (Val (Inl e), s) h k = (Val (Inl (h e)), s)"
  "attempt (Val (Inr v), s) h k = k v s"
  "attempt (Panic m, s) h k = (Panic m, s)"
  "attempt (Diverges, s) h k = (Diverges, s)"
  by (simp_all add: attempt_def)

lemma obind_eq_Val:
  "obind r k f = (Val y, t) \<longleftrightarrow> (\<exists>x s. r = (Val x, s) \<and> k x s = (Val y, t))"
  by (cases r; cases "fst r") auto

lemma obind_eq_Diverges:
  "obind r k f = (Diverges, t) \<longleftrightarrow>
     (\<exists>s. r = (Diverges, s) \<and> t = f s) \<or> (\<exists>x s. r = (Val x, s) \<and> k x s = (Diverges, t))"
  by (cases r; cases "fst r") auto

lemma attempt_eq_Inr:
  "attempt r h k = (Val (Inr y), t) \<longleftrightarrow> (\<exists>x s. r = (Val (Inr x), s) \<and> k x s = (Val (Inr y), t))"
  by (cases r; cases "fst r") (auto simp: attempt_def split: sum.splits)

lemma attempt_eq_Val:
  "attempt r h k = (Val y, t) \<longleftrightarrow>
     (\<exists>e. r = (Val (Inl e), t) \<and> y = Inl (h e)) \<or>
     (\<exists>x s. r = (Val (Inr x), s) \<and> k x s = (Val y, t))"
  by (cases r; cases "fst r") (auto simp: attempt_def split: sum.splits)

lemma attempt_cong [fundef_cong]:
  "r = r' \<Longrightarrow> h = h' \<Longrightarrow> (\<And>v s. r' = (Val (Inr v), s) \<Longrightarrow> k v s = k' v s) \<Longrightarrow> attempt r h k = attempt r' h' k'"
  by (cases r'; cases "fst r'") (auto simp: attempt_def split: sum.splits)

text \<open>How a call that returned came about; the collection is used to take runs of a handler apart.\<close>

named_theorems call_returns "what it means for a sequence of calls to return"

lemmas [call_returns] = obind_eq_Val attempt_eq_Val

section \<open>Retries\<close>

text \<open>
  The shape of the program's retry loops: call until it succeeds, at most \<open>n\<close> times, keeping
  the last error (\<open>err\<close> before the first attempt).
\<close>

primrec retry :: "nat \<Rightarrow> ('s \<Rightarrow> 'a res outcome \<times> 's) \<Rightarrow> error \<Rightarrow> 's \<Rightarrow> 'a res outcome \<times> 's" where
  "retry 0 f err s = (Val (Inl err), s)"
| "retry (Suc n) f err s =
     seq (f s) (\<lambda>r s'. case r of Inr v \<Rightarrow> (Val (Inr v), s') | Inl e \<Rightarrow> retry n f e s')"

lemma retry_first_error: "retry (Suc n) f err s = retry (Suc n) f err' s"
  by simp

lemma retry_invariant:
  assumes "retry n f err s = (r, s')" and "P s"
    and "\<And>s r t. P s \<Longrightarrow> f s = (r, t) \<Longrightarrow> P t"
  shows "P s'"
  using assms(1,2)
proof (induction n arbitrary: err s)
  case (Suc n)
  obtain x t where f: "f s = (x, t)" by (cases "f s")
  with Suc.prems assms(3) have "P t" by blast
  with Suc f show ?case by (cases x) (auto split: sum.splits)
qed simp

text \<open>A retry loop that succeeds did so in a call of the function, the last one made.\<close>

lemma retry_Inr:
  assumes "retry n f err s = (Val (Inr v), s')" and "P s"
    and "\<And>s e t. P s \<Longrightarrow> f s = (Val (Inl e), t) \<Longrightarrow> P t"
  obtains t where "P t" "f t = (Val (Inr v), s')"
  using assms(1,2)
proof (induction n arbitrary: err s)
  case (Suc n)
  from Suc.prems obtain x t where f: "f s = (Val x, t)"
    by (auto simp: obind_eq_Val)
  show ?case
  proof (cases x)
    case (Inl e)
    with f assms(3) Suc.prems have "P t" by blast
    with Suc f Inl show ?thesis by auto
  next
    case (Inr u)
    with f Suc.prems show ?thesis by auto
  qed
qed simp

lemma retry_Inl:
  assumes "retry (Suc n) f err s = (Val (Inl e), s')" and "P s"
    and "\<And>s e t. P s \<Longrightarrow> f s = (Val (Inl e), t) \<Longrightarrow> P t"
  obtains t where "P t" "f t = (Val (Inl e), s')"
  using assms(1,2)
proof (induction n arbitrary: err s)
  case 0
  from 0 obtain x t where f: "f s = (Val x, t)"
    by (auto simp: obind_eq_Val)
  with 0 show ?case by (cases x) auto
next
  case (Suc n)
  from Suc.prems obtain x t where f: "f s = (Val x, t)"
    by (auto simp: obind_eq_Val)
  show ?case
  proof (cases x)
    case (Inl e)
    with f assms(3) Suc.prems have "P t" by blast
    with Suc f Inl show ?thesis by auto
  next
    case (Inr u)
    with f Suc.prems show ?thesis by auto
  qed
qed

section \<open>Loops\<close>

text \<open>
  A Go loop whose body either leaves the loop with a result or goes round again with a new
  state.  It may run for ever, which is \<open>None\<close>.
\<close>

partial_function (option) loop :: "('x \<Rightarrow> 'r + 'x) \<Rightarrow> 'x \<Rightarrow> 'r option" where
  "loop body st = (case body st of Inl r \<Rightarrow> Some r | Inr y \<Rightarrow> loop body y)"

text \<open>Partial correctness: an assertion kept by every round that goes on holds in the last one.\<close>

lemma loop_rule:
  assumes "loop body x = Some r" and "J x"
    and keep: "\<And>x y. J x \<Longrightarrow> body x = Inr y \<Longrightarrow> J y"
    and leave: "\<And>x r. J x \<Longrightarrow> body x = Inl r \<Longrightarrow> Q r"
  shows "Q r"
proof -
  have "body = body \<longrightarrow> J x \<longrightarrow> Q r"
  proof (rule loop.raw_induct [where P = "\<lambda>b x r. b = body \<longrightarrow> J x \<longrightarrow> Q r", OF _ assms(1)])
    fix f b x r
    assume "\<And>b x r. f b x = Some r \<Longrightarrow> b = body \<longrightarrow> J x \<longrightarrow> Q r"
      and "(case b x of Inl r \<Rightarrow> Some r | Inr y \<Rightarrow> f b y) = Some r"
    then show "b = body \<longrightarrow> J x \<longrightarrow> Q r"
      by (cases "b x") (auto intro: leave, blast intro: keep)
  qed
  with assms(2) show ?thesis by simp
qed

text \<open>Induction over the rounds of a loop that ends.\<close>

lemma loop_induct:
  assumes "loop body x = Some r"
    and leave: "\<And>x r. body x = Inl r \<Longrightarrow> P x r"
    and round: "\<And>x y r. body x = Inr y \<Longrightarrow> P y r \<Longrightarrow> P x r"
  shows "P x r"
proof -
  have "body = body \<longrightarrow> P x r"
  proof (rule loop.raw_induct [where P = "\<lambda>b x r. b = body \<longrightarrow> P x r", OF _ assms(1)])
    fix f b x r
    assume "\<And>b x r. f b x = Some r \<Longrightarrow> b = body \<longrightarrow> P x r"
      and "(case b x of Inl r \<Rightarrow> Some r | Inr y \<Rightarrow> f b y) = Some r"
    then show "b = body \<longrightarrow> P x r"
      by (cases "b x") (auto intro: leave round)
  qed
  then show ?thesis by simp
qed

text \<open>Termination: a measure that every round that goes on decreases.\<close>

lemma loop_returns:
  assumes "J x"
    and keep: "\<And>x y. J x \<Longrightarrow> body x = Inr y \<Longrightarrow> J y \<and> m y < (m x :: nat)"
  shows "\<exists>r. loop body x = Some r"
  using assms(1)
proof (induction "m x" arbitrary: x rule: less_induct)
  case less
  show ?case
  proof (cases "body x")
    case (Inl r)
    then show ?thesis by (simp add: loop.simps)
  next
    case (Inr y)
    with keep less have "\<exists>r. loop body y = Some r" by blast
    with Inr show ?thesis by (subst loop.simps) simp
  qed
qed

text \<open>A loop whose rounds are those of another one, through translations of states and results.\<close>

lemma loop_simulation:
  assumes "loop body x = Some r"
    and sim: "\<And>x. body' (g x) = (case body x of Inl r \<Rightarrow> Inl (f r) | Inr y \<Rightarrow> Inr (g y))"
  shows "loop body' (g x) = Some (f r)"
proof -
  have "body = body \<longrightarrow> loop body' (g x) = Some (f r)"
  proof (rule loop.raw_induct [where P = "\<lambda>b x r. b = body \<longrightarrow> loop body' (g x) = Some (f r)", OF _ assms(1)])
    fix k b x r
    assume "\<And>b x r. k b x = Some r \<Longrightarrow> b = body \<longrightarrow> loop body' (g x) = Some (f r)"
      and "(case b x of Inl r \<Rightarrow> Some r | Inr y \<Rightarrow> k b y) = Some r"
    then show "b = body \<longrightarrow> loop body' (g x) = Some (f r)"
      by (cases "b x") (auto simp: loop.simps [of body' "g x"] sim)
  qed
  then show ?thesis by simp
qed

section \<open>Strings\<close>

text \<open>\<^verbatim>\<open>strings.Split\<close> at a one-character separator; the pieces are never an empty list.\<close>

fun split_on :: "char \<Rightarrow> string \<Rightarrow> string list" where
  "split_on c [] = [[]]"
| "split_on c (x # xs) =
     (if x = c then [] # split_on c xs
      else (case split_on c xs of p # ps \<Rightarrow> (x # p) # ps | [] \<Rightarrow> [[x]]))"

text \<open>\<^verbatim>\<open>strings.Index\<close> of a one-character string (-1 where it does not occur).\<close>

fun str_index :: "string \<Rightarrow> char \<Rightarrow> int" where
  "str_index [] c = -1"
| "str_index (x # xs) c =
     (if x = c then 0 else let i = str_index xs c in if i < 0 then -1 else i + 1)"

definition has_prefix :: "string \<Rightarrow> string \<Rightarrow> bool" where
  "has_prefix s p \<longleftrightarrow> take (length p) s = p"

text \<open>\<^verbatim>\<open>strings.Contains\<close>.\<close>

fun str_contains :: "string \<Rightarrow> string \<Rightarrow> bool" where
  "str_contains [] p = (p = [])"
| "str_contains (x # xs) p = (has_prefix (x # xs) p \<or> str_contains xs p)"

text \<open>\<^verbatim>\<open>strings.Replace(s, old, new, -1)\<close> with one-character strings.\<close>

definition str_replace :: "string \<Rightarrow> char \<Rightarrow> char \<Rightarrow> string" where
  "str_replace s old new = map (\<lambda>c. if c = old then new else c) s"

text \<open>The index expression \<^verbatim>\<open>xs[i]\<close>, which panics out of range.\<close>

definition index_at :: "'a list \<Rightarrow> nat \<Rightarrow> 'a outcome" where
  "index_at xs i = (if i < length xs then Val (xs ! i) else Panic ''index out of range'')"

text \<open>\<^verbatim>\<open>%d\<close>: decimal numbers.\<close>

fun show_nat :: "nat \<Rightarrow> string" where
  "show_nat n = (if n < 10 then [char_of (48 + n)] else show_nat (n div 10) @ [char_of (48 + n mod 10)])"

declare show_nat.simps [simp del]

definition show_int :: "int \<Rightarrow> string" where
  "show_int i = (if i < 0 then ''-'' @ show_nat (nat (- i)) else show_nat (nat i))"

definition show_int64 :: "int64 \<Rightarrow> string" where
  "show_int64 x = show_int (sint x)"

lemma bytes_of_string_inject: "bytes_of_string a = bytes_of_string b \<longleftrightarrow> a = b"
proof -
  have "inj (of_char :: char \<Rightarrow> byte)"
  proof (rule injI)
    fix c d :: char assume eq: "(of_char c :: byte) = of_char d"
    obtain a0 a1 a2 a3 a4 a5 a6 a7 where c: "c = Char a0 a1 a2 a3 a4 a5 a6 a7" by (cases c)
    obtain b0 b1 b2 b3 b4 b5 b6 b7 where d: "d = Char b0 b1 b2 b3 b4 b5 b6 b7" by (cases d)
    have "[a0, a1, a2, a3, a4, a5, a6, a7] ! n = [b0, b1, b2, b3, b4, b5, b6, b7] ! n" if "n < 8" for n
      using arg_cong [OF eq, of "\<lambda>w. bit w n"] that
      by (simp add: c d of_char_def bit_horner_sum_bit_word_iff del: nth_Cons_Suc nth_Cons_0 horner_sum_simps)
    from this [of 0] this [of 1] this [of 2] this [of 3] this [of 4] this [of 5] this [of 6] this [of 7]
    show "c = d" by (simp add: c d)
  qed
  then show ?thesis by (simp add: bytes_of_string_def inj_map_eq_map)
qed

text \<open>Decimal numbers are made of digits, and determine the number.\<close>

lemma show_nat_digits: "c \<in> set (show_nat n) \<Longrightarrow> 48 \<le> (of_char c :: nat) \<and> (of_char c :: nat) \<le> 57"
proof (induction n rule: show_nat.induct)
  case (1 n)
  then show ?case by (subst (asm) (2) show_nat.simps) (auto split: if_splits)
qed

lemma show_nat_inverse: "foldl (\<lambda>a c. 10 * a + (of_char c - 48)) 0 (show_nat n) = (n :: nat)"
proof (induction n rule: show_nat.induct)
  case (1 n)
  then show ?case by (subst show_nat.simps) (auto simp: div_mult_mod_eq)
qed

lemma show_nat_inject [simp]: "show_nat m = show_nat n \<longleftrightarrow> m = n"
  using show_nat_inverse by metis

lemma take_drop_append [simp]: "take n xs @ drop n xs @ ys = xs @ ys"
  by (metis append.assoc append_take_drop_id)

lemma split_on_nonempty [simp]: "split_on c s \<noteq> []"
  by (induction s) (auto split: list.splits)

lemma split_on_no_sep: "c \<notin> set s \<Longrightarrow> split_on c s = [s]"
  by (induction s) auto

lemma split_on_append_sep:
  "c \<notin> set p \<Longrightarrow> split_on c (p @ c # s) = p # split_on c s"
  by (induction p) auto

lemma str_index_neg: "str_index s c < 0 \<longleftrightarrow> c \<notin> set s"
  by (induction s) (auto simp: Let_def)

lemma str_index_append: "c \<notin> set p \<Longrightarrow> str_index (p @ c # s) c = int (length p)"
  by (induction p) (auto simp: Let_def)

lemma index_at_Val: "index_at xs i = Val x \<longleftrightarrow> i < length xs \<and> xs ! i = x"
  by (auto simp: index_at_def)

lemma index_at_not_Diverges [simp]: "index_at xs i \<noteq> Diverges"
  by (simp add: index_at_def)

section \<open>Signed 64-bit facts\<close>

lemma sint_of_nat64: "n < 2 ^ 63 \<Longrightarrow> sint (of_nat n :: int64) = int n"
  by (simp add: signed_of_nat signed_take_bit_int_eq_self)

lemma sint_range64: "- (2 ^ 63) \<le> sint (x :: int64)" "sint (x :: int64) < 2 ^ 63"
  using sint_range_size [of x] by (simp_all add: word_size)

lemma sint_add64:
  assumes "- (2 ^ 63) \<le> sint x + sint y" "sint x + sint y < 2 ^ 63"
  shows "sint (x + y :: int64) = sint x + sint y"
  using assms by (simp add: sint_word_ariths signed_take_bit_int_eq_self)

lemma sint_sub64:
  assumes "- (2 ^ 63) \<le> sint x - sint y" "sint x - sint y < 2 ^ 63"
  shows "sint (x - y :: int64) = sint x - sint y"
  using assms by (simp add: sint_word_ariths signed_take_bit_int_eq_self)

end
