(* ===== verification/Go_IO.thy ===== *)
theory Go_IO
  imports Sha256
begin

text \<open>
  Go's \<^verbatim>\<open>io\<close> package as the program uses it.  An \<^verbatim>\<open>io.Reader\<close> over a state is
  a function of the length of the caller's buffer and the state; its result is the bytes
  stored in the buffer together with the error (\<^verbatim>\<open>n\<close> is their number).  Code that only
  uses a reader (a driver unpacking a layer, a gzip decoder) is a tree of \<^verbatim>\<open>Read\<close> calls.
  Defined here: \<^verbatim>\<open>io.TeeReader\<close>, \<^verbatim>\<open>io.Copy\<close>, \<^verbatim>\<open>io.ReadAll\<close>, and the byte stream
  of a downloaded blob.  The locale \<open>io_reader\<close> is the contract of \<^verbatim>\<open>io.Reader\<close>; its
  lemmas say that copying a reader that keeps it ends, and with what result.
\<close>

section \<open>Readers and their clients\<close>

type_synonym read_result = "bytes \<times> error option"
type_synonym 's reader = "nat \<Rightarrow> 's \<Rightarrow> read_result outcome \<times> 's"

text \<open>
  A client of a reader: it returns, panics, never returns, or reads with a buffer of some length
  and goes on depending on what it got.  Every branch is finite, so a client makes finitely many
  calls; nothing else is said about it.
\<close>

datatype 'a client =
    Return 'a
  | Abort string
  | Hang
  | Read_then nat "read_result \<Rightarrow> 'a client"

primrec run_client :: "'s reader \<Rightarrow> 'a client \<Rightarrow> 's \<Rightarrow> 'a outcome \<times> 's" where
  "run_client rd (Return a) = (\<lambda>s. (Val a, s))"
| "run_client rd (Abort m) = (\<lambda>s. (Panic m, s))"
| "run_client rd Hang = (\<lambda>s. (Diverges, s))"
| "run_client rd (Read_then n k) = (\<lambda>s. seq (rd n s) (\<lambda>r. run_client rd (k r)))"

text \<open>What a reader stores fits the buffer.\<close>

definition fits_buffer :: "'s reader \<Rightarrow> bool" where
  "fits_buffer rd \<longleftrightarrow> (\<forall>n s bs e t. rd n s = (Val (bs, e), t) \<longrightarrow> length bs \<le> n)"

lemma fits_bufferD: "fits_buffer rd \<Longrightarrow> rd n s = (Val (bs, e), t) \<Longrightarrow> length bs \<le> n"
  unfolding fits_buffer_def by blast

text \<open>A property of states that every read keeps, however it ends, is kept by every client.\<close>

lemma run_client_invariant:
  assumes "run_client rd c s = (x, s')" and "P s"
    and step: "\<And>n s r t. P s \<Longrightarrow> rd n s = (r, t) \<Longrightarrow> P t"
  shows "P s'"
  using assms(1,2)
proof (induction c arbitrary: s)
  case (Read_then n k)
  obtain r t where rd: "rd n s = (r, t)" by (cases "rd n s")
  with Read_then.prems step have "P t" by blast
  with Read_then rd show ?case by (cases r) auto
qed auto

text \<open>The same for reads that return, when the client returns.\<close>

lemma run_client_Val_invariant:
  assumes "run_client rd c s = (Val x, s')" and "P s"
    and step: "\<And>n s r t. P s \<Longrightarrow> rd n s = (Val r, t) \<Longrightarrow> P t"
  shows "P s'"
  using assms(1,2)
proof (induction c arbitrary: s)
  case (Read_then n k)
  from Read_then.prems obtain r t where rd: "rd n s = (Val r, t)"
    by (auto simp: obind_eq_Val)
  with Read_then.prems step have "P t" by blast
  with Read_then rd show ?case by auto
qed auto

text \<open>Running the same client through a translation of states that the reads respect.\<close>

lemma run_client_simulation:
  assumes "\<And>n s. rd' n (g s) = (case rd n s of (r, t) \<Rightarrow> (r, g t))"
  shows "run_client rd' c (g s) = (case run_client rd c s of (r, t) \<Rightarrow> (r, g t))"
proof (induction c arbitrary: s)
  case (Read_then n k)
  obtain r t where rd: "rd n s = (r, t)" by (cases "rd n s")
  with Read_then show ?case by (cases r) (auto simp: assms)
qed auto

lemma run_client_map:
  "run_client rd (map_client f c) s = obind (run_client rd c s) (\<lambda>x s. (Val (f x), s)) (\<lambda>s. s)"
proof (induction c arbitrary: s)
  case (Read_then n k)
  obtain r t where rd: "rd n s = (r, t)" by (cases "rd n s")
  with Read_then show ?case by (cases r) auto
qed auto

section \<open>io.TeeReader\<close>

text \<open>
  \<^verbatim>\<open>io.TeeReader(r, hash)\<close>: what is read is also written to the hash, whose writes never
  fail; the state is the inner state with the bytes hashed so far.
\<close>

definition tee_read :: "'s reader \<Rightarrow> ('s \<times> bytes) reader" where
  "tee_read rd n sh =
     obind (rd n (fst sh)) (\<lambda>(bs, e) s. (Val (bs, e), (s, snd sh @ bs))) (\<lambda>s. (s, snd sh))"

lemma tee_read_Val:
  "tee_read rd n (s, h) = (Val (bs, e), sh') \<longleftrightarrow>
     (\<exists>s'. rd n s = (Val (bs, e), s') \<and> sh' = (s', h @ bs))"
  by (auto simp: tee_read_def obind_eq_Val)

lemma tee_read_state: "tee_read rd n sh = (r, sh') \<Longrightarrow> \<exists>x. rd n (fst sh) = (x, fst sh')"
  by (cases "rd n (fst sh)"; cases "fst (rd n (fst sh))") (auto simp: tee_read_def)

lemma fits_buffer_tee [intro]: "fits_buffer rd \<Longrightarrow> fits_buffer (tee_read rd)"
  unfolding fits_buffer_def by (fastforce simp: tee_read_def obind_eq_Val)

section \<open>io.Copy\<close>

text \<open>
  \<^verbatim>\<open>io.Copy\<close> with a 32 KiB buffer.  A writer returns how many bytes it wrote and an error.
  The loop ends at the first error, EOF included, which becomes a nil error.  It need not
  end on a reader that keeps returning no bytes and no error, hence the option.
\<close>

type_synonym 'd writer = "bytes \<Rightarrow> 'd \<Rightarrow> (nat \<times> error option) \<times> 'd"

definition copy_buffer_size :: nat where
  "copy_buffer_size = 32 * 1024"

definition eof_to_nil :: "error \<Rightarrow> error option" where
  "eof_to_nil e = (if e = ErrEOF then None else Some e)"

definition check_write :: "bytes \<Rightarrow> nat \<times> error option \<Rightarrow> nat \<times> error option" where
  "check_write bs r =
     (case r of (nw, ew) \<Rightarrow>
        if length bs < nw then (0, case ew of None \<Rightarrow> Some (ErrNew ''invalid write result'') | Some e \<Rightarrow> Some e)
        else if ew = None \<and> nw < length bs then (nw, Some (ErrNew ''short write''))
        else (nw, ew))"

record ('s, 'd) copying =
  cp_written :: int64
  cp_src :: 's
  cp_dst :: 'd

type_synonym ('s, 'd) copied = "(int64 \<times> error option) outcome \<times> 's \<times> 'd"

text \<open>One round of the loop: a result, or the state of the next round.\<close>

definition copy_round :: "'s reader \<Rightarrow> 'd writer \<Rightarrow> ('s, 'd) copying \<Rightarrow> ('s, 'd) copied + ('s, 'd) copying" where
  "copy_round rd wr c =
     (case rd copy_buffer_size (cp_src c) of
        (Val (bs, er), s) \<Rightarrow>
          (let (r, d) = (if bs = [] then ((0, None), cp_dst c) else wr bs (cp_dst c));
               (nw, ew) = check_write bs r;
               written = cp_written c + of_nat nw
           in case ew of
                Some e \<Rightarrow> Inl (Val (written, Some e), s, d)
              | None \<Rightarrow>
                  (case er of
                     Some e \<Rightarrow> Inl (Val (written, eof_to_nil e), s, d)
                   | None \<Rightarrow> Inr \<lparr>cp_written = written, cp_src = s, cp_dst = d\<rparr>))
      | (Panic m, s) \<Rightarrow> Inl (Panic m, s, cp_dst c)
      | (Diverges, s) \<Rightarrow> Inl (Diverges, s, cp_dst c))"

definition io_copy :: "'s reader \<Rightarrow> 'd writer \<Rightarrow> 's \<Rightarrow> 'd \<Rightarrow> ('s, 'd) copied" where
  "io_copy rd wr s d =
     (case loop (copy_round rd wr) \<lparr>cp_written = 0, cp_src = s, cp_dst = d\<rparr> of
        Some r \<Rightarrow> r
      | None \<Rightarrow> (Diverges, s, d))"

text \<open>One write of the loop, and what a round that succeeds has done.\<close>

definition copy_write :: "'d writer \<Rightarrow> bytes \<Rightarrow> 'd \<Rightarrow> 'd \<Rightarrow> bool" where
  "copy_write wr bs d d' \<longleftrightarrow>
     (if bs = [] then d' = d else \<exists>r. wr bs d = (r, d') \<and> check_write bs r = (length bs, None))"

lemma check_write_ok: "check_write bs r = (nw, None) \<Longrightarrow> nw = length bs"
  by (cases r) (auto simp: check_write_def split: if_splits option.splits)

lemma check_write_full: "check_write bs r = (length bs, None) \<Longrightarrow> r = (length bs, None)"
  by (cases r) (auto simp: check_write_def split: if_splits option.splits)

lemma copy_round_on:
  assumes "copy_round rd wr c = Inr c'"
  obtains bs where "rd copy_buffer_size (cp_src c) = (Val (bs, None), cp_src c')"
    "copy_write wr bs (cp_dst c) (cp_dst c')" "cp_written c' = cp_written c + of_nat (length bs)"
  using assms
  by (auto simp: copy_round_def copy_write_def Let_def
      split: prod.splits outcome.splits option.splits if_splits dest: check_write_ok)

lemma copy_round_done:
  assumes "copy_round rd wr c = Inl (Val (n, None), s', d')"
  obtains bs where "rd copy_buffer_size (cp_src c) = (Val (bs, Some ErrEOF), s')"
    "copy_write wr bs (cp_dst c) d'" "n = cp_written c + of_nat (length bs)"
  using assms
  by (auto simp: copy_round_def copy_write_def Let_def eof_to_nil_def
      split: prod.splits outcome.splits option.splits if_splits dest: check_write_ok)

text \<open>
  Partial correctness of \<^verbatim>\<open>io.Copy\<close>: an assertion \<open>J\<close> on the count, the reader and the
  writer that every round keeps holds when it returns without error, and then the last read
  gave EOF.
\<close>

lemma io_copy_rule:
  assumes copy: "io_copy rd wr s d = (Val (n, None), s', d')"
    and init: "J 0 s d"
    and round: "\<And>written s d bs er s1 d1.
        J written s d \<Longrightarrow> rd copy_buffer_size s = (Val (bs, er), s1) \<Longrightarrow> copy_write wr bs d d1 \<Longrightarrow>
        er = None \<or> er = Some ErrEOF \<Longrightarrow>
        J (written + of_nat (length bs)) s1 d1 \<and> (er = Some ErrEOF \<longrightarrow> at_end s1)"
  shows "J n s' d' \<and> at_end s'"
proof -
  let ?c = "\<lparr>cp_written = 0, cp_src = s, cp_dst = d\<rparr>"
  have "loop (copy_round rd wr) ?c = Some (Val (n, None), s', d')"
    using copy by (auto simp: io_copy_def split: option.splits)
  then have "\<forall>m t e. (Val (n, None :: error option), s', d') = (Val (m, None), t, e) \<longrightarrow> J m t e \<and> at_end t"
  proof (rule loop_rule [where J = "\<lambda>c. J (cp_written c) (cp_src c) (cp_dst c)"])
    show "J (cp_written ?c) (cp_src ?c) (cp_dst ?c)" using init by simp
  next
    fix c c' assume "J (cp_written c) (cp_src c) (cp_dst c)" "copy_round rd wr c = Inr c'"
    then show "J (cp_written c') (cp_src c') (cp_dst c')"
      by (elim copy_round_on) (use round in force)
  next
    fix c r assume J: "J (cp_written c) (cp_src c) (cp_dst c)" and r: "copy_round rd wr c = Inl r"
    show "\<forall>m t e. r = (Val (m, None), t, e) \<longrightarrow> J m t e \<and> at_end t"
      using J r by (auto elim!: copy_round_done dest: round)
  qed
  then show ?thesis by simp
qed

text \<open>A property of the two states that reads and writes keep, however they end, is kept by the copy.\<close>

lemma io_copy_invariant:
  assumes copy: "io_copy rd wr s d = (r, s', d')" and init: "P s d"
    and rkeep: "\<And>s d n x t. P s d \<Longrightarrow> rd n s = (x, t) \<Longrightarrow> P t d"
    and wkeep: "\<And>s d bs x e. P s d \<Longrightarrow> wr bs d = (x, e) \<Longrightarrow> P s e"
  shows "P s' d'"
proof -
  let ?c = "\<lparr>cp_written = 0, cp_src = s, cp_dst = d\<rparr>"
  have keep: "case copy_round rd wr c of Inr c' \<Rightarrow> P (cp_src c') (cp_dst c') | Inl (_, t, e) \<Rightarrow> P t e"
    if P: "P (cp_src c) (cp_dst c)" for c
  proof -
    obtain x t where rd: "rd copy_buffer_size (cp_src c) = (x, t)" by fastforce
    with rkeep P have t: "P t (cp_dst c)" by blast
    have e: "P t e" if "wr bs (cp_dst c) = (y, e)" for bs y e
      using wkeep [OF t that] .
    show ?thesis
      using rd t e by (auto simp: copy_round_def Let_def split: prod.splits outcome.splits option.splits if_splits sum.splits)
  qed
  show ?thesis
  proof (cases "loop (copy_round rd wr) ?c")
    case None
    with copy init show ?thesis by (auto simp: io_copy_def)
  next
    case (Some res)
    then have "case res of (_, t, e) \<Rightarrow> P t e"
      by (rule loop_rule [where J = "\<lambda>c. P (cp_src c) (cp_dst c)"]) (use init keep in \<open>force+\<close>)
    with copy Some show ?thesis by (auto simp: io_copy_def)
  qed
qed

section \<open>io.ReadAll\<close>

text \<open>
  \<^verbatim>\<open>io.ReadAll\<close>: read into the spare capacity of a buffer of 512 bytes, which
  \<^verbatim>\<open>append\<close> enlarges when it is full.  By how much is left open by the language: to a
  capacity of \<open>grow n\<close> bytes more than the least possible one.
\<close>

record 's reading =
  ra_cap :: nat
  ra_buf :: bytes
  ra_src :: 's

type_synonym 's read_it = "read_result outcome \<times> 's"

definition read_all_round :: "(nat \<Rightarrow> nat) \<Rightarrow> 's reader \<Rightarrow> 's reading \<Rightarrow> 's read_it + 's reading" where
  "read_all_round grow rd c =
     (case rd (ra_cap c - length (ra_buf c)) (ra_src c) of
        (Val (bs, er), s) \<Rightarrow>
          (let b = ra_buf c @ bs
           in case er of
                Some e \<Rightarrow> Inl (Val (b, eof_to_nil e), s)
              | None \<Rightarrow>
                  Inr \<lparr>ra_cap = (if length b = ra_cap c then length b + 1 + grow (length b) else ra_cap c),
                       ra_buf = b, ra_src = s\<rparr>)
      | (Panic m, s) \<Rightarrow> Inl (Panic m, s)
      | (Diverges, s) \<Rightarrow> Inl (Diverges, s))"

definition io_read_all :: "(nat \<Rightarrow> nat) \<Rightarrow> 's reader \<Rightarrow> 's \<Rightarrow> 's read_it" where
  "io_read_all grow rd s =
     (case loop (read_all_round grow rd) \<lparr>ra_cap = 512, ra_buf = [], ra_src = s\<rparr> of
        Some r \<Rightarrow> r
      | None \<Rightarrow> (Diverges, s))"

text \<open>Reading all through a translation of states that the reads respect.\<close>

lemma io_read_all_simulation:
  assumes "io_read_all grow rd s = (Val v, t)"
    and sim: "\<And>n s. rd' n (g s) = (case rd n s of (r, t) \<Rightarrow> (r, g t))"
  shows "io_read_all grow rd' (g s) = (Val v, g t)"
proof -
  let ?g = "\<lambda>c. \<lparr>ra_cap = ra_cap c, ra_buf = ra_buf c, ra_src = g (ra_src c)\<rparr>"
  let ?c = "\<lparr>ra_cap = 512, ra_buf = [], ra_src = s\<rparr>"
  have round: "read_all_round grow rd' (?g c) =
      (case read_all_round grow rd c of Inl (r, t) \<Rightarrow> Inl (r, g t) | Inr c' \<Rightarrow> Inr (?g c'))" for c
    by (auto simp: read_all_round_def sim Let_def split: prod.splits outcome.splits option.splits)
  have "loop (read_all_round grow rd) ?c = Some (Val v, t)"
    using assms(1) by (auto simp: io_read_all_def split: option.splits)
  then have "loop (read_all_round grow rd') (?g ?c) = Some (Val v, g t)"
    using loop_simulation [of "read_all_round grow rd" ?c "(Val v, t)" "read_all_round grow rd'" ?g "\<lambda>(r, t). (r, g t)"]
    by (simp add: round split: sum.splits prod.splits)
  then show ?thesis by (simp add: io_read_all_def)
qed

text \<open>
  \<^verbatim>\<open>io.ReadAll\<close> as a part of a client, which goes on with \<open>k\<close>.  A client is finite, so the
  number of reads is bounded by \<open>fuel\<close>; running out of it is not returning.  Where reading all
  of a reader ends, enough fuel makes no difference.
\<close>

primrec read_all_client :: "nat \<Rightarrow> (nat \<Rightarrow> nat) \<Rightarrow> (read_result \<Rightarrow> 'a client) \<Rightarrow> nat \<Rightarrow> bytes \<Rightarrow> 'a client" where
  "read_all_client 0 grow k cap buf = Hang"
| "read_all_client (Suc fuel) grow k cap buf =
     Read_then (cap - length buf) (\<lambda>(bs, er).
       (let b = buf @ bs
        in case er of
             Some e \<Rightarrow> k (b, eof_to_nil e)
           | None \<Rightarrow>
               read_all_client fuel grow k (if length b = cap then length b + 1 + grow (length b) else cap) b))"

definition client_read_all :: "nat \<Rightarrow> (nat \<Rightarrow> nat) \<Rightarrow> (read_result \<Rightarrow> 'a client) \<Rightarrow> 'a client" where
  "client_read_all fuel grow k = read_all_client fuel grow k 512 []"

lemma run_client_read_all:
  assumes "io_read_all grow rd s = (Val v, t)"
  shows "\<exists>least. \<forall>fuel \<ge> least. run_client rd (client_read_all fuel grow k) s = run_client rd (k v) t"
proof -
  let ?run = "\<lambda>fuel c. run_client rd (read_all_client fuel grow k (ra_cap c) (ra_buf c)) (ra_src c)"
  let ?c = "\<lparr>ra_cap = 512, ra_buf = [], ra_src = s\<rparr>"
  have "loop (read_all_round grow rd) ?c = Some (Val v, t)"
    using assms by (auto simp: io_read_all_def split: option.splits)
  then have "\<exists>least. \<forall>fuel \<ge> least. ?run fuel ?c = obind (Val v, t) (\<lambda>v. run_client rd (k v)) (\<lambda>s. s)"
  proof (rule loop_induct [where P = "\<lambda>c r. \<exists>least. \<forall>fuel \<ge> least. ?run fuel c = seq r (\<lambda>v. run_client rd (k v))"])
    fix c r assume "read_all_round grow rd c = Inl r"
    then have "?run fuel c = seq r (\<lambda>v. run_client rd (k v))" if "1 \<le> fuel" for fuel
      using that
      by (cases fuel; cases "rd (ra_cap c - length (ra_buf c)) (ra_src c)";
          cases "fst (rd (ra_cap c - length (ra_buf c)) (ra_src c))")
        (auto simp: read_all_round_def Let_def split: option.splits)
    then show "\<exists>least. \<forall>fuel \<ge> least. ?run fuel c = seq r (\<lambda>v. run_client rd (k v))" by blast
  next
    fix c c' r
    assume c': "read_all_round grow rd c = Inr c'"
      and "\<exists>least. \<forall>fuel \<ge> least. ?run fuel c' = seq r (\<lambda>v. run_client rd (k v))"
    then obtain least where least: "\<forall>fuel \<ge> least. ?run fuel c' = seq r (\<lambda>v. run_client rd (k v))" by blast
    have "?run fuel c = seq r (\<lambda>v. run_client rd (k v))" if "Suc least \<le> fuel" for fuel
    proof -
      obtain f where f: "fuel = Suc f" "least \<le> f" using \<open>Suc least \<le> fuel\<close> by (cases fuel) auto
      have "?run fuel c = ?run f c'"
        using c' f(1)
        by (auto simp: read_all_round_def Let_def split: prod.splits outcome.splits option.splits)
      with least f(2) show ?thesis by simp
    qed
    then show "\<exists>least. \<forall>fuel \<ge> least. ?run fuel c = seq r (\<lambda>v. run_client rd (k v))" by blast
  qed
  then show ?thesis by (simp add: client_read_all_def)
qed

section \<open>The contracts of io.Reader and io.Writer\<close>

text \<open>
  A well-behaved reader delivers the bytes of \<open>content\<close> in order, at most as many as fit the
  buffer, never panics, ends with the error \<open>final\<close> once everything has been delivered, and
  makes progress whenever it is given room.  The length of a Go slice is below \<open>2 ^ 63\<close>.
\<close>

locale io_reader =
  fixes rd :: "'s reader"
    and inv :: "'s \<Rightarrow> bool"
    and content :: "'s \<Rightarrow> bytes"
    and final :: "'s \<Rightarrow> error"
    and left :: "'s \<Rightarrow> nat"
  assumes read_ok: "inv s \<Longrightarrow> n < 2 ^ 63 \<Longrightarrow>
    \<exists>bs e s'. rd n s = (Val (bs, e), s') \<and> inv s' \<and> length bs \<le> n \<and> content s = bs @ content s' \<and>
      final s' = final s \<and> (e \<noteq> None \<longrightarrow> e = Some (final s) \<and> content s' = []) \<and>
      (e = None \<longrightarrow> 0 < n \<longrightarrow> left s' < left s)"
begin

lemma read_cases:
  assumes "inv s" "n < 2 ^ 63"
  obtains (more) bs s' where "rd n s = (Val (bs, None), s')" "inv s'" "length bs \<le> n"
      "content s = bs @ content s'" "final s' = final s" "0 < n \<longrightarrow> left s' < left s"
    | (last) bs s' where "rd n s = (Val (bs, Some (final s)), s')" "inv s'" "length bs \<le> n"
      "content s = bs" "content s' = []" "final s' = final s"
proof -
  from read_ok [OF assms] obtain bs e s' where
    *: "rd n s = (Val (bs, e), s')" "inv s'" "length bs \<le> n" "content s = bs @ content s'"
      "final s' = final s" "e \<noteq> None \<longrightarrow> e = Some (final s) \<and> content s' = []"
      "e = None \<longrightarrow> 0 < n \<longrightarrow> left s' < left s" by blast
  show thesis
    using * by (cases e) (auto intro: more last)
qed

text \<open>Reading all of it ends and returns the content.\<close>

lemma read_all_ok:
  assumes "inv s" and grow: "\<And>k. k \<le> length (content s) \<Longrightarrow> k + 1 + grow k < 2 ^ 63"
  shows "\<exists>s'. io_read_all grow rd s = (Val (content s, eof_to_nil (final s)), s') \<and> inv s'"
proof -
  let ?c = "\<lparr>ra_cap = 512, ra_buf = [], ra_src = s\<rparr>"
  let ?J = "\<lambda>c. inv (ra_src c) \<and> length (ra_buf c) < ra_cap c \<and> ra_cap c < 2 ^ 63 \<and>
      content s = ra_buf c @ content (ra_src c) \<and> final (ra_src c) = final s"
  let ?Q = "\<lambda>r. \<exists>s'. r = (Val (content s, eof_to_nil (final s)), s') \<and> inv s'"
  have J: "?J ?c" using assms by simp
  have on: "?J c' \<and> left (ra_src c') < left (ra_src c)"
    if "?J c" "read_all_round grow rd c = Inr c'" for c c'
    by (rule read_cases [of "ra_src c" "ra_cap c - length (ra_buf c)"])
      (use that grow [of "length (ra_buf c')"] in \<open>auto simp: read_all_round_def Let_def\<close>)
  have out: "?Q r" if "?J c" "read_all_round grow rd c = Inl r" for c r
    by (rule read_cases [of "ra_src c" "ra_cap c - length (ra_buf c)"])
      (use that in \<open>auto simp: read_all_round_def Let_def\<close>)
  obtain r where r: "loop (read_all_round grow rd) ?c = Some r"
    using loop_returns [where J = ?J and m = "\<lambda>c. left (ra_src c)", OF J on] by blast
  from loop_rule [where J = ?J and Q = ?Q, OF r J] on out have "?Q r" by blast
  with r show ?thesis by (auto simp: io_read_all_def)
qed

end

locale io_writer =
  fixes wr :: "'d writer"
    and wok :: "'d \<Rightarrow> bool"
    and written :: "'d \<Rightarrow> bytes"
  assumes write_ok: "wok d \<Longrightarrow> \<exists>d'. wr bs d = ((length bs, None), d') \<and> wok d' \<and> written d' = written d @ bs"

locale io_copying = io_reader + io_writer
begin

lemma copy_write_ok: "wok d \<Longrightarrow> \<exists>d'. copy_write wr bs d d' \<and> wok d' \<and> written d' = written d @ bs"
  by (cases "bs = []") (auto simp: copy_write_def check_write_def dest!: write_ok [of d bs])

text \<open>Copying ends, everything readable has been written, and the count and error say so.\<close>

lemma copy_ok:
  assumes "inv s" "wok d"
  shows "\<exists>s' d'. io_copy rd wr s d = (Val (of_nat (length (content s)), eof_to_nil (final s)), s', d') \<and>
      inv s' \<and> wok d' \<and> written d' = written d @ content s"
proof -
  let ?c = "\<lparr>cp_written = 0, cp_src = s, cp_dst = d\<rparr>"
  let ?J = "\<lambda>c. inv (cp_src c) \<and> wok (cp_dst c) \<and> final (cp_src c) = final s \<and>
      written (cp_dst c) @ content (cp_src c) = written d @ content s \<and>
      cp_written c + of_nat (length (content (cp_src c))) = of_nat (length (content s))"
  let ?Q = "\<lambda>r. \<exists>s' d'. r = (Val (of_nat (length (content s)), eof_to_nil (final s)), s', d') \<and>
      inv s' \<and> wok d' \<and> written d' = written d @ content s"
  have J: "?J ?c" using assms by simp
  have both: "(\<forall>c'. copy_round rd wr c = Inr c' \<longrightarrow> ?J c' \<and> left (cp_src c') < left (cp_src c)) \<and>
      (\<forall>r. copy_round rd wr c = Inl r \<longrightarrow> ?Q r)" if "?J c" for c
  proof -
    have "inv (cp_src c)" "copy_buffer_size < 2 ^ 63" using that by (simp_all add: copy_buffer_size_def)
    then show ?thesis
    proof (cases rule: read_cases)
      case (more bs s')
      then show ?thesis
        using that write_ok [of "cp_dst c" bs]
        by (auto simp: copy_round_def Let_def check_write_def copy_buffer_size_def algebra_simps)
    next
      case (last bs s')
      then show ?thesis
        using that write_ok [of "cp_dst c" bs]
        by (auto simp: copy_round_def Let_def check_write_def)
    qed
  qed
  obtain r where r: "loop (copy_round rd wr) ?c = Some r"
    using loop_returns [where J = ?J and m = "\<lambda>c. left (cp_src c)", OF J] both by blast
  from loop_rule [where J = ?J and Q = ?Q, OF r J] both have "?Q r" by blast
  with r show ?thesis by (auto simp: io_copy_def)
qed

end

section \<open>Hashing what is read keeps the contract\<close>

context io_reader
begin

lemma tee_reader:
  "io_reader (tee_read rd) (\<lambda>sh. inv (fst sh)) (\<lambda>sh. content (fst sh))
     (\<lambda>sh. final (fst sh)) (\<lambda>sh. left (fst sh))"
proof
  fix sh :: "'s \<times> bytes" and n :: nat
  assume "inv (fst sh)" "n < 2 ^ 63"
  then show "\<exists>bs e s'. tee_read rd n sh = (Val (bs, e), s') \<and> inv (fst s') \<and> length bs \<le> n \<and>
      content (fst sh) = bs @ content (fst s') \<and> final (fst s') = final (fst sh) \<and>
      (e \<noteq> None \<longrightarrow> e = Some (final (fst sh)) \<and> content (fst s') = []) \<and>
      (e = None \<longrightarrow> 0 < n \<longrightarrow> left (fst s') < left (fst sh))"
    by (cases rule: read_cases) (auto simp: tee_read_def)
qed

end

end
