(* ===== verification/Quotaed_Reader.thy ===== *)
theory Quotaed_Reader
  imports Go_IO
begin

text \<open>
  \<^verbatim>\<open>fetcher/layerfetcher/quotaed_reader.go\<close>: a reader that lets at most a quota of bytes
  (and one more, to notice) through from its delegate.  The contract of \<^verbatim>\<open>io.Reader\<close> is
  shown to pass from the delegate to the quotaed reader, with the content cut one byte after
  the quota and the quota error as the end of an over-long content.
\<close>

section \<open>The reader\<close>

text \<open>The error handler is the error it returns.\<close>

record 's quotaed_reader =
  DelegateReader :: 's
  QuotaLeft :: int64
  QuotaExceededErrorHandler :: error

definition new_quotaed_reader :: "'s \<Rightarrow> int64 \<Rightarrow> string \<Rightarrow> 's quotaed_reader" where
  "new_quotaed_reader delegateReader quotaLeft errorMsg =
     \<lparr>DelegateReader = delegateReader, QuotaLeft = quotaLeft,
      QuotaExceededErrorHandler = ErrNew errorMsg\<rparr>"

text \<open>
  \<^verbatim>\<open>Read\<close>: the buffer is cut to \<^verbatim>\<open>p[0:QuotaLeft+1]\<close> when it is longer than the
  quota, which panics when that bound is negative.
\<close>

definition quotaed_read :: "'s reader \<Rightarrow> 's quotaed_reader reader" where
  "quotaed_read rd n q =
     (let cut = sint (QuotaLeft q) < int n
      in if cut \<and> sint (QuotaLeft q + 1) < 0 then (Panic ''slice bounds out of range'', q)
         else obind (rd (if cut then nat (sint (QuotaLeft q + 1)) else n) (DelegateReader q))
           (\<lambda>(bs, err) s.
              let q' = q\<lparr>DelegateReader := s, QuotaLeft := QuotaLeft q - of_nat (length bs)\<rparr>
              in if sint (QuotaLeft q') < 0 then (Val (bs, Some (QuotaExceededErrorHandler q)), q')
                 else (Val (bs, err), q'))
           (\<lambda>s. q\<lparr>DelegateReader := s\<rparr>))"

definition quotaed_close :: "('s \<Rightarrow> error option \<times> 's) \<Rightarrow> 's quotaed_reader \<Rightarrow> error option \<times> 's quotaed_reader" where
  "quotaed_close cl q = (case cl (DelegateReader q) of (e, s) \<Rightarrow> (e, q\<lparr>DelegateReader := s\<rparr>))"

section \<open>One read\<close>

lemma sint_succ_quota:
  "sint (x :: int64) < int n \<Longrightarrow> n < 2 ^ 63 \<Longrightarrow> sint (x + 1) = sint x + 1"
  using sint_range64 [of x] by (subst sint_add64) simp_all

text \<open>
  A read that does not report the quota error has taken what it returns off a quota that
  covers it; only the delegate's own promise to stay within the buffer is needed.
\<close>

lemma quotaed_read_within:
  assumes read: "quotaed_read rd n q = (Val (bs, err), q')"
    and err: "err \<noteq> Some (QuotaExceededErrorHandler q)"
    and room: "\<And>m bs e s. rd m (DelegateReader q) = (Val (bs, e), s) \<Longrightarrow> length bs \<le> m"
    and quota: "0 \<le> sint (QuotaLeft q)" and n: "n < 2 ^ 63"
  shows "sint (QuotaLeft q') = sint (QuotaLeft q) - int (length bs) \<and> 0 \<le> sint (QuotaLeft q') \<and>
    QuotaExceededErrorHandler q' = QuotaExceededErrorHandler q"
proof -
  let ?m = "if sint (QuotaLeft q) < int n then nat (sint (QuotaLeft q + 1)) else n"
  from read err obtain e s where rd: "rd ?m (DelegateReader q) = (Val (bs, e), s)"
    and q': "q' = q\<lparr>DelegateReader := s, QuotaLeft := QuotaLeft q - of_nat (length bs)\<rparr>"
    and nneg: "0 \<le> sint (QuotaLeft q - of_nat (length bs))"
    by (auto simp: quotaed_read_def Let_def call_returns split: if_splits)
  have "int (length bs) \<le> sint (QuotaLeft q) + 1"
    using room [OF rd] quota n sint_succ_quota [of "QuotaLeft q" n] by (auto split: if_splits)
  moreover have "length bs < 2 ^ 63"
    using room [OF rd] n sint_succ_quota [of "QuotaLeft q" n] by (auto split: if_splits)
  ultimately have "sint (QuotaLeft q - of_nat (length bs)) = sint (QuotaLeft q) - int (length bs)"
    using quota sint_range64 [of "QuotaLeft q"] by (subst sint_sub64) (simp_all add: sint_of_nat64)
  with q' nneg show ?thesis by simp
qed

text \<open>A read that ends a content does so because the delegate did.\<close>

lemma quotaed_read_delegate:
  assumes "quotaed_read rd n q = (Val (bs, err), q')" "err \<noteq> Some (QuotaExceededErrorHandler q)"
  shows "\<exists>m. rd m (DelegateReader q) = (Val (bs, err), DelegateReader q')"
  using assms by (auto simp: quotaed_read_def Let_def call_returns split: if_splits)

section \<open>The contract\<close>

definition quota_content :: "('s \<Rightarrow> bytes) \<Rightarrow> 's quotaed_reader \<Rightarrow> bytes" where
  "quota_content content q = take (nat (sint (QuotaLeft q) + 1)) (content (DelegateReader q))"

definition quota_final :: "('s \<Rightarrow> bytes) \<Rightarrow> ('s \<Rightarrow> error) \<Rightarrow> 's quotaed_reader \<Rightarrow> error" where
  "quota_final content final q =
     (if int (length (content (DelegateReader q))) \<le> sint (QuotaLeft q) then final (DelegateReader q)
      else QuotaExceededErrorHandler q)"

context io_reader
begin

lemma quotaed_reader:
  "io_reader (quotaed_read rd) (\<lambda>q. inv (DelegateReader q) \<and> - 1 \<le> sint (QuotaLeft q))
     (quota_content content) (quota_final content final) (\<lambda>q. left (DelegateReader q))"
proof
  fix q :: "'s quotaed_reader" and n :: nat
  let ?d = "DelegateReader q" and ?x = "QuotaLeft q"
  let ?m = "if sint ?x < int n then nat (sint (?x + 1)) else n"
  assume inv: "inv ?d \<and> - 1 \<le> sint ?x" and n: "n < 2 ^ 63"
  have m: "?m < 2 ^ 63" "?m \<le> n" "int ?m \<le> sint ?x + 1" "0 < n \<longrightarrow> 0 \<le> sint ?x \<longrightarrow> 0 < ?m"
    using n inv sint_succ_quota [of ?x n] by auto
  have run: "quotaed_read rd n q =
      (let q' = q\<lparr>DelegateReader := s, QuotaLeft := ?x - of_nat (length bs)\<rparr>
       in if sint (QuotaLeft q') < 0 then (Val (bs, Some (QuotaExceededErrorHandler q)), q') else (Val (bs, e), q'))"
    if "rd ?m ?d = (Val (bs, e), s)" for bs e s
    using that n inv sint_succ_quota [of ?x n] by (simp add: quotaed_read_def Let_def)
  have sub: "sint (?x - of_nat (length bs)) = sint ?x - int (length bs)" if "length bs \<le> ?m" for bs :: bytes
    using that m inv sint_range64 [of ?x] by (subst sint_sub64) (simp_all add: sint_of_nat64)
  have shift: "nat (sint ?x - int (length bs) + 1) = nat (sint ?x + 1) - length bs" for bs :: bytes
    by arith
  have "inv ?d" using inv by simp
  then show "\<exists>bs e q'. quotaed_read rd n q = (Val (bs, e), q') \<and>
      (inv (DelegateReader q') \<and> - 1 \<le> sint (QuotaLeft q')) \<and> length bs \<le> n \<and>
      quota_content content q = bs @ quota_content content q' \<and>
      quota_final content final q' = quota_final content final q \<and>
      (e \<noteq> None \<longrightarrow> e = Some (quota_final content final q) \<and> quota_content content q' = []) \<and>
      (e = None \<longrightarrow> 0 < n \<longrightarrow> left (DelegateReader q') < left (DelegateReader q))"
    using m(1)
  proof (cases rule: read_cases)
    case (more bs s)
    with inv m sub [of bs] show ?thesis
      by (auto simp: run Let_def quota_content_def quota_final_def shift)
  next
    case (last bs s)
    with inv m sub [of bs] show ?thesis
      by (auto simp: run Let_def quota_content_def quota_final_def shift)
  qed
qed

end

end
