(* ===== verification/Os_World.thy ===== *)
theory Os_World
  imports Quotaed_Reader
begin

text \<open>
  The world outside the program: the operating system's files (with Go's \<^verbatim>\<open>os\<close> package
  on top) and the image library with the registry behind it.  Everything the program cannot
  determine is a function of an environment record: which calls fail and how, the random
  part of temporary names, what the registry answers.  Calls are numbered by the clock
  \<open>tick\<close> of the world, so the same call may fail once and succeed later.
\<close>

section \<open>What the image library returns\<close>

text \<open>
  The fields of \<^verbatim>\<open>types.BlobInfo\<close> and \<^verbatim>\<open>imgspec.Image\<close> that the program reads; the
  rest of an image configuration is carried along unread.
\<close>

record blob_info =
  bi_Digest :: string
  bi_Size :: int64
  bi_URLs :: "string list"
  bi_MediaType :: string

record image_config =
  ic_DiffIDs :: "string list"
  ic_Env :: "string list"
  ic_rest :: string

record image =
  im_LayerInfos :: "blob_info list"
  im_id :: nat

record manifest_update =
  mu_MIMEType :: string
  mu_DiffIDs :: "string list"
  mu_LayerInfos :: "blob_info list"

record system_context =
  sc_DockerInsecureSkipTLSVerify :: "bool option"
  sc_DockerAuthConfig :: "(string \<times> string) option"

text \<open>
  The body of a downloaded blob: the pieces it arrives in and how it ends.  A registry may also
  keep sending pieces for ever, or leave the connection open and send nothing more; such a body
  has no end.
\<close>

datatype body_rest = Nothing_more | Pieces "nat \<Rightarrow> bytes" | Stalls

record blob_stream =
  bl_chunks :: "bytes list"
  bl_rest :: body_rest
  bl_final :: error

definition finite_body :: "blob_stream \<Rightarrow> bool" where
  "finite_body s \<longleftrightarrow> bl_rest s = Nothing_more"

text \<open>What has arrived once \<open>k\<close> pieces of the rest have.\<close>

fun arrived :: "body_rest \<Rightarrow> nat \<Rightarrow> bytes" where
  "arrived (Pieces f) k = concat (map f [0..<k])"
| "arrived _ k = []"

fun rest_after :: "body_rest \<Rightarrow> nat \<Rightarrow> body_rest" where
  "rest_after (Pieces f) k = Pieces (\<lambda>i. f (i + k))"
| "rest_after r k = r"

definition body_after :: "blob_stream \<Rightarrow> nat \<Rightarrow> bytes" where
  "body_after s k = concat (bl_chunks s) @ arrived (bl_rest s) k"

lemma finite_body_all [simp]: "finite_body s \<Longrightarrow> body_after s k = concat (bl_chunks s)"
  by (simp add: finite_body_def body_after_def)

lemma rest_after_ends [simp]:
  "rest_after r k = Nothing_more \<longleftrightarrow> r = Nothing_more" "Nothing_more = rest_after r k \<longleftrightarrow> r = Nothing_more"
  by (cases r; simp)+

section \<open>The environment\<close>

datatype os_op = OpStat | OpOpen | OpRead | OpCreateTemp | OpWrite | OpClose | OpRemove

text \<open>
  \<open>'z\<close> is the state of the gzip decoder, which sees its input only by reading it.  The three
  functions of \<^verbatim>\<open>path/filepath\<close> are those of the platform \<open>goos\<close> names; the program calls
  them on Windows only.
\<close>

record 'z env =
  goos :: string
  fp_VolumeName :: "string \<Rightarrow> string"
  fp_Join :: "string \<Rightarrow> string \<Rightarrow> string"
  fp_Clean :: "string \<Rightarrow> string"
  os_fault :: "os_op \<Rightarrow> nat \<Rightarrow> error option"
  temp_dir :: string
  temp_random :: "nat \<Rightarrow> string"
  read_all_grow :: "nat \<Rightarrow> nat"
  gz_new :: "'z res client"
  gz_read :: "nat \<Rightarrow> 'z \<Rightarrow> (read_result \<times> 'z) client"
  transport :: "string \<Rightarrow> (string \<Rightarrow> string res) option"
  new_image_source :: "nat \<Rightarrow> string \<Rightarrow> system_context \<Rightarrow> error option"
  from_unparsed_image :: "nat \<Rightarrow> string \<Rightarrow> system_context \<Rightarrow> image res"
  image_manifest_type :: "nat \<Rightarrow> image \<Rightarrow> string res"
  image_config_blob :: "nat \<Rightarrow> image \<Rightarrow> error option"
  image_oci_config :: "nat \<Rightarrow> image \<Rightarrow> image_config res"
  image_updated :: "nat \<Rightarrow> image \<Rightarrow> manifest_update \<Rightarrow> image res"
  get_blob :: "nat \<Rightarrow> string \<Rightarrow> blob_info \<Rightarrow> (blob_stream \<times> int64) res"
  source_close :: "nat \<Rightarrow> error option"

section \<open>The world\<close>

record os_file =
  f_content :: bytes
  f_isdir :: bool
  f_mtime :: int64

text \<open>An open file: its name, and the bytes a reader has yet to see.\<close>

record open_file =
  of_name :: string
  of_left :: bytes
  of_isdir :: bool

record world =
  fs :: "string \<rightharpoonup> os_file"
  fds :: "nat \<rightharpoonup> open_file"
  next_fd :: nat
  tick :: nat
  open_blobs :: nat
  open_sources :: nat

definition advance :: "world \<Rightarrow> world" where
  "advance w = w\<lparr>tick := Suc (tick w)\<rparr>"

lemma advance_simps [simp]:
  "fs (advance w) = fs w" "fds (advance w) = fds w" "next_fd (advance w) = next_fd w"
  "tick (advance w) = Suc (tick w)" "open_blobs (advance w) = open_blobs w"
  "open_sources (advance w) = open_sources w"
  by (simp_all add: advance_def)

section \<open>Files\<close>

definition path_error :: "string \<Rightarrow> string \<Rightarrow> string \<Rightarrow> error" where
  "path_error op path msg = ErrExt (op @ '' '' @ path @ '': '' @ msg)"

text \<open>\<^verbatim>\<open>os.Stat\<close>, \<^verbatim>\<open>os.Open\<close>: a directory can be opened too.\<close>

definition os_stat :: "'z env \<Rightarrow> string \<Rightarrow> world \<Rightarrow> os_file res \<times> world" where
  "os_stat E path w =
     ((case os_fault E OpStat (tick w) of
         Some e \<Rightarrow> Inl e
       | None \<Rightarrow>
           (case fs w path of
              None \<Rightarrow> Inl (path_error ''stat'' path ''no such file or directory'')
            | Some f \<Rightarrow> Inr f)),
      advance w)"

definition os_open :: "'z env \<Rightarrow> string \<Rightarrow> world \<Rightarrow> nat res \<times> world" where
  "os_open E path w =
     (case os_fault E OpOpen (tick w) of
        Some e \<Rightarrow> (Inl e, advance w)
      | None \<Rightarrow>
          (case fs w path of
             None \<Rightarrow> (Inl (path_error ''open'' path ''no such file or directory''), advance w)
           | Some f \<Rightarrow>
               (Inr (next_fd w),
                (advance w)\<lparr>fds := (fds w)(next_fd w \<mapsto>
                    \<lparr>of_name = path, of_left = f_content f, of_isdir = f_isdir f\<rparr>),
                  next_fd := Suc (next_fd w)\<rparr>)))"

text \<open>\<^verbatim>\<open>(*os.File).Read\<close> and \<^verbatim>\<open>(*os.File).Close\<close>.\<close>

definition os_read :: "'z env \<Rightarrow> nat \<Rightarrow> world reader" where
  "os_read E fd n w =
     (case fds w fd of
        None \<Rightarrow> (Val ([], Some (ErrExt ''file already closed'')), advance w)
      | Some f \<Rightarrow>
          if n = 0 then (Val ([], None), advance w)
          else if of_isdir f then (Val ([], Some (path_error ''read'' (of_name f) ''is a directory'')), advance w)
          else
            (case os_fault E OpRead (tick w) of
               Some e \<Rightarrow> (Val ([], Some e), advance w)
             | None \<Rightarrow>
                 if of_left f = [] then (Val ([], Some ErrEOF), advance w)
                 else (Val (take n (of_left f), None),
                       (advance w)\<lparr>fds := (fds w)(fd \<mapsto> f\<lparr>of_left := drop n (of_left f)\<rparr>)\<rparr>)))"

definition os_close :: "'z env \<Rightarrow> nat \<Rightarrow> world \<Rightarrow> error option \<times> world" where
  "os_close E fd w =
     (case fds w fd of
        None \<Rightarrow> (Some (ErrExt ''file already closed''), advance w)
      | Some _ \<Rightarrow> (os_fault E OpClose (tick w), (advance w)\<lparr>fds := (fds w)(fd := None)\<rparr>))"

definition os_remove :: "'z env \<Rightarrow> string \<Rightarrow> world \<Rightarrow> error option \<times> world" where
  "os_remove E path w =
     (case os_fault E OpRemove (tick w) of
        Some e \<Rightarrow> (Some e, advance w)
      | None \<Rightarrow>
          (case fs w path of
             None \<Rightarrow> (Some (path_error ''remove'' path ''no such file or directory''), advance w)
           | Some _ \<Rightarrow> (None, (advance w)\<lparr>fs := (fs w)(path := None)\<rparr>)))"

text \<open>
  \<^verbatim>\<open>os.CreateTemp("", pattern)\<close>: the last \<^verbatim>\<open>*\<close> of the pattern, or its end, is replaced by
  a random string; names that exist are not reused (\<open>temp_random\<close> is the string of the last of
  the 10000 tries the call makes, so it fails only when that one exists too); the file is open
  for writing.
\<close>

definition prefix_and_suffix :: "string \<Rightarrow> string \<times> string" where
  "prefix_and_suffix pattern =
     (if CHR ''*'' \<in> set pattern
      then (rev (tl (dropWhile (\<lambda>c. c \<noteq> CHR ''*'') (rev pattern))),
            rev (takeWhile (\<lambda>c. c \<noteq> CHR ''*'') (rev pattern)))
      else (pattern, []))"

definition join_path :: "string \<Rightarrow> string \<Rightarrow> string" where
  "join_path dir name =
     (if dir \<noteq> [] \<and> last dir = CHR ''/'' then dir @ name else dir @ ''/'' @ name)"

definition temp_name :: "'z env \<Rightarrow> nat \<Rightarrow> string \<Rightarrow> string" where
  "temp_name E t pattern =
     (case prefix_and_suffix pattern of (p, s) \<Rightarrow> join_path (temp_dir E) p @ temp_random E t @ s)"

definition os_create_temp :: "'z env \<Rightarrow> string \<Rightarrow> world \<Rightarrow> (nat \<times> string) res \<times> world" where
  "os_create_temp E pattern w =
     (let name = temp_name E (tick w) pattern
      in if CHR ''/'' \<in> set pattern
         then (Inl (path_error ''createtemp'' pattern ''pattern contains path separator''), advance w)
         else
           (case os_fault E OpCreateTemp (tick w) of
              Some e \<Rightarrow> (Inl e, advance w)
            | None \<Rightarrow>
                if fs w name \<noteq> None then (Inl (path_error ''createtemp'' name ''file exists''), advance w)
                else
                  (Inr (next_fd w, name),
                   (advance w)\<lparr>fs := (fs w)(name \<mapsto> \<lparr>f_content = [], f_isdir = False, f_mtime = of_nat (tick w)\<rparr>),
                     fds := (fds w)(next_fd w \<mapsto> \<lparr>of_name = name, of_left = [], of_isdir = False\<rparr>),
                     next_fd := Suc (next_fd w)\<rparr>)))"

text \<open>\<^verbatim>\<open>(*os.File).Write\<close> on the file \<^verbatim>\<open>CreateTemp\<close> opened: everything is appended or it fails.\<close>

definition os_write :: "'z env \<Rightarrow> nat \<Rightarrow> world writer" where
  "os_write E fd bs w =
     (case fds w fd of
        None \<Rightarrow> ((0, Some (ErrExt ''file already closed'')), advance w)
      | Some f \<Rightarrow>
          (case os_fault E OpWrite (tick w) of
             Some e \<Rightarrow> ((0, Some e), advance w)
           | None \<Rightarrow>
               ((length bs, None),
                (advance w)\<lparr>fs := (case fs w (of_name f) of
                     None \<Rightarrow> fs w
                   | Some g \<Rightarrow> (fs w)(of_name f \<mapsto> g\<lparr>f_content := f_content g @ bs\<rparr>))\<rparr>)))"

section \<open>Blob streams and the gzip decoder\<close>

text \<open>Reading the body of a response: at most one piece at a time.\<close>

definition refilled :: "blob_stream \<Rightarrow> blob_stream" where
  "refilled s =
     (case (bl_chunks s, bl_rest s) of
        ([], Pieces f) \<Rightarrow> s\<lparr>bl_chunks := [f 0], bl_rest := Pieces (\<lambda>i. f (Suc i))\<rparr>
      | _ \<Rightarrow> s)"

definition stream_read :: "blob_stream reader" where
  "stream_read n bdy =
     (let s = refilled bdy
      in case bl_chunks s of
        [] \<Rightarrow> (case bl_rest s of Stalls \<Rightarrow> (Diverges, s) | _ \<Rightarrow> (Val ([], Some (bl_final s)), s))
      | c # cs \<Rightarrow>
          if length c \<le> n then (Val (c, None), s\<lparr>bl_chunks := cs\<rparr>)
          else (Val (take n c, None), s\<lparr>bl_chunks := drop n c # cs\<rparr>))"

text \<open>
  \<^verbatim>\<open>gzip.NewReader(r)\<close> and its \<^verbatim>\<open>Read\<close>, over the reader \<open>r\<close>.  What is stored in the
  caller's buffer fits it.
\<close>

definition gzip_new_reader :: "'z env \<Rightarrow> 's reader \<Rightarrow> 's \<Rightarrow> 'z res outcome \<times> 's" where
  "gzip_new_reader E rd s = run_client rd (gz_new E) s"

definition gzip_read :: "'z env \<Rightarrow> 's reader \<Rightarrow> ('s \<times> 'z) reader" where
  "gzip_read E rd n sz =
     obind (run_client rd (gz_read E n (snd sz)) (fst sz))
       (\<lambda>((bs, e), z) s. (Val (take n bs, e), (s, z))) (\<lambda>s. (s, snd sz))"

lemma refilled_finite [simp]: "finite_body s \<Longrightarrow> refilled s = s"
  by (simp add: refilled_def finite_body_def split: list.split)

lemma refilled_frame [simp]: "bl_final (refilled s) = bl_final s" "finite_body (refilled s) = finite_body s"
  by (simp_all add: refilled_def finite_body_def split: list.split body_rest.split)

lemma stream_read_finite:
  "finite_body s \<Longrightarrow> stream_read n s =
     (case bl_chunks s of
        [] \<Rightarrow> (Val ([], Some (bl_final s)), s)
      | c # cs \<Rightarrow>
          if length c \<le> n then (Val (c, None), s\<lparr>bl_chunks := cs\<rparr>)
          else (Val (take n c, None), s\<lparr>bl_chunks := drop n c # cs\<rparr>))"
  by (simp add: stream_read_def finite_body_def Let_def split: list.split)

lemma finite_body_chunks [simp]: "finite_body (s\<lparr>bl_chunks := cs\<rparr>) = finite_body s"
  by (simp add: finite_body_def)

lemma stream_read_frame:
  assumes "stream_read n s = (r, t)"
  shows "finite_body t = finite_body s" "bl_final t = bl_final s"
  using assms refilled_frame [of s]
  by (auto simp: stream_read_def Let_def finite_body_def simp del: refilled_frame
      split: list.splits body_rest.splits if_splits)

interpretation stream: io_reader stream_read finite_body "\<lambda>s. concat (bl_chunks s)" bl_final
    "\<lambda>s. length (bl_chunks s) + length (concat (bl_chunks s))"
  by unfold_locales (auto simp: stream_read_finite split: list.splits)

lemma fits_buffer_stream [intro]: "fits_buffer stream_read"
  by (auto simp: fits_buffer_def stream_read_def Let_def split: list.splits if_splits body_rest.splits)

lemma fits_buffer_gzip [intro]: "fits_buffer (gzip_read E rd)"
  by (auto simp: fits_buffer_def gzip_read_def obind_eq_Val)

text \<open>
  Hashing a stream: hashed and pending bytes make up what has arrived, and everything is
  hashed once the end has been seen; a body without an end never shows one.
\<close>

definition hashed_of :: "blob_stream \<Rightarrow> blob_stream \<times> bytes \<Rightarrow> bool" where
  "hashed_of blob sh \<longleftrightarrow>
     (\<exists>k. snd sh @ concat (bl_chunks (fst sh)) = body_after blob k \<and> bl_rest (fst sh) = rest_after (bl_rest blob) k)"

lemma hashed_of_start: "hashed_of blob (blob, [])"
  by (cases "bl_rest blob") (auto simp: hashed_of_def body_after_def intro!: exI [of _ 0])

lemma hashed_of_finite: "hashed_of blob sh \<Longrightarrow> finite_body (fst sh) = finite_body blob"
  by (auto simp: hashed_of_def finite_body_def)

lemma hashed_of_refilled:
  assumes "hashed_of blob (s, h)"
  shows "hashed_of blob (refilled s, h)"
proof (cases "bl_chunks s = [] \<and> (\<exists>g. bl_rest s = Pieces g)")
  case True
  then obtain g where s: "bl_chunks s = []" "bl_rest s = Pieces g" by blast
  from assms obtain k where k: "h = body_after blob k" "bl_rest s = rest_after (bl_rest blob) k"
    by (auto simp: hashed_of_def s(1))
  from k(2) s obtain f where f: "bl_rest blob = Pieces f" "g = (\<lambda>i. f (i + k))"
    by (cases "bl_rest blob") auto
  have "h @ g 0 = body_after blob (Suc k)" "Pieces (\<lambda>i. g (Suc i)) = rest_after (bl_rest blob) (Suc k)"
    using k(1) f by (simp_all add: body_after_def)
  then show ?thesis by (auto simp: hashed_of_def refilled_def s)
next
  case False
  then have "refilled s = s" by (auto simp: refilled_def split: list.split body_rest.split)
  with assms show ?thesis by simp
qed

lemma hashed_of_pop:
  "hashed_of blob (s, h) \<Longrightarrow> bl_chunks s = c # cs \<Longrightarrow>
    hashed_of blob (s\<lparr>bl_chunks := cs\<rparr>, h @ c) \<and> hashed_of blob (s\<lparr>bl_chunks := drop n c # cs\<rparr>, h @ take n c)"
  by (simp add: hashed_of_def)

lemma hashed_of_read: "hashed_of blob sh \<Longrightarrow> tee_read stream_read n sh = (r, sh') \<Longrightarrow> hashed_of blob sh'"
  using hashed_of_refilled [of blob "fst sh" "snd sh"] hashed_of_pop [of blob "refilled (fst sh)" "snd sh"]
  by (auto simp: tee_read_def stream_read_def Let_def split: list.splits if_splits body_rest.splits)

lemma hashed_of_eof:
  assumes "hashed_of blob sh" "tee_read stream_read n sh = (Val (bs, Some e), sh')"
  shows "snd sh' = concat (bl_chunks blob)" "finite_body blob"
proof -
  have "bl_chunks (refilled (fst sh)) = []" "bl_rest (refilled (fst sh)) \<noteq> Stalls"
      "sh' = (refilled (fst sh), snd sh)"
    using assms(2)
    by (auto simp: tee_read_def stream_read_def Let_def split: list.splits if_splits body_rest.splits)
  moreover from this have "bl_rest (refilled (fst sh)) = Nothing_more"
    by (auto simp: refilled_def split: list.splits body_rest.splits)
  ultimately have end_seen: "finite_body (fst sh')" "bl_chunks (fst sh') = []" by (simp_all add: finite_body_def)
  from assms have ok: "hashed_of blob sh'" by (rule hashed_of_read)
  with end_seen show "finite_body blob" by (simp add: hashed_of_finite)
  with ok end_seen show "snd sh' = concat (bl_chunks blob)" by (auto simp: hashed_of_def)
qed

lemma gzip_read_state:
  assumes "gzip_read E rd n sz = (r, sz')" "P (fst sz)"
    and "\<And>n s r t. P s \<Longrightarrow> rd n s = (r, t) \<Longrightarrow> P t"
  shows "P (fst sz')"
proof -
  obtain x t where run: "run_client rd (gz_read E n (snd sz)) (fst sz) = (x, t)" by fastforce
  with assms(2,3) have "P t" by (rule run_client_invariant [rotated]) blast+
  with run assms(1) show ?thesis by (cases x) (auto simp: gzip_read_def)
qed

section \<open>Streams through a quota\<close>

interpretation quotaed_stream: io_reader "quotaed_read stream_read" "\<lambda>q. finite_body (DelegateReader q) \<and> - 1 \<le> sint (QuotaLeft q)"
    "quota_content (\<lambda>s. concat (bl_chunks s))" "quota_final (\<lambda>s. concat (bl_chunks s)) bl_final"
    "\<lambda>q. length (bl_chunks (DelegateReader q)) + length (concat (bl_chunks (DelegateReader q)))"
  using stream.quotaed_reader by simp

text \<open>
  C26: Reading a stream that ends through a quota returns it unchanged, with the way it ends,
  when it fits; a longer one is cut one byte after the quota and ends with the quota's error.
  A quota of -1 lets nothing through.
\<close>

theorem quotaed_read_all:
  assumes "finite_body s" "- 1 \<le> sint quota" "\<forall>k \<le> length (concat (bl_chunks s)). k + 1 + grow k < 2 ^ 63"
  shows "\<exists>q'. io_read_all grow (quotaed_read stream_read) (new_quotaed_reader s quota msg) =
    (Val (take (nat (sint quota + 1)) (concat (bl_chunks s)),
          if int (length (concat (bl_chunks s))) \<le> sint quota then eof_to_nil (bl_final s) else Some (ErrNew msg)), q')"
proof -
  let ?q = "new_quotaed_reader s quota msg"
  have "finite_body (DelegateReader ?q) \<and> - 1 \<le> sint (QuotaLeft ?q)" using assms(1,2) by (simp add: new_quotaed_reader_def)
  moreover have "k + 1 + grow k < 2 ^ 63" if "k \<le> length (quota_content (\<lambda>s. concat (bl_chunks s)) ?q)" for k
    using that assms(3) by (simp add: quota_content_def new_quotaed_reader_def)
  ultimately show ?thesis
    using quotaed_stream.read_all_ok [of ?q grow]
    by (auto simp: quota_content_def quota_final_def new_quotaed_reader_def eof_to_nil_def)
qed

theorem quotaed_read_all_witness:
  "\<exists>q'. io_read_all (\<lambda>_. 0) (quotaed_read stream_read)
       (new_quotaed_reader \<lparr>bl_chunks = [[1, 2], [3, 4]], bl_rest = Nothing_more, bl_final = ErrEOF\<rparr> 2 ''too large'') =
     (Val ([1, 2, 3], Some (ErrNew ''too large'')), q')"
  using quotaed_read_all [of "\<lparr>bl_chunks = [[1, 2], [3, 4]], bl_rest = Nothing_more, bl_final = ErrEOF\<rparr>" 2 "\<lambda>_. 0" "''too large''"]
  by (simp add: numeral_3_eq_3 finite_body_def)

text \<open>
  A quota below -1 makes every read with a buffer panic: the bound of the slice
  expression is negative.
\<close>

lemma negative_quota_panics:
  assumes "sint (QuotaLeft q) < - 1"
  shows "\<exists>m. quotaed_read rd n q = (Panic m, q)"
proof -
  have "sint (QuotaLeft q + 1) = sint (QuotaLeft q) + 1"
    using assms sint_range64 [of "QuotaLeft q"] by (subst sint_add64) simp_all
  with assms show ?thesis by (simp add: quotaed_read_def)
qed

section \<open>What the calls leave alone\<close>

text \<open>A world whose next descriptor is unused, and so are all later ones.\<close>

definition wf_world :: "world \<Rightarrow> bool" where
  "wf_world w \<longleftrightarrow> (\<forall>fd \<ge> next_fd w. fds w fd = None)"

text \<open>
  Two worlds that agree on everything but the clock, the number of descriptors handed out and
  what the file \<open>name\<close> holds.
\<close>

definition only_file :: "string \<Rightarrow> world \<Rightarrow> world \<Rightarrow> bool" where
  "only_file name w w' \<longleftrightarrow>
     (\<forall>p. p \<noteq> name \<longrightarrow> fs w' p = fs w p) \<and> (fs w' name = None \<longleftrightarrow> fs w name = None) \<and>
     fds w' = fds w \<and> next_fd w' = next_fd w \<and>
     open_blobs w' = open_blobs w \<and> open_sources w' = open_sources w"

lemma only_file_refl [simp]: "only_file name w w"
  by (simp add: only_file_def)

lemma only_file_trans: "only_file name w w' \<Longrightarrow> only_file name w' w'' \<Longrightarrow> only_file name w w''"
  by (simp add: only_file_def)

lemma os_write_only_file:
  "os_write E fd bs w = (r, w') \<Longrightarrow> fds w fd = Some f \<Longrightarrow> only_file (of_name f) w w'"
  by (auto simp: os_write_def only_file_def split: option.splits)

lemma os_write_ok:
  assumes "os_write E fd bs w = ((n, None), w')" "fds w fd = Some f" "fs w (of_name f) = Some g"
  shows "n = length bs" "fs w' = (fs w)(of_name f \<mapsto> g\<lparr>f_content := f_content g @ bs\<rparr>)" "fds w' = fds w"
  using assms by (auto simp: os_write_def split: option.splits)

lemma copy_write_os_write:
  assumes "copy_write (os_write E fd) bs w w'" "fds w fd = Some f" "fs w (of_name f) = Some g"
  shows "fs w' = (fs w)(of_name f \<mapsto> g\<lparr>f_content := f_content g @ bs\<rparr>)" "fds w' = fds w"
  using assms
  by (cases "bs = []"; fastforce simp: copy_write_def dest: check_write_full os_write_ok)+

lemma os_create_temp_ok:
  assumes "os_create_temp E pattern w = (Inr (fd, name), w')"
  shows "fd = next_fd w" "fs w name = None"
    "\<exists>t. fs w' = (fs w)(name \<mapsto> \<lparr>f_content = [], f_isdir = False, f_mtime = t\<rparr>)"
    "fds w' = (fds w)(fd \<mapsto> \<lparr>of_name = name, of_left = [], of_isdir = False\<rparr>)"
    "next_fd w' = Suc (next_fd w)" "open_blobs w' = open_blobs w" "open_sources w' = open_sources w"
  using assms by (auto simp: os_create_temp_def Let_def split: option.splits if_splits)

lemma os_create_temp_err:
  assumes "os_create_temp E pattern w = (Inl e, w')"
  shows "w' = advance w"
  using assms by (auto simp: os_create_temp_def Let_def split: option.splits if_splits)

lemma os_close_frame [simp]:
  "fs (snd (os_close E fd w)) = fs w" "fds (snd (os_close E fd w)) = (fds w)(fd := None)"
  "next_fd (snd (os_close E fd w)) = next_fd w" "open_blobs (snd (os_close E fd w)) = open_blobs w"
  "open_sources (snd (os_close E fd w)) = open_sources w"
  by (auto simp: os_close_def split: option.splits)

lemma os_remove_frame [simp]:
  "fds (snd (os_remove E p w)) = fds w" "next_fd (snd (os_remove E p w)) = next_fd w"
  "open_blobs (snd (os_remove E p w)) = open_blobs w" "open_sources (snd (os_remove E p w)) = open_sources w"
  by (auto simp: os_remove_def split: option.splits)

text \<open>Nothing that has been created can fail to be removed.\<close>

definition removes_files :: "'z env \<Rightarrow> bool" where
  "removes_files E \<longleftrightarrow> (\<forall>t. os_fault E OpRemove t = None)"

lemma os_remove_fs [simp]: "removes_files E \<Longrightarrow> fs (snd (os_remove E p w)) = (fs w)(p := None)"
  by (auto simp: os_remove_def removes_files_def split: option.splits)

text \<open>
  A step that has left files, descriptors and open streams as they were.  (New descriptors may
  have been handed out and given back; an image source may have been opened.)
\<close>

definition quiet :: "world \<Rightarrow> world \<Rightarrow> bool" where
  "quiet w w' \<longleftrightarrow>
     fs w' = fs w \<and> fds w' = fds w \<and> next_fd w \<le> next_fd w' \<and> open_blobs w' = open_blobs w"

lemma quiet_refl [simp]: "quiet w w"
  by (simp add: quiet_def)

lemma quiet_advance [simp]: "quiet w (advance w)"
  by (simp add: quiet_def)

lemma quiet_trans [trans]: "quiet w w' \<Longrightarrow> quiet w' w'' \<Longrightarrow> quiet w w''"
  by (simp add: quiet_def)

lemma quiet_wf: "quiet w w' \<Longrightarrow> wf_world w \<Longrightarrow> wf_world w'"
  by (simp add: quiet_def wf_world_def)

text \<open>Descriptors: opening takes a fresh one, reading changes only its own, closing gives it back.\<close>

lemma os_open_ok:
  assumes "os_open E path w = (Inr fd, w')" "wf_world w"
  shows "fs w' = fs w" "(fds w')(fd := None) = fds w" "next_fd w \<le> next_fd w'" "wf_world w'"
    "open_blobs w' = open_blobs w" "open_sources w' = open_sources w"
  using assms by (auto simp: os_open_def wf_world_def split: option.splits)

lemma os_open_err: "os_open E path w = (Inl e, w') \<Longrightarrow> w' = advance w"
  by (auto simp: os_open_def split: option.splits)

lemma os_read_frame:
  assumes "os_read E fd n w = (r, w')"
  shows "fs w' = fs w" "(fds w')(fd := None) = (fds w)(fd := None)" "next_fd w' = next_fd w"
    "wf_world w \<Longrightarrow> wf_world w'" "open_blobs w' = open_blobs w" "open_sources w' = open_sources w"
  using assms by (auto simp: os_read_def wf_world_def split: option.splits if_splits)

lemma os_stat_frame: "os_stat E path w = (r, w') \<Longrightarrow> w' = advance w"
  by (auto simp: os_stat_def)

lemma wf_world_advance [simp]: "wf_world (advance w) = wf_world w"
  by (simp add: wf_world_def)

lemma os_close_wf: "wf_world w \<Longrightarrow> wf_world (snd (os_close E fd w))"
  by (auto simp: wf_world_def os_close_def split: option.splits)

lemma os_remove_wf [simp]: "wf_world (snd (os_remove E p w)) = wf_world w"
  by (simp add: wf_world_def)

text \<open>A file that the program can read to its end: an open descriptor, no faults.\<close>

definition reads_files :: "'z env \<Rightarrow> bool" where
  "reads_files E \<longleftrightarrow> (\<forall>t. os_fault E OpRead t = None)"

definition opens_files :: "'z env \<Rightarrow> bool" where
  "opens_files E \<longleftrightarrow> (\<forall>t. os_fault E OpOpen t = None)"

definition readable :: "'z env \<Rightarrow> nat \<Rightarrow> world \<Rightarrow> bool" where
  "readable E fd w \<longleftrightarrow> reads_files E \<and> (case fds w fd of None \<Rightarrow> False | Some f \<Rightarrow> \<not> of_isdir f)"

definition unread :: "nat \<Rightarrow> world \<Rightarrow> bytes" where
  "unread fd w = (case fds w fd of None \<Rightarrow> [] | Some f \<Rightarrow> of_left f)"

interpretation os_file: io_reader "os_read E fd" "readable E fd" "unread fd" "\<lambda>_. ErrEOF" "\<lambda>w. length (unread fd w)"
  for E fd
  by unfold_locales
    (auto simp: readable_def reads_files_def unread_def os_read_def split: option.splits)

end
