(* ===== verification/Puller_Types.thy ===== *)
theory Puller_Types
  imports Os_World
begin

text \<open>
  The data and the interfaces that \<^verbatim>\<open>imagepuller/image_puller.go\<close> declares and that the
  fetchers and the drivers share.  An interface is a record of its methods.  A fetcher's
  methods act on its own state \<open>'w\<close> (the fetcher object together with the world); the stream it
  returns is a handle \<open>'r\<close> with a method to read and one to close.  A volume driver's
  \<^verbatim>\<open>Unpack\<close> is a client of the layer's reader, with the driver's own state \<open>'d\<close>; it returns, or
  panics, with the state it has reached.  (When a read of the layer panics under it, its state is
  that before the call.)
\<close>

record layer_info =
  BlobID :: string
  ChainID :: string
  DiffID :: string
  ParentChainID :: string
  Size :: int64
  URLs :: "string list"
  MediaType :: string

record image_info =
  LayerInfos :: "layer_info list"
  ii_Config :: image_config

record image_spec =
  DiskLimit :: int64
  ExcludeImageFromQuota :: bool

record pulled_image =
  pi_Config :: image_config
  ChainIDs :: "string list"
  pi_Size :: int64

record ('w, 'r) fetcher =
  ImageInfo :: "'w \<Rightarrow> image_info res outcome \<times> 'w"
  StreamBlob :: "layer_info \<Rightarrow> 'w \<Rightarrow> ('r \<times> int64) res outcome \<times> 'w"
  ReadStream :: "'r \<Rightarrow> 'w reader"
  CloseStream :: "'r \<Rightarrow> 'w \<Rightarrow> error option \<times> 'w"
  CloseFetcher :: "'w \<Rightarrow> error option \<times> 'w"

type_synonym 'd unpack = "string \<Rightarrow> string list \<Rightarrow> 'd \<Rightarrow> (int64 res outcome \<times> 'd) client"

text \<open>The zero value of an image configuration.\<close>

definition empty_config :: image_config where
  "empty_config = \<lparr>ic_DiffIDs = [], ic_Env = [], ic_rest = []\<rparr>"

end
