(* ===== verification/Go_Digest.thy ===== *)
theory Go_Digest
  imports Prelude
begin

text \<open>
  The vendored \<^verbatim>\<open>github.com/opencontainers/go-digest\<close> as far as the program calls it.  A
  digest is the string \<open>algorithm:encoded\<close>; its accessors panic when there is no colon.
\<close>

definition new_digest_from_encoded :: "string \<Rightarrow> string \<Rightarrow> string" where
  "new_digest_from_encoded alg encoded = alg @ '':'' @ encoded"

definition new_digest_from_hex :: "string \<Rightarrow> string \<Rightarrow> string" where
  "new_digest_from_hex alg hex = new_digest_from_encoded alg hex"

definition digest_sep_index :: "string \<Rightarrow> nat outcome" where
  "digest_sep_index d =
     (let i = str_index d (CHR '':'') in
      if i < 0 then Panic (''no ':' separator in digest '' @ d) else Val (nat i))"

definition digest_encoded :: "string \<Rightarrow> string outcome" where
  "digest_encoded d =
     (case digest_sep_index d of
        Val i \<Rightarrow> Val (drop (i + 1) d)
      | Panic m \<Rightarrow> Panic m
      | Diverges \<Rightarrow> Diverges)"

definition digest_hex :: "string \<Rightarrow> string outcome" where
  "digest_hex d = digest_encoded d"

lemma digest_hex_new: "CHR '':'' \<notin> set alg \<Longrightarrow> digest_hex (new_digest_from_hex alg hex) = Val hex"
  by (simp add: digest_hex_def digest_encoded_def digest_sep_index_def new_digest_from_hex_def
      new_digest_from_encoded_def Let_def str_index_append)

lemma digest_hex_no_colon: "CHR '':'' \<notin> set d \<Longrightarrow> \<exists>m. digest_hex d = Panic m"
  by (simp add: digest_hex_def digest_encoded_def digest_sep_index_def Let_def str_index_neg)

lemma digest_hex_not_Diverges [simp]: "digest_hex d \<noteq> Diverges"
  by (simp add: digest_hex_def digest_encoded_def digest_sep_index_def Let_def)

end
