(* ===== verification/Go_Url.thy ===== *)
theory Go_Url
  imports Prelude
begin

text \<open>
  Go's \<^verbatim>\<open>net/url\<close>: \<^verbatim>\<open>url.Parse\<close> and \<^verbatim>\<open>(*URL).String\<close>, which the program
  uses to tell images apart and to name a local file.  The texts of errors leave out the
  quotation of the offending part.
\<close>

section \<open>Percent encoding\<close>

datatype url_encoding = EncodePath | EncodeUserPassword | EncodeHost | EncodeZone | EncodeFragment

definition in_chars :: "char \<Rightarrow> string \<Rightarrow> bool" where
  "in_chars c s = list_ex (\<lambda>d. d = c) s"

definition byte_of :: "char \<Rightarrow> nat" where
  "byte_of c = of_char c"

definition is_letter :: "char \<Rightarrow> bool" where
  "is_letter c \<longleftrightarrow> 97 \<le> byte_of c \<and> byte_of c \<le> 122 \<or> 65 \<le> byte_of c \<and> byte_of c \<le> 90"

definition is_digit :: "char \<Rightarrow> bool" where
  "is_digit c \<longleftrightarrow> 48 \<le> byte_of c \<and> byte_of c \<le> 57"

text \<open>The value of a hexadecimal digit.\<close>

definition unhex :: "char \<Rightarrow> nat option" where
  "unhex c =
     (if is_digit c then Some (byte_of c - 48)
      else if 97 \<le> byte_of c \<and> byte_of c \<le> 102 then Some (byte_of c - 87)
      else if 65 \<le> byte_of c \<and> byte_of c \<le> 70 then Some (byte_of c - 55)
      else None)"

definition upper_hex :: "nat \<Rightarrow> char" where
  "upper_hex n = char_of (if n < 10 then 48 + n else 55 + n)"

text \<open>CHR 0x27 and CHR 0x22 are the two quotation marks.\<close>

definition host_chars :: string where
  "host_chars = ''!$&'' @ [CHR 0x27] @ ''()*+,;=:[]<>'' @ [CHR 0x22]"

definition should_escape :: "char \<Rightarrow> url_encoding \<Rightarrow> bool" where
  "should_escape c mode =
     (if is_letter c \<or> is_digit c then False
      else if (mode = EncodeHost \<or> mode = EncodeZone) \<and> in_chars c host_chars then False
      else if in_chars c ''-_.~'' then False
      else if in_chars c ''$&+,/:;=?@'' \<and> mode = EncodePath then c = CHR ''?''
      else if in_chars c ''$&+,/:;=?@'' \<and> mode = EncodeUserPassword then in_chars c ''@/?:''
      else if in_chars c ''$&+,/:;=?@'' \<and> mode = EncodeFragment then False
      else if mode = EncodeFragment \<and> in_chars c ''!()*'' then False
      else True)"

definition url_escape :: "string \<Rightarrow> url_encoding \<Rightarrow> string" where
  "url_escape s mode =
     concat (map (\<lambda>c. if should_escape c mode
         then [CHR ''%'', upper_hex (byte_of c div 16), upper_hex (byte_of c mod 16)] else [c]) s)"

text \<open>Decoding, or the reason why the string is not a valid encoding.\<close>

fun url_unescape :: "string \<Rightarrow> url_encoding \<Rightarrow> string res" where
  "url_unescape [] mode = Inr []"
| "url_unescape (c # s) mode =
     (if c = CHR ''%'' then
        (case s of
           a # b # s' \<Rightarrow>
             (case (unhex a, unhex b) of
                (Some x, Some y) \<Rightarrow>
                  (if mode = EncodeHost \<and> x < 8 \<and> \<not> (a = CHR ''2'' \<and> b = CHR ''5'') then Inl (ErrExt ''invalid URL escape'')
                   else if mode = EncodeZone \<and> \<not> (a = CHR ''2'' \<and> b = CHR ''5'') \<and> 16 * x + y \<noteq> 32 \<and>
                       should_escape (char_of (16 * x + y)) EncodeHost
                   then Inl (ErrExt ''invalid URL escape'')
                   else (case url_unescape s' mode of Inl e \<Rightarrow> Inl e | Inr t \<Rightarrow> Inr (char_of (16 * x + y) # t)))
              | _ \<Rightarrow> Inl (ErrExt ''invalid URL escape''))
         | _ \<Rightarrow> Inl (ErrExt ''invalid URL escape''))
      else if (mode = EncodeHost \<or> mode = EncodeZone) \<and> byte_of c < 128 \<and> should_escape c mode
      then Inl (ErrExt ''invalid character in host name'')
      else (case url_unescape s mode of Inl e \<Rightarrow> Inl e | Inr t \<Rightarrow> Inr (c # t)))"

definition valid_encoded :: "string \<Rightarrow> url_encoding \<Rightarrow> bool" where
  "valid_encoded s mode =
     list_all (\<lambda>c. in_chars c (''!$&'' @ [CHR 0x27] @ ''()*+,;=:@[]%'') \<or> \<not> should_escape c mode) s"

section \<open>URLs\<close>

record url =
  Scheme :: string
  Opaque :: string
  User :: "(string \<times> string option) option"
  Host :: string
  Path :: string
  RawPath :: string
  OmitHost :: bool
  ForceQuery :: bool
  RawQuery :: string
  Fragment :: string
  RawFragment :: string

definition empty_url :: url where
  "empty_url = \<lparr>Scheme = '''', Opaque = '''', User = None, Host = '''', Path = '''', RawPath = '''',
     OmitHost = False, ForceQuery = False, RawQuery = '''', Fragment = '''', RawFragment = ''''\<rparr>"

text \<open>\<^verbatim>\<open>strings.Cut\<close> at a character; the second part is empty where it does not occur.\<close>

definition cut :: "string \<Rightarrow> char \<Rightarrow> string \<times> string" where
  "cut s c = (takeWhile (\<lambda>d. d \<noteq> c) s, tl (dropWhile (\<lambda>d. d \<noteq> c) s))"

text \<open>The parts of a string around the last occurrence of a character.\<close>

definition cut_last :: "string \<Rightarrow> char \<Rightarrow> (string \<times> string) option" where
  "cut_last s c =
     (if in_chars c s then Some (rev (tl (dropWhile (\<lambda>d. d \<noteq> c) (rev s))), rev (takeWhile (\<lambda>d. d \<noteq> c) (rev s)))
      else None)"

definition to_lower :: "string \<Rightarrow> string" where
  "to_lower = map (\<lambda>c. if 65 \<le> byte_of c \<and> byte_of c \<le> 90 then char_of (byte_of c + 32) else c)"

fun get_scheme_from :: "string \<Rightarrow> string \<Rightarrow> string \<Rightarrow> (string \<times> string) res" where
  "get_scheme_from raw seen [] = Inr ('''', raw)"
| "get_scheme_from raw seen (c # s) =
     (if is_letter c then get_scheme_from raw (seen @ [c]) s
      else if is_digit c \<or> in_chars c ''+-.'' then
        (if seen = [] then Inr ('''', raw) else get_scheme_from raw (seen @ [c]) s)
      else if c = CHR '':'' then
        (if seen = [] then Inl (ErrExt ''missing protocol scheme'') else Inr (seen, s))
      else Inr ('''', raw))"

definition get_scheme :: "string \<Rightarrow> (string \<times> string) res" where
  "get_scheme raw = get_scheme_from raw [] raw"

definition valid_optional_port :: "string \<Rightarrow> bool" where
  "valid_optional_port p = (case p of [] \<Rightarrow> True | c # s \<Rightarrow> c = CHR '':'' \<and> list_all is_digit s)"

fun before_zone :: "string \<Rightarrow> (string \<times> string) option" where
  "before_zone [] = None"
| "before_zone (c # s) =
     (if has_prefix (c # s) ''%25'' then Some ([], c # s)
      else (case before_zone s of None \<Rightarrow> None | Some (p, q) \<Rightarrow> Some (c # p, q)))"

definition parse_host :: "string \<Rightarrow> string res" where
  "parse_host host =
     (if has_prefix host ''['' then
        (case cut_last host (CHR '']'') of
           None \<Rightarrow> Inl (ErrExt ''missing ']' in host'')
         | Some (lit, colonPort) \<Rightarrow>
             if \<not> valid_optional_port colonPort then Inl (ErrExt ''invalid port after host'')
             else
               (case before_zone lit of
                  None \<Rightarrow> url_unescape host EncodeHost
                | Some (h1, zone) \<Rightarrow>
                    (case (url_unescape h1 EncodeHost, url_unescape zone EncodeZone,
                           url_unescape ('']'' @ colonPort) EncodeHost) of
                       (Inl e, _, _) \<Rightarrow> Inl e
                     | (_, Inl e, _) \<Rightarrow> Inl e
                     | (_, _, Inl e) \<Rightarrow> Inl e
                     | (Inr a, Inr b, Inr c) \<Rightarrow> Inr (a @ b @ c))))
      else
        (case cut_last host (CHR '':'') of
           Some (_, p) \<Rightarrow>
             if valid_optional_port (CHR '':'' # p) then url_unescape host EncodeHost
             else Inl (ErrExt ''invalid port after host'')
         | None \<Rightarrow> url_unescape host EncodeHost))"

definition valid_userinfo :: "string \<Rightarrow> bool" where
  "valid_userinfo s =
     list_all (\<lambda>c. is_letter c \<or> is_digit c \<or> in_chars c (''-._:~!$&'' @ [CHR 0x27] @ ''()*+,;=%@'')) s"

definition parse_userinfo :: "string \<Rightarrow> (string \<times> string option) res" where
  "parse_userinfo userinfo =
     (if \<not> valid_userinfo userinfo then Inl (ErrExt ''net/url: invalid userinfo'')
      else if in_chars (CHR '':'') userinfo then
        (case cut userinfo (CHR '':'') of
           (name, pw) \<Rightarrow>
             (case (url_unescape name EncodeUserPassword, url_unescape pw EncodeUserPassword) of
                (Inl e, _) \<Rightarrow> Inl e
              | (_, Inl e) \<Rightarrow> Inl e
              | (Inr n, Inr p) \<Rightarrow> Inr (n, Some p)))
      else
        (case url_unescape userinfo EncodeUserPassword of Inl e \<Rightarrow> Inl e | Inr n \<Rightarrow> Inr (n, None)))"

definition parse_authority :: "string \<Rightarrow> ((string \<times> string option) option \<times> string) res" where
  "parse_authority authority =
     (case cut_last authority (CHR ''@'') of
        None \<Rightarrow> (case parse_host authority of Inl e \<Rightarrow> Inl e | Inr h \<Rightarrow> Inr (None, h))
      | Some (userinfo, rest) \<Rightarrow>
          (case parse_host rest of
             Inl e \<Rightarrow> Inl e
           | Inr h \<Rightarrow>
               (case parse_userinfo userinfo of Inl e \<Rightarrow> Inl e | Inr u \<Rightarrow> Inr (Some u, h))))"

definition set_path :: "string \<Rightarrow> url \<Rightarrow> url res" where
  "set_path p u =
     (case url_unescape p EncodePath of
        Inl e \<Rightarrow> Inl e
      | Inr path \<Rightarrow> Inr (u\<lparr>Path := path, RawPath := (if p = url_escape path EncodePath then '''' else p)\<rparr>))"

definition set_fragment :: "string \<Rightarrow> url \<Rightarrow> url res" where
  "set_fragment f u =
     (case url_unescape f EncodeFragment of
        Inl e \<Rightarrow> Inl e
      | Inr frag \<Rightarrow> Inr (u\<lparr>Fragment := frag, RawFragment := (if f = url_escape frag EncodeFragment then '''' else f)\<rparr>))"

text \<open>The query, which is cut off the part after the scheme.\<close>

definition cut_query :: "string \<Rightarrow> url \<Rightarrow> string \<times> url" where
  "cut_query rest u =
     (if rest \<noteq> [] \<and> last rest = CHR ''?'' \<and> \<not> in_chars (CHR ''?'') (butlast rest)
      then (butlast rest, u\<lparr>ForceQuery := True\<rparr>)
      else (case cut rest (CHR ''?'') of (r, q) \<Rightarrow> (r, u\<lparr>RawQuery := q\<rparr>)))"

text \<open>Authority and path.\<close>

definition parse_hier :: "string \<Rightarrow> url \<Rightarrow> url res" where
  "parse_hier rest u =
     (if (Scheme u \<noteq> '''' \<or> \<not> has_prefix rest ''///'') \<and> has_prefix rest ''//'' then
        (case parse_authority (takeWhile (\<lambda>c. c \<noteq> CHR ''/'') (drop 2 rest)) of
           Inl e \<Rightarrow> Inl e
         | Inr (user, host) \<Rightarrow>
             set_path (dropWhile (\<lambda>c. c \<noteq> CHR ''/'') (drop 2 rest)) (u\<lparr>User := user, Host := host\<rparr>))
      else set_path rest (u\<lparr>OmitHost := (Scheme u \<noteq> '''' \<and> has_prefix rest ''/'')\<rparr>))"

definition parse_no_fragment :: "string \<Rightarrow> url res" where
  "parse_no_fragment raw =
     (if list_ex (\<lambda>c. byte_of c < 32 \<or> byte_of c = 127) raw
      then Inl (ErrExt ''net/url: invalid control character in URL'')
      else if raw = ''*'' then Inr (empty_url\<lparr>Path := ''*''\<rparr>)
      else
        (case get_scheme raw of
           Inl e \<Rightarrow> Inl e
         | Inr (scheme, rest0) \<Rightarrow>
             (case cut_query rest0 (empty_url\<lparr>Scheme := to_lower scheme\<rparr>) of
                (rest, u) \<Rightarrow>
                  if \<not> has_prefix rest ''/'' \<and> Scheme u \<noteq> '''' then Inr (u\<lparr>Opaque := rest\<rparr>)
                  else if \<not> has_prefix rest ''/'' \<and> in_chars (CHR '':'') (takeWhile (\<lambda>c. c \<noteq> CHR ''/'') rest)
                  then Inl (ErrExt ''first path segment in URL cannot contain colon'')
                  else parse_hier rest u)))"

definition url_parse :: "string \<Rightarrow> url res" where
  "url_parse raw =
     (case cut raw (CHR ''#'') of
        (r, frag) \<Rightarrow>
          (case parse_no_fragment r of
             Inl e \<Rightarrow> Inl (ErrWrap ''parse'' e)
           | Inr u \<Rightarrow>
               if frag = [] then Inr u
               else (case set_fragment frag u of Inl e \<Rightarrow> Inl (ErrWrap ''parse'' e) | Inr u \<Rightarrow> Inr u)))"

section \<open>Printing\<close>

definition escaped_path :: "url \<Rightarrow> string" where
  "escaped_path u =
     (if RawPath u \<noteq> '''' \<and> valid_encoded (RawPath u) EncodePath \<and> url_unescape (RawPath u) EncodePath = Inr (Path u)
      then RawPath u
      else if Path u = ''*'' then ''*''
      else url_escape (Path u) EncodePath)"

definition escaped_fragment :: "url \<Rightarrow> string" where
  "escaped_fragment u =
     (if RawFragment u \<noteq> '''' \<and> valid_encoded (RawFragment u) EncodeFragment \<and>
         url_unescape (RawFragment u) EncodeFragment = Inr (Fragment u)
      then RawFragment u
      else url_escape (Fragment u) EncodeFragment)"

definition userinfo_string :: "string \<times> string option \<Rightarrow> string" where
  "userinfo_string ui =
     url_escape (fst ui) EncodeUserPassword @
     (case snd ui of None \<Rightarrow> '''' | Some p \<Rightarrow> '':'' @ url_escape p EncodeUserPassword)"

definition authority_string :: "url \<Rightarrow> string" where
  "authority_string u =
     (if (Scheme u \<noteq> '''' \<or> Host u \<noteq> '''' \<or> User u \<noteq> None) \<and> \<not> (OmitHost u \<and> Host u = '''' \<and> User u = None)
      then (if Host u \<noteq> '''' \<or> Path u \<noteq> '''' \<or> User u \<noteq> None then ''//'' else '''') @
           (case User u of None \<Rightarrow> '''' | Some ui \<Rightarrow> userinfo_string ui @ ''@'') @ url_escape (Host u) EncodeHost
      else '''')"

definition hier_string :: "string \<Rightarrow> url \<Rightarrow> string" where
  "hier_string pre u =
     (let path = escaped_path u;
          buf = pre @ authority_string u @
            (if path \<noteq> '''' \<and> \<not> has_prefix path ''/'' \<and> Host u \<noteq> '''' then ''/'' else '''')
      in buf @ (if buf = '''' \<and> in_chars (CHR '':'') (takeWhile (\<lambda>c. c \<noteq> CHR ''/'') path) then ''./'' else '''') @ path)"

definition url_string :: "url \<Rightarrow> string" where
  "url_string u =
     (let sch = (if Scheme u \<noteq> '''' then Scheme u @ '':'' else '''')
      in (if Opaque u \<noteq> '''' then sch @ Opaque u else hier_string sch u) @
         (if ForceQuery u \<or> RawQuery u \<noteq> '''' then ''?'' @ RawQuery u else '''') @
         (if Fragment u \<noteq> '''' then ''#'' @ escaped_fragment u else ''''))"

section \<open>Paths of local files\<close>

text \<open>The characters that are left alone in a path.\<close>

definition plain_path_char :: "char \<Rightarrow> bool" where
  "plain_path_char c \<longleftrightarrow> is_letter c \<or> is_digit c \<or> in_chars c ''-_.~$&+,/:;=@''"

definition plain_path :: "string \<Rightarrow> bool" where
  "plain_path p \<longleftrightarrow> has_prefix p ''/'' \<and> \<not> has_prefix p ''//'' \<and> list_all plain_path_char p"

lemma url_unescape_no_percent:
  "list_all (\<lambda>c. c \<noteq> CHR ''%'') s \<Longrightarrow> mode \<noteq> EncodeHost \<Longrightarrow> mode \<noteq> EncodeZone \<Longrightarrow> url_unescape s mode = Inr s"
  by (induction s) auto

lemma url_escape_id: "list_all (\<lambda>c. \<not> should_escape c mode) s \<Longrightarrow> url_escape s mode = s"
  by (induction s) (auto simp: url_escape_def)

lemma cut_none: "list_all (\<lambda>d. d \<noteq> c) s \<Longrightarrow> cut s c = (s, [])"
  by (induction s) (auto simp: cut_def)

lemma plain_path_char_facts:
  assumes "plain_path_char c"
  shows "\<not> should_escape c EncodePath" "c \<noteq> CHR ''%''" "c \<noteq> CHR ''#''" "c \<noteq> CHR ''?''"
    "\<not> (byte_of c < 32 \<or> byte_of c = 127)"
  using assms
  by (auto simp: plain_path_char_def should_escape_def is_letter_def is_digit_def in_chars_def byte_of_def)

text \<open>Strings of plain characters have no query, no fragment and no control characters.\<close>

lemma plain_chars_uncut:
  assumes "list_all plain_path_char s"
  shows "cut s (CHR ''#'') = (s, [])" "cut_query s u = (s, u\<lparr>RawQuery := []\<rparr>)"
    "\<not> list_ex (\<lambda>c. byte_of c < 32 \<or> byte_of c = 127) s" "url_unescape s EncodePath = Inr s" "url_escape s EncodePath = s"
proof -
  have no: "list_all (\<lambda>c. c \<noteq> d) s" if "d \<in> {CHR ''%'', CHR ''#'', CHR ''?''}" for d
    using assms that by (auto simp: list_all_iff dest: plain_path_char_facts)
  from no show "cut s (CHR ''#'') = (s, [])" "url_unescape s EncodePath = Inr s"
    by (simp_all add: cut_none url_unescape_no_percent)
  have "s \<noteq> [] \<longrightarrow> last s \<noteq> CHR ''?''" using no [of "CHR ''?''"] by (auto simp: list_all_iff)
  with no [of "CHR ''?''"] show "cut_query s u = (s, u\<lparr>RawQuery := []\<rparr>)" by (cases s) (simp_all add: cut_query_def cut_none)
  show "\<not> list_ex (\<lambda>c. byte_of c < 32 \<or> byte_of c = 127) s"
    using assms by (auto simp: list_all_iff list_ex_iff dest: plain_path_char_facts)
  show "url_escape s EncodePath = s"
    using assms by (intro url_escape_id) (auto simp: list_all_iff plain_path_char_facts)
qed

text \<open>An absolute path of such characters is parsed as a path, and printed as it was.\<close>

lemma url_parse_plain:
  assumes "plain_path p"
  shows "url_parse p = Inr (empty_url\<lparr>Path := p\<rparr>)"
proof -
  have "list_all plain_path_char p" using assms by (simp add: plain_path_def)
  note plain = plain_chars_uncut [OF this]
  obtain r where p: "p = CHR ''/'' # r"
    using assms by (cases p) (auto simp: plain_path_def has_prefix_def)
  have scheme: "get_scheme p = Inr ('''', p)"
    by (simp add: p get_scheme_def is_letter_def is_digit_def in_chars_def byte_of_def)
  have pre: "has_prefix p ''/''" "\<not> has_prefix p ''//''" "p \<noteq> ''*''"
    using assms p by (auto simp: plain_path_def)
  have path: "set_path p u = Inr (u\<lparr>Path := p, RawPath := ''''\<rparr>)" for u
    using plain(4,5) by (simp add: set_path_def)
  have "parse_no_fragment p = Inr (empty_url\<lparr>Path := p\<rparr>)"
    using plain(2,3) pre scheme
    by (simp add: parse_no_fragment_def path to_lower_def parse_hier_def empty_url_def)
  with plain(1) show ?thesis by (simp add: url_parse_def)
qed

lemma url_string_plain:
  assumes "plain_path p"
  shows "url_string (empty_url\<lparr>Path := p\<rparr>) = p"
proof -
  have "url_escape p EncodePath = p"
    using assms by (intro url_escape_id) (auto simp: plain_path_def list_all_iff plain_path_char_facts)
  moreover have "takeWhile (\<lambda>c. c \<noteq> CHR ''/'') p = []" "p \<noteq> ''*''"
    using assms by (cases p; auto simp: plain_path_def has_prefix_def)+
  ultimately show ?thesis
    by (simp add: url_string_def hier_string_def authority_string_def escaped_path_def empty_url_def
        in_chars_def Let_def)
qed

section \<open>URLs of Docker images\<close>

text \<open>Host names with an optional port, and paths that are empty or absolute.\<close>

definition host_char :: "char \<Rightarrow> bool" where
  "host_char c \<longleftrightarrow> is_letter c \<or> is_digit c \<or> in_chars c ''-.''"

definition plain_host :: "string \<Rightarrow> bool" where
  "plain_host host \<longleftrightarrow>
     (case cut_last host (CHR '':'') of
        None \<Rightarrow> list_all host_char host
      | Some (name, port) \<Rightarrow> list_all host_char name \<and> list_all is_digit port)"

definition plain_image_path :: "string \<Rightarrow> bool" where
  "plain_image_path p \<longleftrightarrow> (p = '''' \<or> has_prefix p ''/'') \<and> list_all plain_path_char p"

lemma in_chars_iff: "in_chars c s \<longleftrightarrow> c \<in> set s"
  by (auto simp: in_chars_def list_ex_iff)

lemma cut_last_Some: "cut_last s c = Some (a, b) \<Longrightarrow> s = a @ c # b \<and> c \<notin> set b"
proof -
  assume cut: "cut_last s c = Some (a, b)"
  then have "c \<in> set (rev s)" by (simp add: cut_last_def in_chars_iff split: if_splits)
  then obtain ys zs where ys: "rev s = ys @ c # zs" "c \<notin> set ys" by (meson split_list_first)
  then have "takeWhile (\<lambda>d. d \<noteq> c) (rev s) = ys" "dropWhile (\<lambda>d. d \<noteq> c) (rev s) = c # zs"
    by (auto simp: takeWhile_append dropWhile_append)
  with cut ys show ?thesis
    by (auto simp: cut_last_def split: if_splits) (metis append.assoc append_Cons append_Nil rev.simps(2) rev_append rev_rev_ident)
qed

lemma cut_last_None: "cut_last s c = None \<longleftrightarrow> c \<notin> set s"
  by (simp add: cut_last_def in_chars_iff)

lemma host_char_facts:
  assumes "host_char c \<or> c = CHR '':''"
  shows "\<not> should_escape c EncodeHost" "plain_path_char c" "c \<noteq> CHR ''%''" "c \<noteq> CHR ''/''" "c \<noteq> CHR ''@''" "c \<noteq> CHR ''[''"
  using assms
  by (auto simp: host_char_def plain_path_char_def should_escape_def is_letter_def is_digit_def in_chars_def
      byte_of_def host_chars_def)

lemma plain_host_chars: "plain_host host \<Longrightarrow> list_all (\<lambda>c. host_char c \<or> c = CHR '':'') host"
  by (cases "cut_last host (CHR '':'')")
    (auto simp: plain_host_def list_all_iff host_char_def dest!: cut_last_Some)

lemma url_unescape_host:
  "list_all (\<lambda>c. host_char c \<or> c = CHR '':'') s \<Longrightarrow> url_unescape s EncodeHost = Inr s"
  by (induction s) (auto simp: host_char_facts)

lemma parse_authority_plain:
  assumes "plain_host host"
  shows "parse_authority host = Inr (None, host)"
proof -
  note chars = plain_host_chars [OF assms]
  have "cut_last host (CHR ''@'') = None"
    using chars host_char_facts(5) by (fastforce simp: cut_last_None list_all_iff)
  moreover have "\<not> has_prefix host ''[''"
    using chars host_char_facts(6) by (cases host) (auto simp: has_prefix_def)
  moreover have "case cut_last host (CHR '':'') of None \<Rightarrow> True | Some (_, p) \<Rightarrow> valid_optional_port (CHR '':'' # p)"
    using assms by (auto simp: plain_host_def valid_optional_port_def split: option.splits)
  ultimately show ?thesis
    using url_unescape_host [OF chars]
    by (auto simp: parse_authority_def parse_host_def split: option.splits)
qed

lemma takeWhile_host:
  assumes "plain_host host" "path = '''' \<or> has_prefix path ''/''"
  shows "takeWhile (\<lambda>c. c \<noteq> CHR ''/'') (host @ path) = host" "dropWhile (\<lambda>c. c \<noteq> CHR ''/'') (host @ path) = path"
proof -
  have "list_all (\<lambda>c. c \<noteq> CHR ''/'') host"
    using plain_host_chars [OF assms(1)] host_char_facts(4) by (fastforce simp: list_all_iff)
  moreover have "path = [] \<or> hd path = CHR ''/''"
    using assms(2) by (cases path) (auto simp: has_prefix_def)
  ultimately show "takeWhile (\<lambda>c. c \<noteq> CHR ''/'') (host @ path) = host"
    "dropWhile (\<lambda>c. c \<noteq> CHR ''/'') (host @ path) = path"
    by (auto simp: list_all_iff takeWhile_append dropWhile_append takeWhile_eq_Nil_iff dropWhile_eq_self_iff)
qed

lemma url_parse_docker:
  assumes "plain_host host" "plain_image_path path"
  shows "url_parse (''docker://'' @ host @ path) = Inr (empty_url\<lparr>Scheme := ''docker'', Host := host, Path := path\<rparr>)"
proof -
  let ?rest = "''//'' @ host @ path"
  let ?raw = "''docker:'' @ ?rest"
  have path: "path = '''' \<or> has_prefix path ''/''" "list_all plain_path_char path"
    using assms(2) by (simp_all add: plain_image_path_def)
  have "list_all plain_path_char host"
    using plain_host_chars [OF assms(1)] host_char_facts(2) by (simp add: list_all_iff)
  moreover have "plain_path_char (CHR ''/'')" "list_all plain_path_char ''docker:''" by code_simp+
  ultimately have rest: "list_all plain_path_char ?rest" and raw: "list_all plain_path_char ?raw"
    using path(2) by simp_all
  have scheme: "get_scheme ?raw = Inr (''docker'', ?rest)"
    by (simp add: get_scheme_def is_letter_def is_digit_def in_chars_def byte_of_def)
  have lower: "to_lower ''docker'' = ''docker''" by code_simp
  have set_path: "set_path path u = Inr (u\<lparr>Path := path, RawPath := ''''\<rparr>)" for u
    using plain_chars_uncut(4,5) [OF path(2)] by (simp add: set_path_def)
  have "has_prefix ?rest ''/''" "has_prefix ?rest ''//''" by (simp_all add: has_prefix_def)
  then have "parse_hier ?rest (empty_url\<lparr>Scheme := ''docker''\<rparr>) =
      Inr (empty_url\<lparr>Scheme := ''docker'', Host := host, Path := path\<rparr>)"
    using takeWhile_host [OF assms(1) path(1)]
    by (simp add: parse_hier_def parse_authority_plain [OF assms(1)] set_path empty_url_def)
  then have "parse_no_fragment ?raw = Inr (empty_url\<lparr>Scheme := ''docker'', Host := host, Path := path\<rparr>)"
    using plain_chars_uncut(2) [OF rest] plain_chars_uncut(3) [OF raw] scheme \<open>has_prefix ?rest ''/''\<close> lower
    by (simp add: parse_no_fragment_def empty_url_def)
  with plain_chars_uncut(1) [OF raw] show ?thesis by (simp add: url_parse_def)
qed

end
