(* ===== verification/Layer_Source.thy ===== *)
theory Layer_Source
  imports Puller_Types Go_Digest Go_Url
begin

text \<open>
  \<^verbatim>\<open>fetcher/layerfetcher/source/layer_source.go\<close>: the source of an OCI or Docker image.  Its
  operations act on the pair of the source object and the world.  The image source, a
  singleton opened on demand, is known by its parsed reference.
\<close>

section \<open>State\<close>

record layer_source =
  skipOCILayerValidation :: bool
  systemContext :: system_context
  imageURL :: url
  imageSource :: "string option"
  remainingImageQuota :: int64
  skipImageQuotaValidation :: bool

type_synonym ls_world = "layer_source \<times> world"

definition new_layer_source :: "system_context \<Rightarrow> bool \<Rightarrow> bool \<Rightarrow> int64 \<Rightarrow> url \<Rightarrow> layer_source" where
  "new_layer_source ctx skipValidation skipQuota diskLimit u =
     \<lparr>skipOCILayerValidation = skipValidation, systemContext = ctx, imageURL = u,
      imageSource = None, remainingImageQuota = diskLimit, skipImageQuotaValidation = skipQuota\<rparr>"

definition MAX_DOCKER_RETRIES :: nat where
  "MAX_DOCKER_RETRIES = 3"

lemma MAX_DOCKER_RETRIES_Suc: "MAX_DOCKER_RETRIES = Suc (Suc (Suc 0))"
  by (simp add: MAX_DOCKER_RETRIES_def)

text \<open>The error variable before the first attempt of a retry loop; never returned.\<close>

definition no_error :: error where
  "no_error = ErrNew ''''"

text \<open>A call on the world alone, made by an operation on both.\<close>

definition on_world :: "('a outcome \<times> world) \<Rightarrow> layer_source \<Rightarrow> 'a outcome \<times> ls_world" where
  "on_world r s = obind r (\<lambda>x w. (Val x, (s, w))) (\<lambda>w. (s, w))"

section \<open>References and the image source\<close>

definition dest_to_windows_path :: "'z env \<Rightarrow> string \<Rightarrow> string" where
  "dest_to_windows_path E input0 =
     (let input = (if has_prefix input0 ''//'' then drop 2 input0 else input0);
          vol = fp_VolumeName E input
      in if vol = '''' then
           (let input = (if \<not> has_prefix input ''/'' then fp_Join E ''/'' input else input)
            in fp_Clean E (fp_Join E ''C:'' input))
         else fp_Clean E input)"

definition generate_ref_string :: "'z env \<Rightarrow> url \<Rightarrow> string" where
  "generate_ref_string E u =
     (let refString = ''/'' @ (if Host u \<noteq> '''' then ''/'' @ Host u else '''') @ Path u
      in if goos E = ''windows'' \<and> Scheme u = ''oci'' then dest_to_windows_path E refString
         else refString)"

text \<open>An unknown transport is a nil interface, whose method call panics.\<close>

definition reference :: "'z env \<Rightarrow> layer_source \<Rightarrow> string res outcome" where
  "reference E s =
     (case transport E (Scheme (imageURL s)) of
        None \<Rightarrow> Panic ''nil pointer dereference''
      | Some parse \<Rightarrow>
          (case parse (generate_ref_string E (imageURL s)) of
             Inl e \<Rightarrow> Val (Inl (ErrWrap ''parsing url failed'' e))
           | Inr ref \<Rightarrow> Val (Inr ref)))"

definition create_image_source :: "'z env \<Rightarrow> layer_source \<Rightarrow> world \<Rightarrow> string res outcome \<times> world" where
  "create_image_source E s w =
     attempt (reference E s, w) (\<lambda>e. e)
       (\<lambda>ref w. case new_image_source E (tick w) ref (systemContext s) of
            Some e \<Rightarrow> (Val (Inl (ErrWrap ''creating image source'' e)), advance w)
          | None \<Rightarrow> (Val (Inr ref), (advance w)\<lparr>open_sources := Suc (open_sources w)\<rparr>))"

definition get_image_source :: "'z env \<Rightarrow> ls_world \<Rightarrow> string res outcome \<times> ls_world" where
  "get_image_source E sw =
     (case sw of (s, w) \<Rightarrow>
        (case imageSource s of
           Some src \<Rightarrow> (Val (Inr src), (s, w))
         | None \<Rightarrow>
             attempt (on_world (create_image_source E s w) s) (\<lambda>e. e)
               (\<lambda>src (s, w). (Val (Inr src), (s\<lparr>imageSource := Some src\<rparr>, w)))))"

text \<open>\<^verbatim>\<open>(*LayerSource).Close\<close>.\<close>

definition close_source :: "'z env \<Rightarrow> ls_world \<Rightarrow> error option \<times> ls_world" where
  "close_source E sw =
     (case sw of (s, w) \<Rightarrow>
        (case imageSource s of
           Some _ \<Rightarrow> (source_close E (tick w), (s, (advance w)\<lparr>open_sources := open_sources w - 1\<rparr>))
         | None \<Rightarrow> (None, (s, w))))"

section \<open>Fetching with retries\<close>

definition get_image_attempt :: "'z env \<Rightarrow> ls_world \<Rightarrow> image res outcome \<times> ls_world" where
  "get_image_attempt E sw =
     attempt (get_image_source E sw) (\<lambda>e. e)
       (\<lambda>src (s, w). (Val (from_unparsed_image E (tick w) src (systemContext s)), (s, advance w)))"

definition get_image_with_retries :: "'z env \<Rightarrow> ls_world \<Rightarrow> image res outcome \<times> ls_world" where
  "get_image_with_retries E sw =
     attempt (retry MAX_DOCKER_RETRIES (get_image_attempt E) no_error sw) (ErrWrap ''creating image'')
       (\<lambda>img sw. (Val (Inr img), sw))"

definition get_blob_attempt :: "'z env \<Rightarrow> string \<Rightarrow> blob_info \<Rightarrow> world \<Rightarrow> (blob_stream \<times> int64) res outcome \<times> world" where
  "get_blob_attempt E src info w =
     (case get_blob E (tick w) src info of
        Inl e \<Rightarrow> (Val (Inl e), advance w)
      | Inr b \<Rightarrow> (Val (Inr b), (advance w)\<lparr>open_blobs := Suc (open_blobs w)\<rparr>))"

definition get_blob_with_retries :: "'z env \<Rightarrow> string \<Rightarrow> blob_info \<Rightarrow> world \<Rightarrow> (blob_stream \<times> int64) res outcome \<times> world" where
  "get_blob_with_retries E src info w = retry MAX_DOCKER_RETRIES (get_blob_attempt E src info) no_error w"

text \<open>Closing the body of a response; its error is never looked at.\<close>

definition close_blob :: "world \<Rightarrow> world" where
  "close_blob w = w\<lparr>open_blobs := open_blobs w - 1\<rparr>"

section \<open>Schema 1 manifests\<close>

definition DockerV2Schema1MediaType :: string where
  "DockerV2Schema1MediaType = ''application/vnd.docker.distribution.manifest.v1+json''"

definition DockerV2Schema1SignedMediaType :: string where
  "DockerV2Schema1SignedMediaType = ''application/vnd.docker.distribution.manifest.v1+prettyjws''"

definition DockerV2Schema2MediaType :: string where
  "DockerV2Schema2MediaType = ''application/vnd.docker.distribution.manifest.v2+json''"

text \<open>The part of \<^verbatim>\<open>v1DiffID\<close> between opening the blob and closing it.\<close>

definition v1_diff_id_of_blob :: "'z env \<Rightarrow> blob_stream \<Rightarrow> string res outcome" where
  "v1_diff_id_of_blob E blob =
     (case gzip_new_reader E stream_read blob of
        (Val (Inl e), _) \<Rightarrow> Val (Inl (ErrWrap ''creating reader for V1 layer blob'' e))
      | (Val (Inr z), blob') \<Rightarrow>
          (case io_read_all (read_all_grow E) (gzip_read E stream_read) (blob', z) of
             (Val (data, None), _) \<Rightarrow>
               Val (Inr (new_digest_from_hex ''sha256'' (hex_encode (sha256 data))))
           | (Val (_, Some e), _) \<Rightarrow> Val (Inl (ErrWrap ''reading V1 layer blob'' e))
           | (Panic m, _) \<Rightarrow> Panic m
           | (Diverges, _) \<Rightarrow> Diverges)
      | (Panic m, _) \<Rightarrow> Panic m
      | (Diverges, _) \<Rightarrow> Diverges)"

definition v1_diff_id :: "'z env \<Rightarrow> blob_info \<Rightarrow> string \<Rightarrow> world \<Rightarrow> string res outcome \<times> world" where
  "v1_diff_id E layer src w =
     attempt (get_blob_with_retries E src layer w) (ErrWrap ''fetching V1 layer blob'')
       (\<lambda>(blob, _) w. (v1_diff_id_of_blob E blob, close_blob w))"

text \<open>The loop of \<^verbatim>\<open>convertImage\<close> over the layers.\<close>

primrec v1_diff_ids :: "'z env \<Rightarrow> string \<Rightarrow> blob_info list \<Rightarrow> string list \<Rightarrow> world \<Rightarrow> string list res outcome \<times> world" where
  "v1_diff_ids E src [] diffIDs w = (Val (Inr diffIDs), w)"
| "v1_diff_ids E src (layer # layers) diffIDs w =
     attempt (v1_diff_id E layer src w) (ErrWrap ''converting V1 schema failed'')
       (\<lambda>diffID w. v1_diff_ids E src layers (diffIDs @ [diffID]) w)"

definition convert_image :: "'z env \<Rightarrow> image \<Rightarrow> ls_world \<Rightarrow> image res outcome \<times> ls_world" where
  "convert_image E img sw =
     (case sw of (s, w) \<Rightarrow>
        attempt (Val (image_manifest_type E (tick w) img), (s, advance w)) (\<lambda>e. e)
          (\<lambda>mimetype sw.
             if mimetype \<noteq> DockerV2Schema1MediaType \<and> mimetype \<noteq> DockerV2Schema1SignedMediaType
             then (Val (Inr img), sw)
             else
               attempt (get_image_source E sw) (\<lambda>e. e) (\<lambda>src (s, w).
               attempt (on_world (v1_diff_ids E src (im_LayerInfos img) [] w) s) (\<lambda>e. e) (\<lambda>diffIDs (s, w).
                 (Val (image_updated E (tick w) img
                    \<lparr>mu_MIMEType = DockerV2Schema2MediaType, mu_DiffIDs = diffIDs,
                     mu_LayerInfos = im_LayerInfos img\<rparr>), (s, advance w))))))"

section \<open>Manifest\<close>

definition config_blob_attempt :: "'z env \<Rightarrow> image \<Rightarrow> ls_world \<Rightarrow> image res outcome \<times> ls_world" where
  "config_blob_attempt E img sw =
     (case sw of (s, w) \<Rightarrow>
        (case image_config_blob E (tick w) img of
           None \<Rightarrow> (Val (Inr img), (s, advance w))
         | Some e \<Rightarrow> (Val (Inl e), (s, advance w))))"

definition Manifest :: "'z env \<Rightarrow> ls_world \<Rightarrow> image res outcome \<times> ls_world" where
  "Manifest E sw =
     attempt (get_image_with_retries E sw) (ErrWrap ''fetching image reference'') (\<lambda>img sw.
     attempt (convert_image E img sw) (\<lambda>e. e) (\<lambda>img sw.
     attempt (retry MAX_DOCKER_RETRIES (config_blob_attempt E img) no_error sw)
       (ErrWrap ''fetching image configuration'') (\<lambda>img sw. (Val (Inr img), sw))))"

section \<open>Blob\<close>

definition should_enforce_image_quota_validation :: "layer_source \<Rightarrow> bool" where
  "should_enforce_image_quota_validation s \<longleftrightarrow> \<not> skipImageQuotaValidation s"

definition is_v1_image :: "layer_info \<Rightarrow> bool" where
  "is_v1_image li \<longleftrightarrow> Size li = - 1"

definition validate_layer_size :: "layer_source \<Rightarrow> layer_info \<Rightarrow> int64 \<Rightarrow> error option" where
  "validate_layer_size s li sz =
     (if skipOCILayerValidation s \<or> is_v1_image li \<or> Size li = sz then None
      else Some (ErrNew ''layer size is different from the value in the manifest''))"

definition check_check_sum :: "layer_source \<Rightarrow> bytes \<Rightarrow> string \<Rightarrow> string \<Rightarrow> error option" where
  "check_check_sum s hashed digest scheme =
     (if skipOCILayerValidation s \<and> scheme = ''oci'' then None
      else
        (let checksum = hex_encode (sha256 hashed)
         in if digest \<noteq> checksum then Some (ErrNew (''expected: '' @ digest @ '', actual: '' @ checksum)) else None))"

text \<open>
  Reading the layer through the quota (when it is enforced) and through the hash of the diff
  ID into the temporary file.  The result carries the bytes that went into that hash.
\<close>

definition copy_layer :: "'z env \<Rightarrow> layer_source \<Rightarrow> nat \<Rightarrow> 's reader \<Rightarrow> 's \<Rightarrow> world \<Rightarrow>
    (int64 \<times> error option) outcome \<times> ('s \<times> bytes) \<times> world" where
  "copy_layer E s fd rd src w =
     (if should_enforce_image_quota_validation s then
        (case io_copy (tee_read (quotaed_read rd)) (os_write E fd)
                (new_quotaed_reader src (remainingImageQuota s) ''uncompressed layer size exceeds quota'', []) w of
           (r, (q, diffIDHash), w) \<Rightarrow> (r, (DelegateReader q, diffIDHash), w))
      else io_copy (tee_read rd) (os_write E fd) (src, []) w)"

text \<open>The checks after the copy; the result is the uncompressed size.\<close>

definition check_layer :: "layer_source \<Rightarrow> layer_info \<Rightarrow> int64 \<times> error option \<Rightarrow> bytes \<Rightarrow> bytes \<Rightarrow> int64 res outcome" where
  "check_layer s li copied blobIDHash diffIDHash =
     (case copied of
        (_, Some e) \<Rightarrow> Val (Inl (ErrWrap ''writing blob to tempfile'' e))
      | (uncompressedSize, None) \<Rightarrow>
          (case index_at (split_on (CHR '':'') (BlobID li)) 1 of
             Panic m \<Rightarrow> Panic m
           | Diverges \<Rightarrow> Diverges
           | Val blobIDHex \<Rightarrow>
               (case check_check_sum s blobIDHash blobIDHex (Scheme (imageURL s)) of
                  Some e \<Rightarrow> Val (Inl (ErrWrap ''layerID digest mismatch'' e))
                | None \<Rightarrow>
                    (case check_check_sum s diffIDHash (DiffID li) (Scheme (imageURL s)) of
                       Some e \<Rightarrow> Val (Inl (ErrWrap ''diffID digest mismatch'' e))
                     | None \<Rightarrow> Val (Inr uncompressedSize)))))"

definition is_gzip_layer :: "layer_info \<Rightarrow> bool" where
  "is_gzip_layer li \<longleftrightarrow> MediaType li = '''' \<or> str_contains (MediaType li) ''gzip''"

text \<open>
  From the choice of the decompressing reader to the checks: the blob is hashed as it is read,
  decompressed if its media type says so, and copied.
\<close>

definition write_layer :: "'z env \<Rightarrow> layer_source \<Rightarrow> layer_info \<Rightarrow> nat \<Rightarrow> blob_stream \<Rightarrow> world \<Rightarrow> int64 res outcome \<times> world" where
  "write_layer E s li fd blob w =
     (if is_gzip_layer li then
        (case gzip_new_reader E (tee_read stream_read) (blob, []) of
           (Val (Inl e), _) \<Rightarrow> (Val (Inl (ErrWrap (''expected blob to be of type '' @ MediaType li) e)), w)
         | (Val (Inr z), src) \<Rightarrow>
             (case copy_layer E s fd (gzip_read E (tee_read stream_read)) (src, z) w of
                (r, (((_, blobIDHash), _), diffIDHash), w) \<Rightarrow>
                  seq (r, w) (\<lambda>copied w. (check_layer s li copied blobIDHash diffIDHash, w)))
         | (Panic m, _) \<Rightarrow> (Panic m, w)
         | (Diverges, _) \<Rightarrow> (Diverges, w))
      else
        (case copy_layer E s fd (tee_read stream_read) (blob, []) w of
           (r, ((_, blobIDHash), diffIDHash), w) \<Rightarrow>
             seq (r, w) (\<lambda>copied w. (check_layer s li copied blobIDHash diffIDHash, w))))"

text \<open>
  The deferred function of the temporary file: it is closed, and removed when the function
  ends with an error.  A panic runs it with the error variable still nil.
\<close>

definition finish_temp_file :: "'z env \<Rightarrow> nat \<Rightarrow> string \<Rightarrow> 'a res outcome \<Rightarrow> world \<Rightarrow> world" where
  "finish_temp_file E fd name r w =
     (case r of
        Diverges \<Rightarrow> w
      | Val (Inl _) \<Rightarrow> snd (os_remove E name (snd (os_close E fd w)))
      | _ \<Rightarrow> snd (os_close E fd w))"

definition blob_pattern :: "layer_info \<Rightarrow> string" where
  "blob_pattern li = ''blob-'' @ str_replace (BlobID li) (CHR '':'') (CHR ''-'')"

text \<open>What \<^verbatim>\<open>Blob\<close> does once the stream is there; the deferred close of the stream comes last.\<close>

definition blob_of_stream :: "'z env \<Rightarrow> layer_info \<Rightarrow> blob_stream \<Rightarrow> int64 \<Rightarrow> ls_world \<Rightarrow> (string \<times> int64) res outcome \<times> ls_world" where
  "blob_of_stream E li blob sz sw =
     (case sw of (s, w) \<Rightarrow>
        (case validate_layer_size s li sz of
           Some e \<Rightarrow> (Val (Inl e), (s, w))
         | None \<Rightarrow>
             (case os_create_temp E (blob_pattern li) w of
                (Inl e, w) \<Rightarrow> (Val (Inl e), (s, w))
              | (Inr (fd, name), w) \<Rightarrow>
                  (case write_layer E s li fd blob w of
                     (r, w) \<Rightarrow>
                       attempt (r, (s, finish_temp_file E fd name r w)) (\<lambda>e. e)
                         (\<lambda>uncompressedSize (s, w).
                            (Val (Inr (name, sz)),
                             (s\<lparr>remainingImageQuota := remainingImageQuota s - uncompressedSize\<rparr>, w)))))))"

definition Blob :: "'z env \<Rightarrow> layer_info \<Rightarrow> ls_world \<Rightarrow> (string \<times> int64) res outcome \<times> ls_world" where
  "Blob E li sw =
     attempt (get_image_source E sw) (\<lambda>e. e) (\<lambda>src (s, w).
     attempt (on_world (get_blob_with_retries E src
         \<lparr>bi_Digest = BlobID li, bi_Size = 0, bi_URLs = URLs li, bi_MediaType = ''''\<rparr> w) s) (\<lambda>e. e)
       (\<lambda>(blob, sz) sw.
          (case blob_of_stream E li blob sz sw of
             (Diverges, sw) \<Rightarrow> (Diverges, sw)
           | (r, (s, w)) \<Rightarrow> (r, (s, close_blob w)))))"

section \<open>Lemmas on copying a layer\<close>

text \<open>However it ends, only the temporary file has been touched.\<close>

lemma copy_layer_frame:
  assumes copy: "copy_layer E s fd rd src w = (r, t, w')" and fd: "fds w fd = Some f"
  shows "only_file (of_name f) w w'"
proof -
  let ?P = "\<lambda>_ w1. only_file (of_name f) w w1"
  have wkeep: "?P x w2" if "?P x w1" "os_write E fd bs w1 = (y, w2)" for x w1 bs y w2
  proof -
    from that(1) fd have "fds w1 fd = Some f" by (simp add: only_file_def)
    with that show ?thesis by (blast intro: only_file_trans os_write_only_file)
  qed
  have "?P t w'" if "io_copy rd' (os_write E fd) s0 w = (r, t, w')" for rd' :: "'x reader" and s0 r t
    by (rule io_copy_invariant [where P = ?P, OF that]) (auto intro: wkeep)
  note this [of "tee_read (quotaed_read rd)"] this [of "tee_read rd"]
  then show ?thesis
    using copy by (auto simp: copy_layer_def split: if_splits prod.splits)
qed

text \<open>The file \<open>name\<close>, which held \<open>g\<close>, has been appended the \<open>n\<close> bytes \<open>h\<close>.\<close>

definition layer_stored :: "world \<Rightarrow> string \<Rightarrow> os_file \<Rightarrow> int64 \<Rightarrow> bytes \<Rightarrow> world \<Rightarrow> bool" where
  "layer_stored w name g n h w' \<longleftrightarrow>
     fs w' = (fs w)(name \<mapsto> g\<lparr>f_content := f_content g @ h\<rparr>) \<and> fds w' = fds w \<and> n = of_nat (length h)"

lemma layer_stored_start: "fs w name = Some g \<Longrightarrow> layer_stored w name g 0 [] w"
  by (auto simp: layer_stored_def map_upd_triv)

lemma layer_stored_step:
  assumes "layer_stored w (of_name f) g n h w1" "copy_write (os_write E fd) bs w1 w2" "fds w fd = Some f"
  shows "layer_stored w (of_name f) g (n + of_nat (length bs)) (h @ bs) w2"
  using assms copy_write_os_write [OF assms(2), of f "g\<lparr>f_content := f_content g @ h\<rparr>"]
  by (simp add: layer_stored_def)

text \<open>
  A copy that succeeds: the file holds what went into the hash, the count is its length, and
  an enforced quota covers it.  \<open>P\<close> is an assertion on the reader and what was hashed so far,
  \<open>at_end\<close> what holds of the reader once it has reported EOF.
\<close>

lemma copy_plain_ok:
  assumes copy: "io_copy (tee_read rd) (os_write E fd) (src, []) w = (Val (n, None), (src', h), w')"
    and fd: "fds w fd = Some f" "fs w (of_name f) = Some g" and init: "P src []"
    and keep: "\<And>n src h bs e t. P src h \<Longrightarrow> rd n src = (Val (bs, e), t) \<Longrightarrow>
        P t (h @ bs) \<and> (e = Some ErrEOF \<longrightarrow> at_end t)"
  shows "layer_stored w (of_name f) g n h w' \<and> P src' h \<and> at_end src'"
proof -
  let ?J = "\<lambda>n (sr, h) w'. layer_stored w (of_name f) g n h w' \<and> P sr h"
  have "?J n (src', h) w' \<and> at_end (fst (src', h))"
  proof (rule io_copy_rule [where J = ?J and at_end = "\<lambda>sh. at_end (fst sh)", OF copy])
    show "?J 0 (src, []) w" using layer_stored_start fd init by simp
  next
    fix m sh w1 bs er t1 w2
    assume "?J m sh w1" "tee_read rd copy_buffer_size sh = (Val (bs, er), t1)"
      "copy_write (os_write E fd) bs w1 w2"
    then show "?J (m + of_nat (length bs)) t1 w2 \<and> (er = Some ErrEOF \<longrightarrow> at_end (fst t1))"
      using fd(1) by (cases sh) (auto simp: tee_read_Val dest: keep intro: layer_stored_step)
  qed
  then show ?thesis by simp
qed

lemma copy_quota_ok:
  assumes copy: "io_copy (tee_read (quotaed_read rd)) (os_write E fd) (new_quotaed_reader src quota msg, []) w
      = (Val (n, None), (q, h), w')"
    and fd: "fds w fd = Some f" "fs w (of_name f) = Some g"
    and rd: "fits_buffer rd" and init: "P src []"
    and keep: "\<And>n src h bs e t. P src h \<Longrightarrow> rd n src = (Val (bs, e), t) \<Longrightarrow>
        P t (h @ bs) \<and> (e = Some ErrEOF \<longrightarrow> at_end t)"
  shows "layer_stored w (of_name f) g n h w' \<and> P (DelegateReader q) h \<and> at_end (DelegateReader q) \<and>
    (0 \<le> sint quota \<longrightarrow> int (length h) \<le> sint quota)"
proof -
  let ?J = "\<lambda>n (q, h) w'. layer_stored w (of_name f) g n h w' \<and> P (DelegateReader q) h \<and>
      QuotaExceededErrorHandler q = ErrNew msg \<and>
      (0 \<le> sint quota \<longrightarrow> sint (QuotaLeft q) = sint quota - int (length h) \<and> 0 \<le> sint (QuotaLeft q))"
  have "?J n (q, h) w' \<and> at_end (DelegateReader (fst (q, h)))"
  proof (rule io_copy_rule [where J = ?J and at_end = "\<lambda>qh. at_end (DelegateReader (fst qh))", OF copy])
    show "?J 0 (new_quotaed_reader src quota msg, []) w"
      using layer_stored_start fd init by (simp add: new_quotaed_reader_def)
  next
    fix m qh w1 bs er t1 w2
    assume J: "?J m qh w1" and rdq: "tee_read (quotaed_read rd) copy_buffer_size qh = (Val (bs, er), t1)"
      and wr: "copy_write (os_write E fd) bs w1 w2" and er: "er = None \<or> er = Some ErrEOF"
    obtain q1 h1 q2 where qh: "qh = (q1, h1)" and t1: "t1 = (q2, h1 @ bs)"
      and rq: "quotaed_read rd copy_buffer_size q1 = (Val (bs, er), q2)"
      using rdq by (cases qh) (auto simp: tee_read_Val)
    have handler: "er \<noteq> Some (QuotaExceededErrorHandler q1)" using J er qh by auto
    obtain m' where "rd m' (DelegateReader q1) = (Val (bs, er), DelegateReader q2)"
      using quotaed_read_delegate [OF rq handler] by blast
    from keep [OF _ this, of h1] J qh have P: "P (DelegateReader q2) (h1 @ bs)"
        "er = Some ErrEOF \<longrightarrow> at_end (DelegateReader q2)" by auto
    have "QuotaExceededErrorHandler q2 = QuotaExceededErrorHandler q1"
      using rq by (auto simp: quotaed_read_def Let_def call_returns split: if_splits)
    moreover have "0 \<le> sint quota \<longrightarrow>
        sint (QuotaLeft q2) = sint quota - int (length (h1 @ bs)) \<and> 0 \<le> sint (QuotaLeft q2)"
      using quotaed_read_within [OF rq handler] J qh fits_bufferD [OF rd]
      by (auto simp: copy_buffer_size_def)
    ultimately show "?J (m + of_nat (length bs)) t1 w2 \<and>
        (er = Some ErrEOF \<longrightarrow> at_end (DelegateReader (fst t1)))"
      using J qh t1 P layer_stored_step [OF _ wr fd(1)] by auto
  qed
  then show ?thesis by auto
qed

lemma copy_layer_ok:
  assumes copy: "copy_layer E s fd rd src w = (Val (n, None), (src', h), w')"
    and fd: "fds w fd = Some f" "fs w (of_name f) = Some g"
    and rd: "fits_buffer rd" and init: "P src []"
    and keep: "\<And>n src h bs e t. P src h \<Longrightarrow> rd n src = (Val (bs, e), t) \<Longrightarrow>
        P t (h @ bs) \<and> (e = Some ErrEOF \<longrightarrow> at_end t)"
  shows "layer_stored w (of_name f) g n h w' \<and> P src' h \<and> at_end src' \<and>
    (should_enforce_image_quota_validation s \<longrightarrow> 0 \<le> sint (remainingImageQuota s) \<longrightarrow>
      int (length h) \<le> sint (remainingImageQuota s))"
proof (cases "should_enforce_image_quota_validation s")
  case True
  with copy obtain q where q: "io_copy (tee_read (quotaed_read rd)) (os_write E fd)
      (new_quotaed_reader src (remainingImageQuota s) ''uncompressed layer size exceeds quota'', []) w
      = (Val (n, None), (q, h), w')" and src': "src' = DelegateReader q"
    by (auto simp: copy_layer_def split: prod.splits)
  from copy_quota_ok [where P = P and at_end = at_end, OF q fd rd init keep] src' show ?thesis by simp
next
  case False
  with copy have "io_copy (tee_read rd) (os_write E fd) (src, []) w = (Val (n, None), (src', h), w')"
    by (simp add: copy_layer_def)
  from copy_plain_ok [where P = P and at_end = at_end, OF this fd init keep] False show ?thesis by simp
qed

section \<open>Lemmas on writing a layer\<close>

lemma write_layer_frame:
  assumes "write_layer E s li fd blob w = (r, w')" "fds w fd = Some f"
  shows "only_file (of_name f) w w'"
  using assms
  by (auto simp: write_layer_def obind_def split: if_splits prod.splits outcome.splits sum.splits
      dest!: copy_layer_frame)

lemma check_layer_Inr:
  assumes "check_layer s li (n, err) raw h = Val (Inr m)"
  shows "err = None" "m = n" "1 < length (split_on (CHR '':'') (BlobID li))"
    "check_check_sum s raw (split_on (CHR '':'') (BlobID li) ! 1) (Scheme (imageURL s)) = None"
    "check_check_sum s h (DiffID li) (Scheme (imageURL s)) = None"
  using assms
  by (auto simp: check_layer_def index_at_def split: option.splits if_splits)

text \<open>
  A layer that has been written: \<open>h\<close> is the content, \<open>raw\<close> the part of the stream that was
  read and hashed (all of it when the layer is stored as it came), and the checks hold.
\<close>

definition layer_checked :: "layer_source \<Rightarrow> layer_info \<Rightarrow> blob_stream \<Rightarrow> bytes \<Rightarrow> bytes \<Rightarrow> bool" where
  "layer_checked s li blob raw h \<longleftrightarrow>
     1 < length (split_on (CHR '':'') (BlobID li)) \<and>
     check_check_sum s raw (split_on (CHR '':'') (BlobID li) ! 1) (Scheme (imageURL s)) = None \<and>
     check_check_sum s h (DiffID li) (Scheme (imageURL s)) = None \<and>
     (\<exists>k rest. body_after blob k = raw @ rest) \<and>
     (\<not> is_gzip_layer li \<longrightarrow> h = raw \<and> raw = concat (bl_chunks blob) \<and> finite_body blob) \<and>
     (should_enforce_image_quota_validation s \<longrightarrow> 0 \<le> sint (remainingImageQuota s) \<longrightarrow>
       int (length h) \<le> sint (remainingImageQuota s))"

text \<open>A layer copied as it came: everything that was streamed is hashed twice, and stored.\<close>

lemma copy_uncompressed:
  assumes copy: "copy_layer E s fd (tee_read stream_read) (blob, []) w = (Val (n, None), ((src', raw), h), w')"
    and fd: "fds w fd = Some f" "fs w (of_name f) = Some g"
  shows "layer_stored w (of_name f) g n h w' \<and> h = raw \<and> raw = concat (bl_chunks blob) \<and> finite_body blob \<and>
    (should_enforce_image_quota_validation s \<longrightarrow> 0 \<le> sint (remainingImageQuota s) \<longrightarrow>
      int (length h) \<le> sint (remainingImageQuota s))"
proof -
  have keep: "(hashed_of blob t \<and> snd t = h @ bs) \<and> (e = Some ErrEOF \<longrightarrow> snd t = concat (bl_chunks blob) \<and> finite_body blob)"
    if "hashed_of blob sh \<and> snd sh = h" "tee_read stream_read n sh = (Val (bs, e), t)" for n sh h bs e t
  proof -
    have "hashed_of blob t" using that hashed_of_read by blast
    moreover have "e = Some ErrEOF \<longrightarrow> snd t = concat (bl_chunks blob) \<and> finite_body blob" using that hashed_of_eof by blast
    moreover have "snd t = h @ bs" using that by (cases sh) (auto simp: tee_read_Val)
    ultimately show ?thesis by blast
  qed
  have "layer_stored w (of_name f) g n h w' \<and> (hashed_of blob (src', raw) \<and> snd (src', raw) = h) \<and>
      (snd (src', raw) = concat (bl_chunks blob) \<and> finite_body blob) \<and>
      (should_enforce_image_quota_validation s \<longrightarrow> 0 \<le> sint (remainingImageQuota s) \<longrightarrow>
        int (length h) \<le> sint (remainingImageQuota s))"
    by (rule copy_layer_ok [where P = "\<lambda>sh h. hashed_of blob sh \<and> snd sh = h"
          and at_end = "\<lambda>sh. snd sh = concat (bl_chunks blob) \<and> finite_body blob", OF copy fd _ _ keep])
      (auto simp: hashed_of_start)
  then show ?thesis by auto
qed

lemma write_layer_ok:
  assumes wl: "write_layer E s li fd blob w = (Val (Inr n), w')"
    and fd: "fds w fd = Some f" "fs w (of_name f) = Some g"
  shows "\<exists>raw h. layer_stored w (of_name f) g n h w' \<and> layer_checked s li blob raw h"
proof (cases "is_gzip_layer li")
  case True
  then obtain z src src' z' raw h copied where
      new: "gzip_new_reader E (tee_read stream_read) (blob, []) = (Val (Inr z), src)"
    and copy: "copy_layer E s fd (gzip_read E (tee_read stream_read)) (src, z) w
        = (Val copied, (((src', raw), z'), h), w')"
    and check: "check_layer s li copied raw h = Val (Inr n)"
    using wl by (auto simp: write_layer_def call_returns split: prod.splits outcome.splits sum.splits)
  have start: "hashed_of blob src"
    using run_client_invariant [OF new [unfolded gzip_new_reader_def], of "hashed_of blob"]
    by (auto intro: hashed_of_start hashed_of_read)
  obtain m where "copied = (m, None)" using check_layer_Inr(1) check by (cases copied) auto
  with copy_layer_ok [of E s fd "gzip_read E (tee_read stream_read)" "(src, z)" w n "((src', raw), z')" h w' f g
      "\<lambda>sz h. hashed_of blob (fst sz)" "\<lambda>_. True"] copy check fd start
  have "layer_stored w (of_name f) g n h w'" "hashed_of blob (src', raw)"
    "should_enforce_image_quota_validation s \<longrightarrow> 0 \<le> sint (remainingImageQuota s) \<longrightarrow>
      int (length h) \<le> sint (remainingImageQuota s)"
    by (auto dest: check_layer_Inr(2) gzip_read_state intro: hashed_of_read)
  moreover from this(2) have "\<exists>k rest. body_after blob k = raw @ rest"
    by (metis fst_conv hashed_of_def snd_conv)
  ultimately have "layer_stored w (of_name f) g n h w' \<and> layer_checked s li blob raw h"
    using True check_layer_Inr [OF check [unfolded \<open>copied = (m, None)\<close>]]
    by (simp add: layer_checked_def)
  then show ?thesis by blast
next
  case False
  then obtain src' raw h copied where
      copy: "copy_layer E s fd (tee_read stream_read) (blob, []) w = (Val copied, ((src', raw), h), w')"
    and check: "check_layer s li copied raw h = Val (Inr n)"
    using wl by (auto simp: write_layer_def call_returns split: prod.splits)
  obtain m where "copied = (m, None)" using check_layer_Inr(1) check by (cases copied) auto
  then have copy': "copy_layer E s fd (tee_read stream_read) (blob, []) w = (Val (n, None), ((src', raw), h), w')"
    using copy check_layer_Inr(2) [OF check [unfolded \<open>copied = (m, None)\<close>]] by simp
  from copy_uncompressed [OF copy' fd]
  have "layer_stored w (of_name f) g n h w'" "h = raw" "concat (bl_chunks blob) = raw" "finite_body blob"
    "should_enforce_image_quota_validation s \<longrightarrow> 0 \<le> sint (remainingImageQuota s) \<longrightarrow>
      int (length h) \<le> sint (remainingImageQuota s)"
    by auto
  with False check_layer_Inr [OF check [unfolded \<open>copied = (m, None)\<close>]]
  have "layer_stored w (of_name f) g n h w' \<and> layer_checked s li blob raw h"
    by (auto simp: layer_checked_def intro: exI [of _ 0] exI [of _ "[]"])
  then show ?thesis by blast
qed

section \<open>Lemmas on the image source\<close>

text \<open>The image sources open beyond \<open>base\<close> others: the one the object holds, if it holds one.\<close>

definition source_tracked :: "nat \<Rightarrow> ls_world \<Rightarrow> bool" where
  "source_tracked base sw \<longleftrightarrow>
     open_sources (snd sw) = base + (case imageSource (fst sw) of None \<Rightarrow> 0 | Some _ \<Rightarrow> 1)"

text \<open>What every operation keeps of the source object: only the image source and the quota change.\<close>

definition same_settings :: "layer_source \<Rightarrow> layer_source \<Rightarrow> bool" where
  "same_settings s s' \<longleftrightarrow>
     s' = s\<lparr>imageSource := imageSource s', remainingImageQuota := remainingImageQuota s'\<rparr>"

text \<open>A step that has at most opened the image source.\<close>

definition source_step :: "ls_world \<Rightarrow> ls_world \<Rightarrow> bool" where
  "source_step sw sw' \<longleftrightarrow>
     quiet (snd sw) (snd sw') \<and>
     fst sw' = (fst sw)\<lparr>imageSource := imageSource (fst sw')\<rparr> \<and>
     (\<forall>src. imageSource (fst sw) = Some src \<longrightarrow> imageSource (fst sw') = Some src) \<and>
     (\<forall>base. source_tracked base sw \<longrightarrow> source_tracked base sw')"

lemma source_step_refl [simp]: "source_step sw sw"
  by (simp add: source_step_def)

lemma source_step_trans [trans]: "source_step a b \<Longrightarrow> source_step b c \<Longrightarrow> source_step a c"
  unfolding source_step_def by (metis (no_types, lifting) layer_source.surjective
      layer_source.update_convs(4) quiet_trans)

lemma source_step_world:
  "quiet w w' \<Longrightarrow> open_sources w' = open_sources w \<Longrightarrow> source_step (s, w) (s, w')"
  by (simp add: source_step_def source_tracked_def)

lemma create_image_source_step:
  assumes "create_image_source E s w = (r, w')"
  shows "quiet w w' \<and> open_sources w' = open_sources w + (case r of Val (Inr _) \<Rightarrow> 1 | _ \<Rightarrow> 0)"
proof -
  obtain x where x: "reference E s = x" by blast
  show ?thesis
    using assms unfolding create_image_source_def x
    by (cases x) (auto simp: attempt_def quiet_def split: sum.splits option.splits)
qed

lemma get_image_source_step:
  assumes "get_image_source E sw = (r, sw')"
  shows "source_step sw sw' \<and> (\<forall>src. r = Val (Inr src) \<longrightarrow> imageSource (fst sw') = Some src)"
proof (cases "imageSource (fst sw)")
  case None
  obtain x w' where c: "create_image_source E (fst sw) (snd sw) = (x, w')" by fastforce
  note step = create_image_source_step [OF c]
  from assms None c show ?thesis
    using step
    by (cases x) (auto simp: get_image_source_def on_world_def attempt_def source_step_def source_tracked_def
        split: prod.splits sum.splits)
next
  case (Some src)
  with assms show ?thesis by (auto simp: get_image_source_def split: prod.splits)
qed

lemma get_blob_with_retries_step:
  assumes "get_blob_with_retries E src info w = (r, w')"
  shows "fs w' = fs w \<and> fds w' = fds w \<and> next_fd w' = next_fd w \<and> open_sources w' = open_sources w \<and>
    (case r of Val (Inr _) \<Rightarrow> open_blobs w' = Suc (open_blobs w) | _ \<Rightarrow> open_blobs w' = open_blobs w)"
  using assms
  by (auto simp: get_blob_with_retries_def get_blob_attempt_def MAX_DOCKER_RETRIES_Suc obind_def
      split: sum.splits)

section \<open>Lemmas on Blob\<close>

text \<open>
  What a blob that has been delivered means: a file that was not there now holds the content
  \<open>h\<close>, the checks of the layer hold, and its length has been taken off the quota.
\<close>

definition blob_stored :: "layer_source \<Rightarrow> layer_info \<Rightarrow> blob_stream \<Rightarrow> bytes \<Rightarrow> bytes \<Rightarrow> string \<Rightarrow>
    world \<Rightarrow> layer_source \<Rightarrow> world \<Rightarrow> bool" where
  "blob_stored s li blob raw h name w s' w' \<longleftrightarrow>
     fs w name = None \<and>
     (\<exists>t. fs w' = (fs w)(name \<mapsto> \<lparr>f_content = h, f_isdir = False, f_mtime = t\<rparr>)) \<and>
     layer_checked s li blob raw h \<and>
     s' = s\<lparr>remainingImageQuota := remainingImageQuota s - of_nat (length h)\<rparr>"

text \<open>A step after which the same descriptors and streams are open as before.\<close>

definition same_open :: "world \<Rightarrow> world \<Rightarrow> bool" where
  "same_open w w' \<longleftrightarrow>
     fds w' = fds w \<and> next_fd w \<le> next_fd w' \<and> open_blobs w' = open_blobs w \<and> open_sources w' = open_sources w"

lemma finish_temp_file_frame:
  assumes "r \<noteq> Diverges"
  shows "fds (finish_temp_file E fd name r w) = (fds w)(fd := None)"
    "next_fd (finish_temp_file E fd name r w) = next_fd w"
    "open_blobs (finish_temp_file E fd name r w) = open_blobs w"
    "open_sources (finish_temp_file E fd name r w) = open_sources w"
  using assms by (auto simp: finish_temp_file_def split: outcome.splits sum.splits)

lemma finish_temp_file_fs:
  "fs (finish_temp_file E fd name (Val (Inr v)) w) = fs w"
  "removes_files E \<Longrightarrow> fs (finish_temp_file E fd name (Val (Inl e)) w) = (fs w)(name := None)"
  by (simp_all add: finish_temp_file_def)

text \<open>From the creation of the temporary file to the deferred function.\<close>

lemma temp_file_closed:
  assumes temp: "os_create_temp E pattern w = (Inr (fd, name), w1)" and frame: "only_file name w1 w2"
    and "wf_world w" "x \<noteq> Diverges"
  shows "same_open w (finish_temp_file E fd name x w2)"
proof -
  have "(fds w1)(fd := None) = fds w"
    using os_create_temp_ok [OF temp] assms(3) by (auto simp: wf_world_def)
  then show ?thesis
    using os_create_temp_ok [OF temp] frame finish_temp_file_frame [OF assms(4), of E fd name w2]
    by (simp add: same_open_def only_file_def)
qed

lemma temp_file_removed:
  assumes temp: "os_create_temp E pattern w = (Inr (fd, name), w1)" and frame: "only_file name w1 w2"
    and "removes_files E"
  shows "fs (finish_temp_file E fd name (Val (Inl e :: 'v res)) w2) = fs w"
proof
  fix p
  show "fs (finish_temp_file E fd name (Val (Inl e :: 'v res)) w2) p = fs w p"
    using os_create_temp_ok(2,3) [OF temp] frame assms(3)
    by (cases "p = name") (auto simp: finish_temp_file_fs only_file_def)
qed

lemma blob_of_stream_spec:
  assumes bs: "blob_of_stream E li blob sz (s, w) = (r, (s', w'))" and wf: "wf_world w"
    and ret: "r \<noteq> Diverges"
  shows "same_open w w' \<and>
    (case r of
       Val (Inr (name, n)) \<Rightarrow> n = sz \<and> validate_layer_size s li sz = None \<and>
         (\<exists>raw h. blob_stored s li blob raw h name w s' w')
     | Val (Inl e) \<Rightarrow> s' = s \<and> (removes_files E \<longrightarrow> fs w' = fs w)
     | _ \<Rightarrow> s' = s)"
proof (cases "validate_layer_size s li sz")
  case (Some e)
  with bs show ?thesis by (auto simp: blob_of_stream_def same_open_def)
next
  case None
  show ?thesis
  proof (cases "os_create_temp E (blob_pattern li) w")
    case (Pair c w1)
    show ?thesis
    proof (cases c)
      case (Inl e)
      with bs None Pair os_create_temp_err [of E "blob_pattern li" w e w1] show ?thesis
        by (auto simp: blob_of_stream_def same_open_def)
    next
      case (Inr fn)
      obtain fd name where fn: "fn = (fd, name)" by fastforce
      note temp = os_create_temp_ok [OF Pair [unfolded Inr fn]]
      obtain x w2 where wl: "write_layer E s li fd blob w1 = (x, w2)" by fastforce
      have fd1: "fds w1 fd = Some \<lparr>of_name = name, of_left = [], of_isdir = False\<rparr>"
        using temp by simp
      have frame: "only_file name w1 w2" using write_layer_frame [OF wl fd1] by simp
      have run: "attempt (x, (s, finish_temp_file E fd name x w2)) (\<lambda>e. e)
          (\<lambda>n (s, w). (Val (Inr (name, sz)), (s\<lparr>remainingImageQuota := remainingImageQuota s - n\<rparr>, w)))
          = (r, (s', w'))"
        using bs None Pair Inr fn wl by (simp add: blob_of_stream_def)
      have x: "x \<noteq> Diverges" using run ret by auto
      have w': "w' = finish_temp_file E fd name x w2"
        using run by (cases x) (auto simp: attempt_def split: sum.splits)
      have "same_open w w'"
        using w' temp_file_closed [OF Pair [unfolded Inr fn] frame wf x] by simp
      moreover have "fs w' = fs w" if "x = Val (Inl e)" "removes_files E" for e
        using that w' temp_file_removed [OF Pair [unfolded Inr fn] frame] by simp
      moreover have "\<exists>raw h. blob_stored s li blob raw h name w s' w'" if n: "x = Val (Inr n)" for n
      proof -
        obtain t where g: "fs w1 = (fs w)(name \<mapsto> \<lparr>f_content = [], f_isdir = False, f_mtime = t\<rparr>)"
          using temp(3) by blast
        have "\<exists>raw h. layer_stored w1 name \<lparr>f_content = [], f_isdir = False, f_mtime = t\<rparr> n h w2 \<and>
            layer_checked s li blob raw h"
          using write_layer_ok [OF wl [unfolded n] fd1] g by simp
        then show ?thesis
          using run n w' g temp(2)
          by (auto simp: blob_stored_def layer_stored_def finish_temp_file_fs)
      qed
      ultimately show ?thesis
        using run None by (cases x) (fastforce simp: attempt_def split: sum.splits)+
    qed
  qed
qed

text \<open>The request \<^verbatim>\<open>Blob\<close> makes for a layer.\<close>

definition blob_request :: "layer_info \<Rightarrow> blob_info" where
  "blob_request li = \<lparr>bi_Digest = BlobID li, bi_Size = 0, bi_URLs = URLs li, bi_MediaType = []\<rparr>"

lemma get_blob_with_retries_Inr:
  assumes "get_blob_with_retries E src info w = (Val (Inr b), w')"
  shows "\<exists>t. get_blob E t src info = Inr b"
proof -
  from assms obtain w1 where "get_blob_attempt E src info w1 = (Val (Inr b), w')"
    unfolding get_blob_with_retries_def by (rule retry_Inr [where P = "\<lambda>_. True"]) auto
  then show ?thesis by (auto simp: get_blob_attempt_def split: sum.splits)
qed

text \<open>The part of a delivered blob that its caller can rely on.\<close>

definition blob_delivered :: "'z env \<Rightarrow> layer_source \<Rightarrow> layer_info \<Rightarrow> string \<Rightarrow> int64 \<Rightarrow> bytes \<Rightarrow> world \<Rightarrow> world \<Rightarrow> bool" where
  "blob_delivered E s li path n content w w' \<longleftrightarrow>
     fs w path = None \<and>
     (\<exists>t. fs w' = (fs w)(path \<mapsto> \<lparr>f_content = content, f_isdir = False, f_mtime = t\<rparr>)) \<and>
     validate_layer_size s li n = None \<and>
     (\<exists>t src blob raw. get_blob E t src (blob_request li) = Inr (blob, n) \<and> layer_checked s li blob raw content)"

lemma layer_checked_source: "layer_checked (s\<lparr>imageSource := x\<rparr>) li = layer_checked s li"
  by (simp add: fun_eq_iff layer_checked_def check_check_sum_def should_enforce_image_quota_validation_def)

lemma validate_layer_size_source: "validate_layer_size (s\<lparr>imageSource := x\<rparr>) li = validate_layer_size s li"
  by (simp add: fun_eq_iff validate_layer_size_def)

text \<open>The state of source and world around a call that returns or panics.\<close>

definition blob_frame :: "ls_world \<Rightarrow> ls_world \<Rightarrow> bool" where
  "blob_frame sw sw' \<longleftrightarrow>
     fds (snd sw') = fds (snd sw) \<and> next_fd (snd sw) \<le> next_fd (snd sw') \<and>
     open_blobs (snd sw') = open_blobs (snd sw) \<and>
     (\<forall>base. source_tracked base sw \<longrightarrow> source_tracked base sw') \<and> same_settings (fst sw) (fst sw')"

lemma source_step_blob_frame:
  "source_step sw sw' \<Longrightarrow> blob_frame sw sw' \<and> fs (snd sw') = fs (snd sw) \<and>
     remainingImageQuota (fst sw') = remainingImageQuota (fst sw)"
  unfolding source_step_def blob_frame_def same_settings_def quiet_def
  by (metis (no_types, lifting) layer_source.ext_inject layer_source.surjective
      layer_source.update_convs(4) layer_source.update_convs(5))

lemma Blob_cases:
  assumes Blob: "Blob E li (s, w) = (r, (s', w'))" and ret: "r \<noteq> Diverges"
  obtains (early) "source_step (s, w) (s', w')" "\<forall>v. r \<noteq> Val (Inr v)"
    | (stream) s1 w1 w2 w3 src blob sz where "source_step (s, w) (s1, w1)"
      "get_blob_with_retries E src (blob_request li) w1 = (Val (Inr (blob, sz)), w2)"
      "blob_of_stream E li blob sz (s1, w2) = (r, (s', w3))" "w' = close_blob w3"
proof -
  obtain x s1 w1 where src: "get_image_source E (s, w) = (x, (s1, w1))"
    by (metis prod.exhaust)
  from get_image_source_step [OF src] have step: "source_step (s, w) (s1, w1)" by simp
  show thesis
  proof (cases "\<exists>src0. x = Val (Inr src0)")
    case False
    with Blob src have "(s', w') = (s1, w1)" "\<forall>v. r \<noteq> Val (Inr v)"
      by (auto simp: Blob_def attempt_def obind_def split: outcome.splits sum.splits)
    with step show thesis by (auto intro: early)
  next
    case True
    then obtain src0 where x: "x = Val (Inr src0)" by blast
    obtain y w2 where gb: "get_blob_with_retries E src0 (blob_request li) w1 = (y, w2)" by fastforce
    have quiet: "fs w2 = fs w1 \<and> fds w2 = fds w1 \<and> next_fd w2 = next_fd w1 \<and> open_sources w2 = open_sources w1"
      and blobs: "(\<forall>v. y \<noteq> Val (Inr v)) \<longrightarrow> open_blobs w2 = open_blobs w1"
      using get_blob_with_retries_step [OF gb] by (auto split: outcome.splits sum.splits)
    show thesis
    proof (cases "\<exists>b. y = Val (Inr b)")
      case False
      with Blob src gb x have "(s', w') = (s1, w2)" "\<forall>v. r \<noteq> Val (Inr v)"
        by (auto simp: Blob_def attempt_def on_world_def obind_def blob_request_def
            split: outcome.splits sum.splits)
      moreover have "source_step (s1, w1) (s1, w2)"
        using quiet blobs False by (intro source_step_world) (auto simp: quiet_def)
      ultimately show thesis using step by (auto intro: early source_step_trans)
    next
      case True
      then obtain blob sz where y: "y = Val (Inr (blob, sz))" by auto
      obtain r3 s3 w3 where bs: "blob_of_stream E li blob sz (s1, w2) = (r3, (s3, w3))"
        by (metis prod.exhaust)
      with Blob src gb x y ret have "r3 = r" "s3 = s'" "w' = close_blob w3"
        by (auto simp: Blob_def on_world_def blob_request_def split: outcome.splits)
      with step gb y bs show thesis by (auto intro: stream)
    qed
  qed
qed

lemma Blob_spec:
  assumes Blob: "Blob E li (s, w) = (r, (s', w'))" and wf: "wf_world w" and ret: "r \<noteq> Diverges"
  shows "blob_frame (s, w) (s', w') \<and>
    (case r of
       Val (Inr (path, n)) \<Rightarrow> (\<exists>content. blob_delivered E s li path n content w w' \<and>
         remainingImageQuota s' = remainingImageQuota s - of_nat (length content))
     | Val (Inl e) \<Rightarrow> remainingImageQuota s' = remainingImageQuota s \<and> (removes_files E \<longrightarrow> fs w' = fs w)
     | _ \<Rightarrow> remainingImageQuota s' = remainingImageQuota s)"
  using Blob ret
proof (cases rule: Blob_cases)
  case early
  from source_step_blob_frame [OF early(1)] early(2) ret show ?thesis
    by (auto split: outcome.splits sum.splits)
next
  case (stream s1 w1 w2 w3 src blob sz)
  note frame1 = source_step_blob_frame [OF stream(1)]
  have s1: "s1 = s\<lparr>imageSource := imageSource s1\<rparr>" and q1: "quiet w w1"
    using stream(1) by (simp_all add: source_step_def)
  note w2 = get_blob_with_retries_step [OF stream(2), simplified]
  have "wf_world w2" using wf q1 w2 by (simp add: wf_world_def quiet_def)
  note spec = blob_of_stream_spec [OF stream(3) this ret]
  obtain t where t: "get_blob E t src (blob_request li) = Inr (blob, sz)"
    using get_blob_with_retries_Inr [OF stream(2)] by blast
  have s': "imageSource s' = imageSource s1 \<and> same_settings s1 s'"
    using spec by (auto simp: same_settings_def blob_stored_def split: outcome.splits sum.splits)
  have frame: "blob_frame (s, w) (s', w')"
    using frame1 s' spec w2 stream(4)
    by (auto simp: blob_frame_def same_open_def close_blob_def source_tracked_def same_settings_def)
  have rest: "remainingImageQuota s1 = remainingImageQuota s" "fs w2 = fs w" "fs w' = fs w3"
    using frame1 w2 q1 stream(4) by (auto simp: quiet_def close_blob_def)
  have delivered: "blob_delivered E s li path n content w w' \<and>
      remainingImageQuota s' = remainingImageQuota s - of_nat (length content)"
    if "blob_stored s1 li blob raw content path w2 s' w3" "n = sz" "validate_layer_size s1 li sz = None"
    for path n raw content
    using that t rest layer_checked_source [of "imageSource s1" s li, folded s1]
      validate_layer_size_source [of "imageSource s1" s li, folded s1]
    by (auto simp: blob_delivered_def blob_stored_def)
  show ?thesis
  proof (cases "\<exists>path n. r = Val (Inr (path, n))")
    case True
    then obtain path n where r: "r = Val (Inr (path, n))" by blast
    with spec obtain raw content where "blob_stored s1 li blob raw content path w2 s' w3" "n = sz"
        "validate_layer_size s1 li sz = None" by auto
    from delivered [OF this] frame show ?thesis by (auto simp: r)
  next
    case False
    with spec frame rest show ?thesis by (auto split: outcome.splits sum.splits)
  qed
qed

end
