(* ===== verification/Sample_World.thy ===== *)
theory Sample_World
  imports Layer_Source
begin

text \<open>
  A small world in which nothing fails, for the concrete instances of the properties: an empty
  file system, a registry that serves one image with one uncompressed layer, and a decoder
  that passes its input on.
\<close>

definition passing_decoder_read :: "nat \<Rightarrow> unit \<Rightarrow> (read_result \<times> unit) client" where
  "passing_decoder_read n z = Read_then n (\<lambda>r. Return (r, z))"

definition sample_env :: "image \<Rightarrow> image_config \<Rightarrow> (blob_stream \<times> int64) res \<Rightarrow> unit env" where
  "sample_env img config answer =
     \<lparr>goos = ''linux'', fp_VolumeName = (\<lambda>_. ''''), fp_Join = (\<lambda>a b. a @ ''/'' @ b), fp_Clean = (\<lambda>p. p),
      os_fault = (\<lambda>_ _. None), temp_dir = ''/tmp'', temp_random = show_nat, read_all_grow = (\<lambda>_. 0),
      gz_new = Return (Inr ()), gz_read = passing_decoder_read,
      transport = (\<lambda>scheme. if scheme = ''docker'' then Some Inr else None),
      new_image_source = (\<lambda>_ _ _. None), from_unparsed_image = (\<lambda>_ _ _. Inr img),
      image_manifest_type = (\<lambda>_ _. Inr DockerV2Schema2MediaType), image_config_blob = (\<lambda>_ _. None),
      image_oci_config = (\<lambda>_ _. Inr config), image_updated = (\<lambda>_ img _. Inr img),
      get_blob = (\<lambda>_ _ _. answer), source_close = (\<lambda>_. None)\<rparr>"

definition sample_context :: system_context where
  "sample_context = \<lparr>sc_DockerInsecureSkipTLSVerify = None, sc_DockerAuthConfig = None\<rparr>"

definition sample_url :: url where
  "sample_url = empty_url\<lparr>Scheme := ''docker'', Path := ''/image''\<rparr>"

definition sample_source :: "int64 \<Rightarrow> layer_source" where
  "sample_source limit = new_layer_source sample_context False False limit sample_url"

definition open_source :: "int64 \<Rightarrow> layer_source" where
  "open_source limit = (sample_source limit)\<lparr>imageSource := Some ''//image''\<rparr>"

definition sample_world :: world where
  "sample_world = \<lparr>fs = Map.empty, fds = Map.empty, next_fd = 0, tick = 0, open_blobs = 0, open_sources = 0\<rparr>"

definition sample_stream :: "bytes \<Rightarrow> blob_stream" where
  "sample_stream content = \<lparr>bl_chunks = [content], bl_rest = Nothing_more, bl_final = ErrEOF\<rparr>"

text \<open>The layer with this content, as a manifest and a configuration describe it.\<close>

definition sample_layer :: "bytes \<Rightarrow> layer_info" where
  "sample_layer content =
     \<lparr>BlobID = ''sha256:'' @ hex_encode (sha256 content), ChainID = hex_encode (sha256 content),
      DiffID = hex_encode (sha256 content), ParentChainID = '''', Size = of_nat (length content),
      URLs = [], MediaType = ''application/vnd.oci.image.layer.v1.tar''\<rparr>"

definition sample_image :: "bytes \<Rightarrow> image" where
  "sample_image content =
     \<lparr>im_LayerInfos = [\<lparr>bi_Digest = BlobID (sample_layer content), bi_Size = Size (sample_layer content),
        bi_URLs = [], bi_MediaType = MediaType (sample_layer content)\<rparr>], im_id = 0\<rparr>"

definition sample_config :: "bytes \<Rightarrow> image_config" where
  "sample_config content = \<lparr>ic_DiffIDs = [BlobID (sample_layer content)], ic_Env = [''A=b''], ic_rest = ''''\<rparr>"

text \<open>The world that serves this layer.\<close>

definition honest_env :: "bytes \<Rightarrow> unit env" where
  "honest_env content =
     sample_env (sample_image content) (sample_config content) (Inr (sample_stream content, of_nat (length content)))"

lemma honest_env_simps [simp]:
  "os_fault (honest_env c) = (\<lambda>_ _. None)" "goos (honest_env c) = ''linux''"
  "get_blob (honest_env c) t src info = Inr (sample_stream c, of_nat (length c))"
  "transport (honest_env c) scheme = (if scheme = ''docker'' then Some Inr else None)"
  "new_image_source (honest_env c) t ref ctx = None"
  "from_unparsed_image (honest_env c) t ref ctx = Inr (sample_image c)"
  "image_manifest_type (honest_env c) t img = Inr DockerV2Schema2MediaType"
  "image_config_blob (honest_env c) t img = None"
  "image_oci_config (honest_env c) t img = Inr (sample_config c)"
  "source_close (honest_env c) t = None" "read_all_grow (honest_env c) k = 0"
  "removes_files (honest_env c)" "reads_files (honest_env c)" "opens_files (honest_env c)"
  by (simp_all add: honest_env_def sample_env_def removes_files_def reads_files_def opens_files_def)

lemma sample_world_simps [simp]:
  "fs sample_world = Map.empty" "fds sample_world = Map.empty" "next_fd sample_world = 0"
  "tick sample_world = 0" "open_blobs sample_world = 0" "open_sources sample_world = 0" "wf_world sample_world"
  by (simp_all add: sample_world_def wf_world_def)

text \<open>A world with one local file.\<close>

definition file_world :: "bytes \<Rightarrow> world" where
  "file_world content =
     sample_world\<lparr>fs := [''/image.tar'' \<mapsto> \<lparr>f_content = content, f_isdir = False, f_mtime = 7\<rparr>]\<rparr>"

lemma file_world_simps [simp]:
  "fs (file_world c) = [''/image.tar'' \<mapsto> \<lparr>f_content = c, f_isdir = False, f_mtime = 7\<rparr>]"
  "fds (file_world c) = Map.empty" "next_fd (file_world c) = 0" "tick (file_world c) = 0"
  "open_sources (file_world c) = 0" "open_blobs (file_world c) = 0" "wf_world (file_world c)"
  by (simp_all add: file_world_def wf_world_def)

lemma open_source_simps [simp]:
  "imageSource (open_source limit) = Some ''//image''" "skipOCILayerValidation (open_source limit) = False"
  "remainingImageQuota (open_source limit) = limit" "skipImageQuotaValidation (open_source limit) = False"
  "imageURL (open_source limit) = sample_url" "systemContext (open_source limit) = sample_context"
  by (simp_all add: open_source_def sample_source_def new_layer_source_def)

lemma hex_encode_chars: "c \<in> set (hex_encode bs) \<Longrightarrow> c \<in> set hex_digits"
  using hex_encode_lower_hex by blast

lemma sample_layer_simps [simp]:
  "DiffID (sample_layer c) = hex_encode (sha256 c)" "Size (sample_layer c) = of_nat (length c)"
  "URLs (sample_layer c) = []" "\<not> is_gzip_layer (sample_layer c)" "ParentChainID (sample_layer c) = ''''"
  "ChainID (sample_layer c) = hex_encode (sha256 c)"
  "split_on (CHR '':'') (BlobID (sample_layer c)) = [''sha256'', hex_encode (sha256 c)]"
  "CHR ''/'' \<notin> set (BlobID (sample_layer c))"
proof -
  have colon: "CHR '':'' \<notin> set (hex_encode (sha256 c))" "CHR ''/'' \<notin> set (hex_encode (sha256 c))"
    using hex_encode_chars [of _ "sha256 c"] by (auto simp: hex_digits_def)
  show "split_on (CHR '':'') (BlobID (sample_layer c)) = [''sha256'', hex_encode (sha256 c)]"
    using colon by (simp add: sample_layer_def split_on_no_sep)
  show "CHR ''/'' \<notin> set (BlobID (sample_layer c))"
    using colon by (simp add: sample_layer_def)
qed (simp_all add: sample_layer_def is_gzip_layer_def has_prefix_def)

text \<open>Fetching the manifest of this image.\<close>

lemma sample_manifest:
  "Manifest (honest_env c) (sample_source limit, sample_world) =
     (Val (Inr (sample_image c)), (open_source limit, sample_world\<lparr>tick := 4, open_sources := 1\<rparr>))"
  by (simp add: Manifest_def get_image_with_retries_def MAX_DOCKER_RETRIES_Suc get_image_attempt_def
      get_image_source_def create_image_source_def reference_def sample_source_def new_layer_source_def
      sample_url_def on_world_def convert_image_def DockerV2Schema2MediaType_def DockerV2Schema1MediaType_def
      DockerV2Schema1SignedMediaType_def config_blob_attempt_def open_source_def generate_ref_string_def
      advance_def empty_url_def sample_world_def)

end
