(* ===== verification/Layer_Manifest.thy ===== *)
theory Layer_Manifest
  imports Sample_World
begin

text \<open>
  Lemmas on \<^verbatim>\<open>(*LayerSource).Manifest\<close>: the retry loops, the conversion of schema 1
  manifests, and what a call leaves of the source and the world.
\<close>

section \<open>Frames\<close>

lemma v1_diff_id_step:
  assumes "v1_diff_id E layer src w = (r, w')"
  shows "quiet w w' \<and> open_sources w' = open_sources w"
proof -
  obtain x w1 where x: "get_blob_with_retries E src layer w = (x, w1)" by fastforce
  from get_blob_with_retries_step [OF x] assms x show ?thesis
    by (cases x) (auto simp: v1_diff_id_def attempt_def quiet_def close_blob_def split: sum.splits)
qed

lemma v1_diff_ids_step:
  assumes "v1_diff_ids E src layers ids w = (r, w')"
  shows "quiet w w' \<and> open_sources w' = open_sources w"
  using assms
proof (induction layers arbitrary: ids w)
  case (Cons layer layers)
  obtain x w1 where x: "v1_diff_id E layer src w = (x, w1)" by fastforce
  note step = v1_diff_id_step [OF x]
  show ?case
  proof (cases "\<exists>d. x = Val (Inr d)")
    case True
    with Cons x obtain d where "v1_diff_ids E src layers (ids @ [d]) w1 = (r, w')" by auto
    from Cons.IH [OF this] step show ?thesis by (auto intro: quiet_trans)
  next
    case False
    with Cons.prems x step show ?thesis
      by (auto simp: attempt_def obind_def split: outcome.splits sum.splits)
  qed
qed simp

lemma on_world_step:
  assumes "on_world (r, w') s = (x, sw')" "quiet w w'" "open_sources w' = open_sources w"
  shows "source_step (s, w) sw'"
  using assms by (cases r) (auto simp: on_world_def intro: source_step_world)

lemma source_step_advance: "source_step (s, w) (s, advance w)"
  by (rule source_step_world) auto

lemma convert_image_step:
  assumes "convert_image E img sw = (r, sw')"
  shows "source_step sw sw'"
proof -
  obtain s w where sw: "sw = (s, w)" by fastforce
  show ?thesis
  proof (cases "\<exists>m. image_manifest_type E (tick w) img = Inr m \<and>
      (m = DockerV2Schema1MediaType \<or> m = DockerV2Schema1SignedMediaType)")
    case False
    with assms sw show ?thesis
      by (cases "image_manifest_type E (tick w) img") (auto simp: convert_image_def source_step_advance)
  next
    case True
    obtain x sw1 where x: "get_image_source E (s, advance w) = (x, sw1)" by (rule prod.exhaust)
    have step1: "source_step sw sw1"
      using source_step_trans [OF source_step_advance conjunct1 [OF get_image_source_step [OF x]]] sw by simp
    have run: "attempt (x, sw1) (\<lambda>e. e) (\<lambda>src (s, w).
        attempt (on_world (v1_diff_ids E src (im_LayerInfos img) [] w) s) (\<lambda>e. e) (\<lambda>diffIDs (s, w).
          (Val (image_updated E (tick w) img
             \<lparr>mu_MIMEType = DockerV2Schema2MediaType, mu_DiffIDs = diffIDs,
              mu_LayerInfos = im_LayerInfos img\<rparr>), (s, advance w)))) = (r, sw')"
      using assms sw x True by (auto simp: convert_image_def)
    show ?thesis
    proof (cases "\<exists>src. x = Val (Inr src)")
      case False
      with run step1 show ?thesis
        by (auto simp: attempt_def obind_def split: outcome.splits sum.splits)
    next
      case True
      then obtain src where src: "x = Val (Inr src)" by blast
      obtain s1 w1 where sw1: "sw1 = (s1, w1)" by fastforce
      obtain y w2 where y: "v1_diff_ids E src (im_LayerInfos img) [] w1 = (y, w2)" by fastforce
      have "source_step (s1, w1) (s1, w2)"
        using v1_diff_ids_step [OF y] by (intro source_step_world) auto
      with step1 sw1 have step2: "source_step sw (s1, w2)" by (auto intro: source_step_trans)
      then have "source_step sw (s1, advance w2)" by (rule source_step_trans) (rule source_step_advance)
      with step2 run src sw1 y show ?thesis
        by (cases y) (auto simp: on_world_def attempt_def split: sum.splits)
    qed
  qed
qed

lemma get_image_attempt_step:
  assumes "get_image_attempt E sw = (r, sw')"
  shows "source_step sw sw'"
proof -
  obtain x s1 w1 where x: "get_image_source E sw = (x, (s1, w1))" by (metis prod.exhaust)
  note step = conjunct1 [OF get_image_source_step [OF x]]
  from step have "source_step sw (s1, advance w1)" by (rule source_step_trans) (rule source_step_advance)
  with step assms x show ?thesis
    by (cases x) (auto simp: get_image_attempt_def attempt_def split: sum.splits)
qed

lemma get_image_with_retries_step:
  assumes "get_image_with_retries E sw = (r, sw')"
  shows "source_step sw sw'"
proof -
  obtain x sw1 where x: "retry MAX_DOCKER_RETRIES (get_image_attempt E) no_error sw = (x, sw1)" by (rule prod.exhaust)
  have "source_step sw sw1"
    by (rule retry_invariant [where P = "source_step sw", OF x])
      (auto intro: source_step_trans get_image_attempt_step)
  with assms x show ?thesis
    by (cases x) (auto simp: get_image_with_retries_def attempt_def split: sum.splits)
qed

lemma config_blob_attempt_step:
  assumes "config_blob_attempt E img sw = (r, sw')"
  shows "source_step sw sw'"
  using assms by (auto simp: config_blob_attempt_def source_step_advance split: prod.splits option.splits)

lemma Manifest_step:
  assumes "Manifest E sw = (r, sw')"
  shows "source_step sw sw'"
proof -
  obtain x sw1 where x: "get_image_with_retries E sw = (x, sw1)" by (rule prod.exhaust)
  note step1 = get_image_with_retries_step [OF x]
  show ?thesis
  proof (cases "\<exists>img. x = Val (Inr img)")
    case False
    with assms x step1 show ?thesis
      by (auto simp: Manifest_def attempt_def obind_def split: outcome.splits sum.splits)
  next
    case True
    then obtain img where img: "x = Val (Inr img)" by blast
    obtain y sw2 where y: "convert_image E img sw1 = (y, sw2)" by (rule prod.exhaust)
    have step2: "source_step sw sw2"
      using step1 convert_image_step [OF y] by (rule source_step_trans)
    show ?thesis
    proof (cases "\<exists>img'. y = Val (Inr img')")
      case False
      with assms x img y step2 show ?thesis
        by (auto simp: Manifest_def attempt_def obind_def split: outcome.splits sum.splits)
    next
      case True
      then obtain img' where img': "y = Val (Inr img')" by blast
      obtain z sw3 where z: "retry MAX_DOCKER_RETRIES (config_blob_attempt E img') no_error sw2 = (z, sw3)"
        by (rule prod.exhaust)
      have "source_step sw sw3"
        by (rule retry_invariant [where P = "source_step sw", OF z step2])
          (auto intro: source_step_trans config_blob_attempt_step)
      with assms x img y img' z show ?thesis
        by (cases z) (auto simp: Manifest_def attempt_def split: sum.splits)
    qed
  qed
qed

section \<open>Retries\<close>

text \<open>The reference for a retry loop: the first success of its attempts, or the last error.\<close>

fun first_success :: "'a res list \<Rightarrow> 'a res" where
  "first_success [r] = r"
| "first_success (r # rs) = (case r of Inr v \<Rightarrow> Inr v | Inl _ \<Rightarrow> first_success rs)"
| "first_success [] = Inl no_error"

text \<open>The number of attempts made: one more than the errors before the first success, at most all.\<close>

fun attempts_made :: "'a res list \<Rightarrow> nat" where
  "attempts_made [] = 0"
| "attempts_made (r # rs) = Suc (case r of Inr _ \<Rightarrow> 0 | Inl _ \<Rightarrow> attempts_made rs)"

lemma first_success_Cons_Inl [simp]: "rs \<noteq> [] \<Longrightarrow> first_success (Inl e # rs) = first_success rs"
  by (cases rs) auto

lemma first_success_Cons_Inr [simp]: "first_success (Inr v # rs) = Inr v"
  by (cases rs) auto

definition blob_answers :: "'z env \<Rightarrow> string \<Rightarrow> blob_info \<Rightarrow> nat \<Rightarrow> (blob_stream \<times> int64) res list" where
  "blob_answers E src info t = map (\<lambda>i. get_blob E (t + i) src info) [0..<MAX_DOCKER_RETRIES]"

lemma blob_answers_3:
  "blob_answers E src info t = [get_blob E t src info, get_blob E (Suc t) src info, get_blob E (Suc (Suc t)) src info]"
  by (simp add: blob_answers_def MAX_DOCKER_RETRIES_Suc)

lemma blob_retries:
  "get_blob_with_retries E src info w =
     (Val (first_success (blob_answers E src info (tick w))),
      w\<lparr>tick := tick w + attempts_made (blob_answers E src info (tick w)),
        open_blobs := open_blobs w +
          (case first_success (blob_answers E src info (tick w)) of Inr _ \<Rightarrow> 1 | Inl _ \<Rightarrow> 0)\<rparr>)"
  by (simp add: get_blob_with_retries_def blob_answers_3 MAX_DOCKER_RETRIES_Suc get_blob_attempt_def advance_def
      split: sum.split)

text \<open>
  C25: Downloading a blob asks the registry at most three times, at consecutive ticks of the
  clock: the first answer that is a stream ends the attempts and is returned, and only that
  stream is open afterwards; when all three answers are errors, the third one is returned.
\<close>

theorem get_blob_with_retries_result:
  "get_blob_with_retries E src info w =
     (let answer = (\<lambda>i. get_blob E (tick w + i) src info)
      in case filter (\<lambda>i. \<not> isl (answer i)) [0, 1, 2] of
           i # _ \<Rightarrow> (Val (answer i), w\<lparr>tick := tick w + i + 1, open_blobs := open_blobs w + 1\<rparr>)
         | [] \<Rightarrow> (Val (answer 2), w\<lparr>tick := tick w + 3\<rparr>))"
  by (cases "get_blob E (tick w) src info"; cases "get_blob E (Suc (tick w)) src info";
      cases "get_blob E (Suc (Suc (tick w))) src info")
    (simp_all add: blob_retries blob_answers_3 numeral_3_eq_3)

section \<open>What Manifest returns\<close>

text \<open>A diff ID computed for a schema 1 layer: the hash of what its blob decompresses to.\<close>

definition v1_diff_id_of :: "'z env \<Rightarrow> string \<Rightarrow> blob_info \<Rightarrow> string \<Rightarrow> bool" where
  "v1_diff_id_of E src layer diffID \<longleftrightarrow>
     (\<exists>t blob n blob' z data s. get_blob E t src layer = Inr (blob, n) \<and>
        gzip_new_reader E stream_read blob = (Val (Inr z), blob') \<and>
        io_read_all (read_all_grow E) (gzip_read E stream_read) (blob', z) = (Val (data, None), s) \<and>
        diffID = ''sha256:'' @ hex_encode (sha256 data))"

lemma v1_diff_id_Inr:
  assumes "v1_diff_id E layer src w = (Val (Inr d), w')"
  shows "v1_diff_id_of E src layer d"
proof -
  obtain blob n w1 where b: "get_blob_with_retries E src layer w = (Val (Inr (blob, n)), w1)"
    and d: "v1_diff_id_of_blob E blob = Val (Inr d)"
    using assms by (auto simp: v1_diff_id_def attempt_eq_Inr)
  from get_blob_with_retries_Inr [OF b] obtain t where "get_blob E t src layer = Inr (blob, n)" by blast
  moreover from d obtain z blob' data s where "gzip_new_reader E stream_read blob = (Val (Inr z), blob')"
    "io_read_all (read_all_grow E) (gzip_read E stream_read) (blob', z) = (Val (data, None), s)"
    "d = ''sha256:'' @ hex_encode (sha256 data)"
    by (auto simp: v1_diff_id_of_blob_def new_digest_from_hex_def new_digest_from_encoded_def
        split: prod.splits outcome.splits sum.splits option.splits)
  ultimately show ?thesis unfolding v1_diff_id_of_def by blast
qed

lemma v1_diff_ids_Inr:
  assumes "v1_diff_ids E src layers ids w = (Val (Inr ids'), w')"
  shows "\<exists>ds. ids' = ids @ ds \<and> list_all2 (v1_diff_id_of E src) layers ds"
  using assms
proof (induction layers arbitrary: ids w)
  case (Cons layer layers)
  then obtain d w1 where d: "v1_diff_id E layer src w = (Val (Inr d), w1)"
    and rest: "v1_diff_ids E src layers (ids @ [d]) w1 = (Val (Inr ids'), w')"
    by (auto simp: attempt_eq_Inr)
  from Cons.IH [OF rest] v1_diff_id_Inr [OF d] show ?case
    by auto
qed simp

definition schema1 :: "string \<Rightarrow> bool" where
  "schema1 mimetype \<longleftrightarrow> mimetype = DockerV2Schema1MediaType \<or> mimetype = DockerV2Schema1SignedMediaType"

text \<open>The image after conversion: the one fetched, or one updated to schema 2.\<close>

definition converted :: "'z env \<Rightarrow> string \<Rightarrow> image \<Rightarrow> image \<Rightarrow> bool" where
  "converted E src img0 img \<longleftrightarrow>
     (\<exists>t mimetype. image_manifest_type E t img0 = Inr mimetype \<and>
        (if \<not> schema1 mimetype then img = img0
         else (\<exists>t' ids. list_all2 (v1_diff_id_of E src) (im_LayerInfos img0) ids \<and>
            image_updated E t' img0 \<lparr>mu_MIMEType = DockerV2Schema2MediaType, mu_DiffIDs = ids,
              mu_LayerInfos = im_LayerInfos img0\<rparr> = Inr img)))"

lemma convert_image_Inr:
  assumes "convert_image E img0 sw = (Val (Inr img), sw')" and src: "imageSource (fst sw) = Some src"
  shows "converted E src img0 img"
proof -
  obtain s w where sw: "sw = (s, w)" by fastforce
  obtain m where m: "image_manifest_type E (tick w) img0 = Inr m"
    using assms sw by (auto simp: convert_image_def attempt_eq_Inr)
  show ?thesis
  proof (cases "schema1 m")
    case False
    with assms sw m show ?thesis
      by (auto simp: convert_image_def schema1_def converted_def intro!: exI [of _ "tick w"] exI [of _ m])
  next
    case True
    with assms sw m obtain w1 ids w2 where
        ids: "v1_diff_ids E src (im_LayerInfos img0) [] w1 = (Val (Inr ids), w2)"
      and img: "image_updated E (tick w2) img0 \<lparr>mu_MIMEType = DockerV2Schema2MediaType, mu_DiffIDs = ids,
        mu_LayerInfos = im_LayerInfos img0\<rparr> = Inr img"
      by (auto simp: convert_image_def schema1_def attempt_eq_Inr on_world_def obind_eq_Val get_image_source_def)
    from v1_diff_ids_Inr [OF ids] img m True show ?thesis
      unfolding converted_def by (intro exI [of _ "tick w"] exI [of _ m]) auto
  qed
qed

lemma get_image_with_retries_Inr:
  assumes "get_image_with_retries E sw = (Val (Inr img), sw')"
  shows "\<exists>t src. from_unparsed_image E t src (systemContext (fst sw)) = Inr img \<and> imageSource (fst sw') = Some src"
proof -
  from assms have "retry MAX_DOCKER_RETRIES (get_image_attempt E) no_error sw = (Val (Inr img), sw')"
    by (cases sw') (simp add: get_image_with_retries_def attempt_eq_Inr)
  then obtain sw1 where step: "source_step sw sw1" and att: "get_image_attempt E sw1 = (Val (Inr img), sw')"
    by (rule retry_Inr [where P = "source_step sw"]) (auto intro: source_step_trans get_image_attempt_step)
  from att obtain src s2 w2 where src: "get_image_source E sw1 = (Val (Inr src), (s2, w2))"
    and img: "from_unparsed_image E (tick w2) src (systemContext s2) = Inr img" "fst sw' = s2"
    by (auto simp: get_image_attempt_def attempt_eq_Inr)
  note step2 = get_image_source_step [OF src]
  from step step2 have "source_step sw (s2, w2)" by (auto intro: source_step_trans)
  then have "systemContext s2 = systemContext (fst sw)"
    unfolding source_step_def by (metis fst_conv layer_source.select_convs(2) layer_source.surjective
        layer_source.update_convs(4))
  with img step2 show ?thesis by auto
qed

text \<open>
  C14: The image that \<^verbatim>\<open>Manifest\<close> returns is one that the registry served from the source
  that is open afterwards, converted when its manifest has schema 1: then its diff IDs are,
  layer by layer, the SHA-256 digests of the decompressed blobs, and any other image is
  returned as it was served.  The configuration of the image returned has been fetched.
\<close>

theorem Manifest_result:
  assumes "Manifest E (s, w) = (Val (Inr img), (s', w'))"
  shows "\<exists>t src img0. imageSource s' = Some src \<and> from_unparsed_image E t src (systemContext s) = Inr img0 \<and>
    converted E src img0 img \<and> (\<exists>t'. image_config_blob E t' img = None)"
proof -
  from assms obtain img0 sw1 img1 sw2 where
      img0: "get_image_with_retries E (s, w) = (Val (Inr img0), sw1)"
    and img1: "convert_image E img0 sw1 = (Val (Inr img1), sw2)"
    and img: "retry MAX_DOCKER_RETRIES (config_blob_attempt E img1) no_error sw2 = (Val (Inr img), (s', w'))"
    by (auto simp: Manifest_def attempt_eq_Inr)
  from get_image_with_retries_Inr [OF img0] obtain t src where
    t: "from_unparsed_image E t src (systemContext s) = Inr img0" "imageSource (fst sw1) = Some src" by auto
  with convert_image_step [OF img1] have "imageSource (fst sw2) = Some src" by (simp add: source_step_def)
  moreover from img have "source_step sw2 (s', w')"
    by (rule retry_invariant [where P = "source_step sw2"]) (auto intro: source_step_trans config_blob_attempt_step)
  ultimately have "imageSource s' = Some src" by (simp add: source_step_def)
  moreover from img obtain sw3 where "config_blob_attempt E img1 sw3 = (Val (Inr img), (s', w'))"
    by (rule retry_Inr [where P = "\<lambda>_. True"]) auto
  then have "img = img1" "\<exists>t. image_config_blob E t img = None"
    by (auto simp: config_blob_attempt_def split: prod.splits option.splits)
  ultimately show ?thesis using t convert_image_Inr [OF img1 t(2)] by blast
qed

theorem Manifest_result_witness:
  "\<exists>t src img0. imageSource (open_source 9) = Some src \<and>
     from_unparsed_image (honest_env [1]) t src sample_context = Inr img0 \<and>
     converted (honest_env [1]) src img0 (sample_image [1])"
  using Manifest_result [OF sample_manifest [of "[1]" 9]]
  by (auto simp: sample_source_def new_layer_source_def)

end
