(* ===== verification/Layer_Delivery.thy ===== *)
theory Layer_Delivery
  imports Layer_Manifest
begin

text \<open>
  What \<^verbatim>\<open>(*LayerSource).Blob\<close> delivers: the properties of a call that returns, and the
  conditions under which a layer, compressed or not, is accepted, or rejected for its size.
\<close>

section \<open>Copying a layer\<close>

text \<open>An open temporary file that can be written to.\<close>

definition writing :: "'z env \<Rightarrow> nat \<Rightarrow> string \<Rightarrow> world \<Rightarrow> bool" where
  "writing E fd name w \<longleftrightarrow>
     (\<forall>t. os_fault E OpWrite t = None) \<and> fs w name \<noteq> None \<and>
     (case fds w fd of None \<Rightarrow> False | Some f \<Rightarrow> of_name f = name)"

definition file_bytes :: "string \<Rightarrow> world \<Rightarrow> bytes" where
  "file_bytes name w = (case fs w name of None \<Rightarrow> [] | Some g \<Rightarrow> f_content g)"

interpretation temp_file: io_writer "os_write E fd" "writing E fd name" "file_bytes name" for E fd name
  by unfold_locales (auto simp: writing_def file_bytes_def os_write_def split: option.splits)

text \<open>The quota is not exceeded, or there is none.\<close>

definition within_quota :: "layer_source \<Rightarrow> bytes \<Rightarrow> bool" where
  "within_quota s content \<longleftrightarrow>
     (should_enforce_image_quota_validation s \<longrightarrow> int (length content) \<le> sint (remainingImageQuota s))"

context io_reader
begin

lemmas copies_to_file = io_copying.copy_ok [OF io_copying.intro [OF tee_reader temp_file.io_writer_axioms]]

lemmas copies_to_file_limited =
  io_copying.copy_ok [OF io_copying.intro
    [OF io_reader.tee_reader [OF quotaed_reader] temp_file.io_writer_axioms]]

text \<open>Copying ends, with the error the reader ends with, or that of the quota.\<close>

lemma copy_layer_result:
  assumes "inv src" "writing E fd name w"
    and quota: "should_enforce_image_quota_validation s \<longrightarrow> - 1 \<le> sint (remainingImageQuota s)"
  shows "\<exists>n st w'. copy_layer E s fd rd src w =
    (Val (n, if within_quota s (content src) then eof_to_nil (final src)
             else Some (ErrNew ''uncompressed layer size exceeds quota'')), st, w') \<and>
    (within_quota s (content src) \<longrightarrow> file_bytes name w' = file_bytes name w @ content src)"
proof (cases "should_enforce_image_quota_validation s")
  case False
  with copies_to_file [of "(src, [])" E fd name w] assms(1,2) show ?thesis
    by (auto simp: copy_layer_def within_quota_def)
next
  case True
  let ?q = "new_quotaed_reader src (remainingImageQuota s) ''uncompressed layer size exceeds quota''"
  have "inv (DelegateReader (fst (?q, []))) \<and> - 1 \<le> sint (QuotaLeft (fst (?q, [])))"
    using quota True assms(1) by (simp add: new_quotaed_reader_def)
  from copies_to_file_limited [OF this assms(2)] obtain st w' where
    "io_copy (tee_read (quotaed_read rd)) (os_write E fd) (?q, []) w =
      (Val (of_nat (length (quota_content content ?q)), eof_to_nil (quota_final content final ?q)), st, w')"
    "file_bytes name w' = file_bytes name w @ quota_content content ?q" by auto
  with True show ?thesis
    by (cases st) (auto simp: copy_layer_def quota_final_def quota_content_def new_quotaed_reader_def
        eof_to_nil_def within_quota_def)
qed

text \<open>
  A copy within the quota of a reader that ends with EOF: everything has gone into the hash,
  and \<open>at_end\<close>, which every read that reports EOF establishes, holds of the reader.
\<close>

lemma copy_layer_content:
  assumes "inv src" "final src = ErrEOF" "writing E fd name w" "within_quota s (content src)"
    and rd: "fits_buffer rd"
    and keep: "\<forall>n s bs e t. inv s \<longrightarrow> rd n s = (Val (bs, e), t) \<longrightarrow> inv t \<and> (e = Some ErrEOF \<longrightarrow> at_end t)"
  shows "\<exists>src' w'. copy_layer E s fd rd src w = (Val (of_nat (length (content src)), None), (src', content src), w') \<and>
    file_bytes name w' = file_bytes name w @ content src \<and> at_end src'"
proof -
  have quota: "should_enforce_image_quota_validation s \<longrightarrow> - 1 \<le> sint (remainingImageQuota s)"
    using assms(4) by (auto simp: within_quota_def)
  obtain f g where fd: "fds w fd = Some f" "fs w (of_name f) = Some g" "of_name f = name"
    using assms(3) by (auto simp: writing_def split: option.splits)
  obtain n src' h w' where copy: "copy_layer E s fd rd src w = (Val (n, None), (src', h), w')"
    and bytes: "file_bytes name w' = file_bytes name w @ content src"
    using copy_layer_result [OF assms(1,3) quota] assms(2,4) by (auto simp: eof_to_nil_def)
  from copy_layer_ok [where P = "\<lambda>s _. inv s" and at_end = at_end, OF copy fd(1,2) rd assms(1)] keep
  have "layer_stored w (of_name f) g n h w'" "at_end src'" by blast+
  with bytes fd copy show ?thesis by (auto simp: file_bytes_def layer_stored_def)
qed

end

section \<open>What a stream holds\<close>

text \<open>
  A decoder that works on a stream: it opens it, delivers \<open>content\<close> as a well-behaved reader,
  ends with \<open>final\<close>, and reports EOF only when it has read all of the stream (the trailer of a gzip
  file is at its end).
\<close>

definition decodes :: "'z env \<Rightarrow> blob_stream \<Rightarrow> bytes \<Rightarrow> error \<Rightarrow> bool" where
  "decodes E blob content final \<longleftrightarrow>
     (\<exists>z src inv cont left.
        gzip_new_reader E (tee_read stream_read) (blob, []) = (Val (Inr z), src) \<and>
        io_reader (gzip_read E (tee_read stream_read)) inv cont (\<lambda>_. final) left \<and>
        inv (src, z) \<and> cont (src, z) = content \<and>
        (\<forall>n s bs e t. inv s \<longrightarrow> gzip_read E (tee_read stream_read) n s = (Val (bs, e), t) \<longrightarrow>
           inv t \<and> (e = Some ErrEOF \<longrightarrow> snd (fst t) = concat (bl_chunks blob))))"

definition layer_yields :: "'z env \<Rightarrow> layer_info \<Rightarrow> blob_stream \<Rightarrow> bytes \<Rightarrow> error \<Rightarrow> bool" where
  "layer_yields E li blob content final \<longleftrightarrow>
     (if is_gzip_layer li then decodes E blob content final
      else finite_body blob \<and> content = concat (bl_chunks blob) \<and> final = bl_final blob)"

interpretation hashed: io_reader "tee_read stream_read" "\<lambda>sh. hashed_of blob sh \<and> finite_body blob" "\<lambda>sh. concat (bl_chunks (fst sh))"
    "\<lambda>sh. bl_final (fst sh)" "\<lambda>sh. length (bl_chunks (fst sh)) + length (concat (bl_chunks (fst sh)))" for blob
proof
  fix sh :: "blob_stream \<times> bytes" and n :: nat
  assume "hashed_of blob sh \<and> finite_body blob" "n < 2 ^ 63"
  with io_reader.read_ok [OF stream.tee_reader, of sh n] hashed_of_finite [of blob sh]
  show "\<exists>bs e sh'. tee_read stream_read n sh = (Val (bs, e), sh') \<and> (hashed_of blob sh' \<and> finite_body blob) \<and> length bs \<le> n \<and>
      concat (bl_chunks (fst sh)) = bs @ concat (bl_chunks (fst sh')) \<and> bl_final (fst sh') = bl_final (fst sh) \<and>
      (e \<noteq> None \<longrightarrow> e = Some (bl_final (fst sh)) \<and> concat (bl_chunks (fst sh')) = []) \<and>
      (e = None \<longrightarrow> 0 < n \<longrightarrow> length (bl_chunks (fst sh')) + length (concat (bl_chunks (fst sh')))
         < length (bl_chunks (fst sh)) + length (concat (bl_chunks (fst sh))))"
    by (fastforce dest: hashed_of_read)
qed

lemma hashed_keep:
  "\<forall>n sh bs e t. hashed_of blob sh \<and> finite_body blob \<longrightarrow> tee_read stream_read n sh = (Val (bs, e), t) \<longrightarrow>
     (hashed_of blob t \<and> finite_body blob) \<and> (e = Some ErrEOF \<longrightarrow> snd t = concat (bl_chunks blob))"
  by (auto dest: hashed_of_read hashed_of_eof)

lemma hashed_start: "finite_body blob \<Longrightarrow> hashed_of blob (blob, []) \<and> finite_body blob"
  by (simp add: hashed_of_start)

section \<open>Accepting and rejecting a layer\<close>

text \<open>The two digests of the layer are those of the blob and of its content.\<close>

definition digests_match :: "layer_info \<Rightarrow> bytes \<Rightarrow> bytes \<Rightarrow> bool" where
  "digests_match li raw content \<longleftrightarrow>
     1 < length (split_on (CHR '':'') (BlobID li)) \<and>
     split_on (CHR '':'') (BlobID li) ! 1 = hex_encode (sha256 raw) \<and>
     DiffID li = hex_encode (sha256 content)"

lemma check_layer_match:
  "digests_match li raw content \<Longrightarrow> check_layer s li (n, None) raw content = Val (Inr n)"
  by (simp add: check_layer_def digests_match_def index_at_def check_check_sum_def)

text \<open>Within the quota, a layer is written up to the checks of its digests.\<close>

lemma write_layer_copied:
  assumes yields: "layer_yields E li blob content ErrEOF" and wr: "writing E fd name w"
    and fits: "within_quota s content"
  shows "\<exists>w'. write_layer E s li fd blob w =
      (check_layer s li (of_nat (length content), None) (concat (bl_chunks blob)) content, w') \<and>
    file_bytes name w' = file_bytes name w @ content"
proof (cases "is_gzip_layer li")
  case False
  with yields have c: "finite_body blob" "content = concat (bl_chunks blob)" "bl_final blob = ErrEOF"
    by (simp_all add: layer_yields_def)
  from hashed.copy_layer_content [OF hashed_start [OF c(1)] _ wr _ fits_buffer_tee [OF fits_buffer_stream] hashed_keep]
  have "\<exists>src' w'. copy_layer E s fd (tee_read stream_read) (blob, []) w =
      (Val (of_nat (length content), None), (src', content), w') \<and>
    file_bytes name w' = file_bytes name w @ content \<and> snd src' = concat (bl_chunks blob)"
    using c fits by simp
  with False c show ?thesis by (auto simp: write_layer_def)
next
  case True
  with yields obtain z src inv cont left where
      open_ok: "gzip_new_reader E (tee_read stream_read) (blob, []) = (Val (Inr z), src)"
    and rd: "io_reader (gzip_read E (tee_read stream_read)) inv cont (\<lambda>_. ErrEOF) left"
    and start: "inv (src, z)" "cont (src, z) = content"
    and keep: "\<forall>n s bs e t. inv s \<longrightarrow> gzip_read E (tee_read stream_read) n s = (Val (bs, e), t) \<longrightarrow>
        inv t \<and> (e = Some ErrEOF \<longrightarrow> snd (fst t) = concat (bl_chunks blob))"
    by (auto simp: layer_yields_def decodes_def)
  obtain src' w' where
    "copy_layer E s fd (gzip_read E (tee_read stream_read)) (src, z) w =
      (Val (of_nat (length content), None), (src', content), w')"
    "file_bytes name w' = file_bytes name w @ content" "snd (fst src') = concat (bl_chunks blob)"
    using io_reader.copy_layer_content [OF rd start(1) refl wr _ fits_buffer_gzip keep, of s] start(2) fits by auto
  with True open_ok show ?thesis by (cases src'; cases "fst src'") (auto simp: write_layer_def)
qed

text \<open>Beyond it, the error is that of the quota.\<close>

lemma write_layer_rejects:
  assumes yields: "layer_yields E li blob content final" and wr: "writing E fd name w"
    and large: "should_enforce_image_quota_validation s" "- 1 \<le> sint (remainingImageQuota s)"
      "sint (remainingImageQuota s) < int (length content)"
  shows "\<exists>w'. write_layer E s li fd blob w =
    (Val (Inl (ErrWrap ''writing blob to tempfile'' (ErrNew ''uncompressed layer size exceeds quota''))), w')"
proof -
  have out: "\<not> within_quota s content" and quota: "should_enforce_image_quota_validation s \<longrightarrow> - 1 \<le> sint (remainingImageQuota s)"
    using large by (auto simp: within_quota_def)
  show ?thesis
  proof (cases "is_gzip_layer li")
    case False
    then obtain n st w' where "copy_layer E s fd (tee_read stream_read) (blob, []) w =
        (Val (n, Some (ErrNew ''uncompressed layer size exceeds quota'')), st, w')"
      using hashed.copy_layer_result [OF hashed_start wr quota, of blob] yields out
      by (auto simp: layer_yields_def)
    with False show ?thesis
      by (cases st; cases "fst st") (auto simp: write_layer_def check_layer_def)
  next
    case True
    with yields obtain z src inv cont left where
        open_ok: "gzip_new_reader E (tee_read stream_read) (blob, []) = (Val (Inr z), src)"
      and rd: "io_reader (gzip_read E (tee_read stream_read)) inv cont (\<lambda>_. final) left"
      and start: "inv (src, z)" "cont (src, z) = content"
      by (auto simp: layer_yields_def decodes_def)
    obtain n st w' where "copy_layer E s fd (gzip_read E (tee_read stream_read)) (src, z) w =
        (Val (n, Some (ErrNew ''uncompressed layer size exceeds quota'')), st, w')"
      using io_reader.copy_layer_result [OF rd start(1) wr quota] start(2) out by auto
    with True open_ok show ?thesis
      by (cases st; cases "fst st"; cases "fst (fst st)") (auto simp: write_layer_def check_layer_def)
  qed
qed

text \<open>
  A call of \<^verbatim>\<open>Blob\<close> that gets as far as the copy: the image source is open, one of the attempts
  is answered, the first answer is a stream of the right size, and the temporary file can be
  created and written.
\<close>

definition blob_replies :: "'z env \<Rightarrow> layer_source \<Rightarrow> layer_info \<Rightarrow> world \<Rightarrow> (blob_stream \<times> int64) res list" where
  "blob_replies E s li w =
     (case imageSource s of None \<Rightarrow> [] | Some src \<Rightarrow> blob_answers E src (blob_request li) (tick w))"

definition temp_tick :: "'z env \<Rightarrow> layer_source \<Rightarrow> layer_info \<Rightarrow> world \<Rightarrow> nat" where
  "temp_tick E s li w = tick w + attempts_made (blob_replies E s li w)"

definition temp_path :: "'z env \<Rightarrow> layer_source \<Rightarrow> layer_info \<Rightarrow> world \<Rightarrow> string" where
  "temp_path E s li w = temp_name E (temp_tick E s li w) (blob_pattern li)"

definition served :: "'z env \<Rightarrow> layer_source \<Rightarrow> layer_info \<Rightarrow> world \<Rightarrow> blob_stream \<Rightarrow> int64 \<Rightarrow> bool" where
  "served E s li w blob n \<longleftrightarrow>
     first_success (blob_replies E s li w) = Inr (blob, n) \<and>
     validate_layer_size s li n = None \<and> CHR ''/'' \<notin> set (BlobID li) \<and>
     os_fault E OpCreateTemp (temp_tick E s li w) = None \<and> fs w (temp_path E s li w) = None \<and>
     (\<forall>t. os_fault E OpWrite t = None)"

lemma blob_pattern_slash: "CHR ''/'' \<notin> set (BlobID li) \<Longrightarrow> CHR ''/'' \<notin> set (blob_pattern li)"
  by (auto simp: blob_pattern_def str_replace_def)

text \<open>Such a call does what writing the layer to the temporary file does.\<close>

definition blob_answer :: "layer_source \<Rightarrow> string \<Rightarrow> int64 \<Rightarrow> int64 res outcome \<Rightarrow> world \<Rightarrow>
    (string \<times> int64) res outcome \<times> ls_world" where
  "blob_answer s name n r w =
     (case r of
        Val (Inr m) \<Rightarrow> (Val (Inr (name, n)), (s\<lparr>remainingImageQuota := remainingImageQuota s - m\<rparr>, w))
      | Val (Inl e) \<Rightarrow> (Val (Inl e), (s, w))
      | Panic m \<Rightarrow> (Panic m, (s, w))
      | Diverges \<Rightarrow> (Diverges, (s, w)))"

lemma Blob_served:
  assumes "served E s li w blob n"
  obtains fd w1 where "writing E fd (temp_path E s li w) w1" "file_bytes (temp_path E s li w) w1 = []"
    "\<And>r w2. write_layer E s li fd blob w1 = (r, w2) \<Longrightarrow> r \<noteq> Diverges \<Longrightarrow>
       Blob E li (s, w) = blob_answer s (temp_path E s li w) n r (close_blob (finish_temp_file E fd (temp_path E s li w) r w2))"
proof -
  from assms obtain src where src: "imageSource s = Some src"
    and gb: "first_success (blob_answers E src (blob_request li) (tick w)) = Inr (blob, n)"
    by (auto simp: served_def blob_replies_def split: option.splits)
  define w0 where "w0 = w\<lparr>tick := temp_tick E s li w, open_blobs := Suc (open_blobs w)\<rparr>"
  have retries: "get_blob_with_retries E src (blob_request li) w = (Val (Inr (blob, n)), w0)"
    using gb src by (simp add: blob_retries temp_tick_def blob_replies_def w0_def)
  define fd where "fd = next_fd w0"
  obtain w1 where temp: "os_create_temp E (blob_pattern li) w0 = (Inr (fd, temp_path E s li w), w1)"
    using assms blob_pattern_slash [of li]
    by (auto simp: served_def os_create_temp_def w0_def temp_path_def fd_def Let_def)
  have "writing E fd (temp_path E s li w) w1" "file_bytes (temp_path E s li w) w1 = []"
    using os_create_temp_ok [OF temp] assms by (auto simp: writing_def served_def file_bytes_def)
  moreover have "Blob E li (s, w) =
      blob_answer s (temp_path E s li w) n r (close_blob (finish_temp_file E fd (temp_path E s li w) r w2))"
    if "write_layer E s li fd blob w1 = (r, w2)" "r \<noteq> Diverges" for r w2
    using that src retries temp assms
    by (cases r) (auto simp: Blob_def get_image_source_def on_world_def blob_request_def blob_of_stream_def
        served_def attempt_def blob_answer_def split: sum.splits)
  ultimately show thesis by (rule that)
qed

lemma finish_temp_file_bytes:
  "(\<And>e. r \<noteq> Val (Inl e)) \<Longrightarrow> file_bytes name (close_blob (finish_temp_file E fd name r w)) = file_bytes name w"
  by (auto simp: finish_temp_file_def file_bytes_def close_blob_def split: outcome.splits sum.splits)

lemma Blob_accepts:
  assumes "served E s li w blob n" "layer_yields E li blob content ErrEOF"
    and "digests_match li (concat (bl_chunks blob)) content" "within_quota s content"
  shows "\<exists>w'. Blob E li (s, w) = (Val (Inr (temp_path E s li w, n)),
      (s\<lparr>remainingImageQuota := remainingImageQuota s - of_nat (length content)\<rparr>, w')) \<and>
    file_bytes (temp_path E s li w) w' = content"
proof (rule Blob_served [OF assms(1)])
  fix fd w1
  let ?name = "temp_path E s li w"
  assume wr: "writing E fd ?name w1" and empty: "file_bytes ?name w1 = []"
    and run: "\<And>r w2. write_layer E s li fd blob w1 = (r, w2) \<Longrightarrow> r \<noteq> Diverges \<Longrightarrow>
       Blob E li (s, w) = blob_answer s ?name n r (close_blob (finish_temp_file E fd ?name r w2))"
  from write_layer_copied [OF assms(2) wr assms(4)] check_layer_match [OF assms(3)] obtain w2 where
    "write_layer E s li fd blob w1 = (Val (Inr (of_nat (length content))), w2)" "file_bytes ?name w2 = content"
    using empty by auto
  with run show ?thesis by (auto simp: blob_answer_def finish_temp_file_bytes)
qed

lemma Blob_rejects:
  assumes "served E s li w blob n" "layer_yields E li blob content final"
    and "should_enforce_image_quota_validation s" "- 1 \<le> sint (remainingImageQuota s)"
      "sint (remainingImageQuota s) < int (length content)"
  shows "\<exists>w'. Blob E li (s, w) =
    (Val (Inl (ErrWrap ''writing blob to tempfile'' (ErrNew ''uncompressed layer size exceeds quota''))), (s, w'))"
proof (rule Blob_served [OF assms(1)])
  fix fd w1
  let ?name = "temp_path E s li w"
  assume wr: "writing E fd ?name w1"
    and run: "\<And>r w2. write_layer E s li fd blob w1 = (r, w2) \<Longrightarrow> r \<noteq> Diverges \<Longrightarrow>
       Blob E li (s, w) = blob_answer s ?name n r (close_blob (finish_temp_file E fd ?name r w2))"
  from write_layer_rejects [OF assms(2) wr assms(3-5)] run show ?thesis by (fastforce simp: blob_answer_def)
qed

section \<open>The sample layer\<close>

lemma sample_served:
  "fs w = Map.empty \<Longrightarrow> served (honest_env c) (open_source limit) (sample_layer c) w (sample_stream c) (of_nat (length c))"
  by (simp add: served_def blob_replies_def blob_answers_3 validate_layer_size_def)

lemma sample_yields: "layer_yields (honest_env c) (sample_layer c) (sample_stream c) c ErrEOF"
  by (simp add: layer_yields_def sample_stream_def finite_body_def)

lemma sample_finite [simp]: "finite_body (sample_stream c)"
  by (simp add: sample_stream_def finite_body_def)

lemma sample_chunks [simp]: "concat (bl_chunks (sample_stream c)) = c"
  by (simp add: sample_stream_def)

lemma sample_digests: "digests_match (sample_layer c) c c"
  by (simp add: digests_match_def)

lemma sample_quota: "within_quota (open_source limit) c \<longleftrightarrow> int (length c) \<le> sint limit"
  by (simp add: within_quota_def should_enforce_image_quota_validation_def)

lemma sample_blob:
  assumes "int (length c) \<le> sint limit" "fs w = Map.empty"
  obtains path s' w' where
    "Blob (honest_env c) (sample_layer c) (open_source limit, w) = (Val (Inr (path, of_nat (length c))), (s', w'))"
  using Blob_accepts [OF sample_served [OF assms(2), of c limit] sample_yields] sample_digests [of c] assms(1) that
  by (auto simp: sample_quota)

text \<open>The same layer as a compressed one, for a decoder that passes its input on.\<close>

definition sample_gzip_layer :: "bytes \<Rightarrow> layer_info" where
  "sample_gzip_layer content = (sample_layer content)\<lparr>MediaType := ''application/vnd.oci.image.layer.v1.tar+gzip''\<rparr>"

lemma sample_gzip_media_type: "MediaType (sample_gzip_layer c) = ''application/vnd.oci.image.layer.v1.tar+gzip''"
  by (simp add: sample_gzip_layer_def)

definition passes :: "unit env \<Rightarrow> bool" where
  "passes E \<longleftrightarrow> gz_new E = Return (Inr ()) \<and> gz_read E = passing_decoder_read"

lemma honest_passes [simp]: "passes (honest_env c)"
  by (simp add: passes_def honest_env_def sample_env_def)

lemma passing_gzip_read:
  "passes E \<Longrightarrow> gzip_read E rd n (s, z) = obind (rd n s) (\<lambda>(bs, e) s. (Val (take n bs, e), (s, z))) (\<lambda>s. (s, z))"
  by (cases "rd n s"; cases "fst (rd n s)")
    (auto simp: gzip_read_def passes_def passing_decoder_read_def)

lemma passing_gzip_Val:
  assumes "passes E"
  shows "gzip_read E (tee_read stream_read) n (sh, z) = (Val (bs, e), t) \<longleftrightarrow>
     (\<exists>sh'. tee_read stream_read n sh = (Val (bs, e), sh') \<and> t = (sh', z))"
proof -
  obtain r sh' where read: "tee_read stream_read n sh = (r, sh')" by (rule prod.exhaust)
  then show ?thesis
    using fits_bufferD [OF fits_buffer_tee [OF fits_buffer_stream], of n sh]
    by (cases r) (auto simp: passing_gzip_read [OF assms] split: prod.splits)
qed

lemma passing_decodes:
  assumes "passes E"
  shows "decodes E (sample_stream c) c ErrEOF"
proof -
  let ?rd = "gzip_read E (tee_read stream_read)"
  let ?inv = "\<lambda>sz. hashed_of (sample_stream c) (fst sz) \<and> bl_final (fst (fst sz)) = ErrEOF"
  have reader: "io_reader ?rd ?inv (\<lambda>sz. concat (bl_chunks (fst (fst sz)))) (\<lambda>_. ErrEOF)
      (\<lambda>sz. length (bl_chunks (fst (fst sz))) + length (concat (bl_chunks (fst (fst sz)))))"
  proof
    fix sz :: "(blob_stream \<times> bytes) \<times> unit" and n :: nat
    assume inv: "?inv sz" and "n < 2 ^ 63"
    obtain sh z where sz: "sz = (sh, z)" by (rule prod.exhaust)
    with hashed.read_ok [of "sample_stream c" sh n] inv \<open>n < 2 ^ 63\<close>
    show "\<exists>bs e s'. ?rd n sz = (Val (bs, e), s') \<and> ?inv s' \<and> length bs \<le> n \<and>
        concat (bl_chunks (fst (fst sz))) = bs @ concat (bl_chunks (fst (fst s'))) \<and> ErrEOF = ErrEOF \<and>
        (e \<noteq> None \<longrightarrow> e = Some ErrEOF \<and> concat (bl_chunks (fst (fst s'))) = []) \<and>
        (e = None \<longrightarrow> 0 < n \<longrightarrow> length (bl_chunks (fst (fst s'))) + length (concat (bl_chunks (fst (fst s'))))
           < length (bl_chunks (fst (fst sz))) + length (concat (bl_chunks (fst (fst sz)))))"
      unfolding sz passing_gzip_Val [OF assms] by fastforce
  qed
  have opened: "gzip_new_reader E (tee_read stream_read) (sample_stream c, []) = (Val (Inr ()), (sample_stream c, []))"
    by (use assms in \<open>simp add: gzip_new_reader_def passes_def\<close>)
  have start: "?inv ((sample_stream c, []), ())" by (simp add: hashed_of_start sample_stream_def)
  have keep: "?inv t \<and> (e = Some ErrEOF \<longrightarrow> snd (fst t) = concat (bl_chunks (sample_stream c)))"
    if "?inv sz" "?rd n sz = (Val (bs, e), t)" for n sz bs e t
  proof -
    obtain sh z where sz: "sz = (sh, z)" by (rule prod.exhaust)
    with that(2) obtain sh' where read: "tee_read stream_read n sh = (Val (bs, e), sh')" "t = (sh', z)"
      by (auto simp: passing_gzip_Val [OF assms])
    have "bl_final (fst sh') = bl_final (fst sh)"
      using read(1) by (cases sh; cases sh') (auto simp: tee_read_Val dest: stream_read_frame(2))
    with that(1) read hashed_of_read [of "sample_stream c" sh n] hashed_of_eof [of "sample_stream c" sh n] sz
    show ?thesis by auto
  qed
  show ?thesis
    unfolding decodes_def
    by (rule exI, rule exI, rule exI, rule exI, rule exI, rule conjI [OF opened], rule conjI [OF reader],
        rule conjI [OF start], rule conjI [OF _ allI [OF allI [OF allI [OF allI [OF allI [OF impI [OF impI]]]]]]])
      (simp, rule keep)
qed

section \<open>A blob that is delivered\<close>

text \<open>
  C3: Unless the source has been told to skip the validation of layers
  (\<^verbatim>\<open>skipOCILayerValidation\<close>), a blob that has been delivered is a new file whose content has the
  layer's diff ID as its SHA-256 digest, taken from a stream the registry served for the layer, of
  the size the manifest promised, whose hashed bytes (the beginning of what arrived) have the
  layer's blob ID as their digest; a layer that is not compressed is the whole of a body that
  ended, stored byte for byte.
\<close>

theorem Blob_delivers_verified_content:
  assumes "Blob E li (s, w) = (Val (Inr (path, n)), (s', w'))" "wf_world w" "\<not> skipOCILayerValidation s"
  shows "\<exists>f. fs w path = None \<and> fs w' = (fs w)(path \<mapsto> f) \<and> \<not> f_isdir f \<and>
    hex_encode (sha256 (f_content f)) = DiffID li \<and> (Size li = - 1 \<or> Size li = n) \<and>
    (\<exists>t src blob raw k rest. get_blob E t src (blob_request li) = Inr (blob, n) \<and>
       body_after blob k = raw @ rest \<and>
       hex_encode (sha256 raw) = split_on (CHR '':'') (BlobID li) ! 1 \<and>
       (\<not> is_gzip_layer li \<longrightarrow> f_content f = raw \<and> rest = [] \<and> finite_body blob))"
proof -
  from Blob_spec [OF assms(1,2)] obtain content where d: "blob_delivered E s li path n content w w'"
    by auto
  then obtain t where t: "fs w' = (fs w)(path \<mapsto> \<lparr>f_content = content, f_isdir = False, f_mtime = t\<rparr>)"
    unfolding blob_delivered_def by blast
  from d obtain t' src blob raw where b: "get_blob E t' src (blob_request li) = Inr (blob, n)"
    and c: "layer_checked s li blob raw content" unfolding blob_delivered_def by blast
  from c obtain k rest where rest: "body_after blob k = raw @ rest" unfolding layer_checked_def by blast
  have sums: "hex_encode (sha256 raw) = split_on (CHR '':'') (BlobID li) ! 1"
    "hex_encode (sha256 content) = DiffID li" "\<not> is_gzip_layer li \<longrightarrow> content = raw \<and> rest = [] \<and> finite_body blob"
    using c assms(3) rest by (auto simp: layer_checked_def check_check_sum_def Let_def split: if_splits)
  have "Size li = - 1 \<or> Size li = n" "fs w path = None"
    using d assms(3) by (auto simp: blob_delivered_def validate_layer_size_def is_v1_image_def split: if_splits)
  moreover have "\<exists>t src blob raw k rest. get_blob E t src (blob_request li) = Inr (blob, n) \<and>
       body_after blob k = raw @ rest \<and>
       hex_encode (sha256 raw) = split_on (CHR '':'') (BlobID li) ! 1 \<and>
       (\<not> is_gzip_layer li \<longrightarrow> content = raw \<and> rest = [] \<and> finite_body blob)"
    using b rest sums by blast
  ultimately show ?thesis using t sums(2)
    by (intro exI [of _ "\<lparr>f_content = content, f_isdir = False, f_mtime = t\<rparr>"]) simp
qed

theorem Blob_delivers_verified_content_witness:
  "\<exists>path s' w' f. Blob (honest_env [1, 2, 3]) (sample_layer [1, 2, 3]) (open_source 3, sample_world) =
       (Val (Inr (path, 3)), (s', w')) \<and>
     fs w' = [path \<mapsto> f] \<and> hex_encode (sha256 (f_content f)) = hex_encode (sha256 [1, 2, 3])"
proof -
  obtain path s' w' where b: "Blob (honest_env [1, 2, 3]) (sample_layer [1, 2, 3]) (open_source 3, sample_world) =
      (Val (Inr (path, 3)), (s', w'))"
    using sample_blob [of "[1, 2, 3]" 3 sample_world] by auto
  from Blob_delivers_verified_content [OF b] obtain f where
    "fs w' = [path \<mapsto> f]" "hex_encode (sha256 (f_content f)) = hex_encode (sha256 [1, 2, 3])" by auto
  with b show ?thesis by blast
qed

lemma sint_quota_left:
  fixes quota :: int64
  assumes "int (length content) \<le> sint quota"
  shows "sint (quota - of_nat (length content)) = sint quota - int (length content)"
proof -
  have "int (length content) < 2 ^ 63" using assms sint_range64(2) [of quota] by simp
  then show ?thesis
    using assms sint_range64 [of quota] by (subst sint_sub64) (simp_all add: sint_of_nat64)
qed

lemma Blob_quota:
  assumes "Blob E li (s, w) = (Val (Inr (path, n)), (s', w'))" "wf_world w"
    and "\<not> skipImageQuotaValidation s" "0 \<le> sint (remainingImageQuota s)"
  shows "\<exists>f. fs w' path = Some f \<and>
    sint (remainingImageQuota s') = sint (remainingImageQuota s) - int (length (f_content f)) \<and>
    0 \<le> sint (remainingImageQuota s')"
proof -
  from Blob_spec [OF assms(1,2)] obtain content where d: "blob_delivered E s li path n content w w'"
    and q: "remainingImageQuota s' = remainingImageQuota s - of_nat (length content)" by auto
  then obtain t where t: "fs w' path = Some \<lparr>f_content = content, f_isdir = False, f_mtime = t\<rparr>"
    by (auto simp: blob_delivered_def)
  have len: "int (length content) \<le> sint (remainingImageQuota s)"
    using d assms(3,4)
    by (auto simp: blob_delivered_def layer_checked_def should_enforce_image_quota_validation_def)
  have "sint (remainingImageQuota s') = sint (remainingImageQuota s) - int (length content)"
    unfolding q by (rule sint_quota_left [OF len])
  with t len show ?thesis by auto
qed

text \<open>
  C23: A call that returns an error has left no trace: the files are those there were (provided
  files can be removed), and no descriptor and no stream stays open; the quota is unchanged.
\<close>

theorem Blob_error_leaves_no_trace:
  assumes "Blob E li (s, w) = (Val (Inl e), (s', w'))" "wf_world w" "removes_files E"
  shows "fs w' = fs w \<and> fds w' = fds w \<and> open_blobs w' = open_blobs w \<and>
    remainingImageQuota s' = remainingImageQuota s"
  using Blob_spec [OF assms(1,2)] assms(3) by (simp add: blob_frame_def)

theorem Blob_error_leaves_no_trace_witness:
  "\<exists>e s' w'. Blob (honest_env [1, 2, 3]) (sample_layer [1, 2, 3]) (open_source 2, sample_world) =
       (Val (Inl e), (s', w')) \<and> fs w' = Map.empty \<and> fds w' = Map.empty \<and> open_blobs w' = 0 \<and>
     remainingImageQuota s' = 2"
proof -
  obtain s' w' where b: "Blob (honest_env [1, 2, 3]) (sample_layer [1, 2, 3]) (open_source 2, sample_world) =
      (Val (Inl (ErrWrap ''writing blob to tempfile'' (ErrNew ''uncompressed layer size exceeds quota''))), (s', w'))"
    using Blob_rejects [OF sample_served [of sample_world "[1, 2, 3]" 2] sample_yields]
    by (auto simp: should_enforce_image_quota_validation_def)
  with Blob_error_leaves_no_trace [OF b] show ?thesis by simp
qed

section \<open>Accepting and rejecting\<close>

text \<open>
  C9: A layer that is served completely, by the first of three attempts that is answered, compressed or not, has the digests that the manifest
  and the configuration name and fits the quota, if one is enforced, is delivered: the file has
  the content of the layer, decompressed where its media type says so, and its length is taken
  off the quota.
\<close>

theorem Blob_accepts_valid_layer:
  assumes "served E s li w blob n" "layer_yields E li blob content ErrEOF"
    and "digests_match li (concat (bl_chunks blob)) content" "within_quota s content"
  shows "\<exists>w'. Blob E li (s, w) = (Val (Inr (temp_path E s li w, n)),
      (s\<lparr>remainingImageQuota := remainingImageQuota s - of_nat (length content)\<rparr>, w')) \<and>
    file_bytes (temp_path E s li w) w' = content"
  using assms by (rule Blob_accepts)

text \<open>The instance is a compressed layer.\<close>

lemma sample_gzip_served:
  "served (honest_env c) (open_source limit) (sample_gzip_layer c) sample_world (sample_stream c) (of_nat (length c))"
  "layer_yields (honest_env c) (sample_gzip_layer c) (sample_stream c) c ErrEOF"
  "digests_match (sample_gzip_layer c) c c"
proof -
  have "str_contains ''application/vnd.oci.image.layer.v1.tar+gzip'' ''gzip''" by code_simp
  then have gzip: "is_gzip_layer (sample_gzip_layer c)"
    by (simp only: is_gzip_layer_def sample_gzip_media_type simp_thms)
  show "served (honest_env c) (open_source limit) (sample_gzip_layer c) sample_world (sample_stream c) (of_nat (length c))"
    using sample_served [of sample_world c limit]
    by (simp add: served_def blob_replies_def blob_answers_3 sample_gzip_layer_def validate_layer_size_def)
  show "layer_yields (honest_env c) (sample_gzip_layer c) (sample_stream c) c ErrEOF"
    using passing_decodes [OF honest_passes] gzip by (simp only: layer_yields_def if_True)
  show "digests_match (sample_gzip_layer c) c c"
    using sample_digests [of c] by (simp add: digests_match_def sample_gzip_layer_def)
qed

theorem Blob_accepts_valid_layer_witness:
  "\<exists>path w'. Blob (honest_env [1, 2, 3]) (sample_gzip_layer [1, 2, 3]) (open_source 3, sample_world) =
     (Val (Inr (path, 3)), ((open_source 3)\<lparr>remainingImageQuota := 0\<rparr>, w')) \<and> file_bytes path w' = [1, 2, 3]"
  using Blob_accepts_valid_layer [OF sample_gzip_served(1,2) [of "[1, 2, 3]"], of 3] sample_gzip_served(3) [of "[1, 2, 3]"]
  by (auto simp: sample_quota)

text \<open>
  C12: A layer whose content, decompressed where its media type says so, is larger than the
  quota that is left is rejected with the error of the quota, whatever its stream ends with and
  whatever its digests are; the source is left as it was.
\<close>

theorem Blob_rejects_large_layer:
  assumes "served E s li w blob n" "layer_yields E li blob content final"
    and "should_enforce_image_quota_validation s" "- 1 \<le> sint (remainingImageQuota s)"
      "sint (remainingImageQuota s) < int (length content)"
  shows "\<exists>w'. Blob E li (s, w) =
    (Val (Inl (ErrWrap ''writing blob to tempfile'' (ErrNew ''uncompressed layer size exceeds quota''))), (s, w'))"
  using assms by (rule Blob_rejects)

theorem Blob_rejects_large_layer_witness:
  "\<exists>w'. Blob (honest_env [1, 2, 3]) (sample_gzip_layer [1, 2, 3]) (open_source 2, sample_world) =
     (Val (Inl (ErrWrap ''writing blob to tempfile'' (ErrNew ''uncompressed layer size exceeds quota''))), (open_source 2, w'))"
  using Blob_rejects_large_layer [OF sample_gzip_served(1,2) [of "[1, 2, 3]"], of 2]
  by (simp add: should_enforce_image_quota_validation_def)

text \<open>
  The library refuses to fetch a blob whose digest is not valid (so one without a colon), unless
  the manifest gives the layer external URLs, which it tries first.
\<close>

definition validates_digests :: "'z env \<Rightarrow> bool" where
  "validates_digests E \<longleftrightarrow>
     (\<forall>t src info b. get_blob E t src info = Inr b \<longrightarrow> bi_URLs info = [] \<longrightarrow> CHR '':'' \<in> set (bi_Digest info))"

lemma served_answer: "served E s li w blob n \<Longrightarrow> \<exists>t src. get_blob E t src (blob_request li) = Inr (blob, n)"
  by (auto simp: served_def blob_replies_def blob_answers_3 split: option.splits sum.splits)

text \<open>
  C38: With a library that validates digests, a blob ID without a colon gets past the download
  only when the manifest gives the layer external URLs; then the call panics once the layer has
  been downloaded, and the panic leaves the temporary file behind, with the content of the layer:
  the deferred function removes it only when the error variable is set.
\<close>

theorem Blob_panics_without_colon:
  assumes "validates_digests E" "served E s li w blob n" "layer_yields E li blob content ErrEOF"
    and "CHR '':'' \<notin> set (BlobID li)" "within_quota s content"
  shows "URLs li \<noteq> [] \<and> (\<exists>m w'. Blob E li (s, w) = (Panic m, (s, w')) \<and> fs w (temp_path E s li w) = None \<and>
    fs w' (temp_path E s li w) \<noteq> None \<and> file_bytes (temp_path E s li w) w' = content)"
proof
  from served_answer [OF assms(2)] assms(1,4) show "URLs li \<noteq> []"
    unfolding validates_digests_def by (force simp: blob_request_def)
  show "\<exists>m w'. Blob E li (s, w) = (Panic m, (s, w')) \<and> fs w (temp_path E s li w) = None \<and>
    fs w' (temp_path E s li w) \<noteq> None \<and> file_bytes (temp_path E s li w) w' = content"
  proof (rule Blob_served [OF assms(2)])
    fix fd w1
    let ?name = "temp_path E s li w"
    assume wr: "writing E fd ?name w1" and empty: "file_bytes ?name w1 = []"
      and run: "\<And>r w2. write_layer E s li fd blob w1 = (r, w2) \<Longrightarrow> r \<noteq> Diverges \<Longrightarrow>
         Blob E li (s, w) = blob_answer s ?name n r (close_blob (finish_temp_file E fd ?name r w2))"
    from write_layer_copied [OF assms(3) wr assms(5)] obtain w2 where
      wl: "write_layer E s li fd blob w1 = (Panic ''index out of range'', w2)" "file_bytes ?name w2 = content"
      using assms(4) empty by (auto simp: check_layer_def split_on_no_sep index_at_def)
    obtain f g where f: "fds w1 fd = Some f" "of_name f = ?name" "fs w1 ?name = Some g"
      using wr by (auto simp: writing_def split: option.splits)
    from write_layer_frame [OF wl(1) f(1)] f have "fs w2 ?name \<noteq> None"
      by (auto simp: only_file_def)
    moreover have "fs w ?name = None" using assms(2) by (simp add: served_def)
    ultimately show ?thesis
      using run [OF wl(1)] wl(2) by (simp add: blob_answer_def finish_temp_file_bytes) (simp add: finish_temp_file_def close_blob_def)
  qed
qed

text \<open>The instance is a layer with an external URL, from a library that validates digests.\<close>

definition validating_env :: "bytes \<Rightarrow> unit env" where
  "validating_env c = (honest_env c)\<lparr>get_blob := (\<lambda>t src info.
     if bi_URLs info = [] \<and> CHR '':'' \<notin> set (bi_Digest info) then Inl (ErrExt ''invalid checksum digest format'')
     else get_blob (honest_env c) t src info)\<rparr>"

definition foreign_layer :: layer_info where
  "foreign_layer = (sample_layer [1])\<lparr>BlobID := ''abc'', URLs := [''https://mirror/layer'']\<rparr>"

theorem Blob_panics_without_colon_witness:
  "\<exists>m w'. Blob (validating_env [1]) foreign_layer (open_source 3, sample_world) = (Panic m, (open_source 3, w')) \<and>
     fs w' \<noteq> Map.empty"
proof -
  have "validates_digests (validating_env [1])"
    by (auto simp: validates_digests_def validating_env_def split: if_splits)
  moreover have "served (validating_env [1]) (open_source 3) foreign_layer sample_world (sample_stream [1]) 1"
    by (simp add: served_def blob_replies_def blob_answers_3 validate_layer_size_def is_v1_image_def sample_layer_def
        foreign_layer_def validating_env_def blob_request_def)
  moreover have "layer_yields (validating_env [1]) foreign_layer (sample_stream [1]) [1] ErrEOF"
    by (simp add: layer_yields_def is_gzip_layer_def sample_layer_def has_prefix_def foreign_layer_def sample_stream_def
        finite_body_def)
  moreover have "CHR '':'' \<notin> set (BlobID foreign_layer)" by (simp add: foreign_layer_def)
  ultimately show ?thesis
    using Blob_panics_without_colon [of "validating_env [1]" "open_source 3" foreign_layer
        sample_world "sample_stream [1]" 1 "[1]"]
    by (fastforce simp: sample_quota)
qed

end
