(* ===== verification/Layer_Runs.thy ===== *)
theory Layer_Runs
  imports Layer_Delivery
begin

text \<open>
  The life of a layer source: the calls of \<^verbatim>\<open>Manifest\<close> and \<^verbatim>\<open>Blob\<close> that its owner
  makes, in any order, with what others do to the world in between, up to \<^verbatim>\<open>Close\<close>.
\<close>

section \<open>Runs\<close>

text \<open>
  \<open>ls_run E sw files sw'\<close>: from \<open>sw\<close> the source can get to \<open>sw'\<close>, having delivered blobs with
  the contents \<open>files\<close>, in this order.
\<close>

inductive ls_run :: "'z env \<Rightarrow> ls_world \<Rightarrow> bytes list \<Rightarrow> ls_world \<Rightarrow> bool" for E sw where
  start: "ls_run E sw [] sw"
| manifest: "ls_run E sw files sw1 \<Longrightarrow> Manifest E sw1 = (Val r, sw2) \<Longrightarrow> ls_run E sw files sw2"
| delivered: "ls_run E sw files sw1 \<Longrightarrow> Blob E li sw1 = (Val (Inr (path, n)), (s2, w2)) \<Longrightarrow>
    fs w2 path = Some f \<Longrightarrow> ls_run E sw (files @ [f_content f]) (s2, w2)"
| failed: "ls_run E sw files sw1 \<Longrightarrow> Blob E li sw1 = (Val (Inl e), sw2) \<Longrightarrow> ls_run E sw files sw2"
| others: "ls_run E sw files (s1, w1) \<Longrightarrow> wf_world w2 \<Longrightarrow> open_sources w2 = open_sources w1 \<Longrightarrow>
    ls_run E sw files (s1, w2)"

inductive_cases ls_runE: "ls_run E sw files sw'"
inductive_simps ls_run_start: "ls_run E sw files sw"

lemma blob_frame_wf: "blob_frame sw sw' \<Longrightarrow> wf_world (snd sw) \<Longrightarrow> wf_world (snd sw')"
  by (simp add: blob_frame_def wf_world_def)

lemma source_step_wf: "source_step sw sw' \<Longrightarrow> wf_world (snd sw) \<Longrightarrow> wf_world (snd sw')"
  by (auto simp: source_step_def intro: quiet_wf)

lemma Blob_frame:
  assumes "Blob E li sw = (Val r, sw')" "wf_world (snd sw)"
  shows "blob_frame sw sw'"
proof -
  obtain s w s' w' where "sw = (s, w)" "sw' = (s', w')" by fastforce
  with Blob_spec [of E li s w "Val r" s' w'] assms show ?thesis by simp
qed

lemma same_settings_iff:
  "same_settings s s' \<longleftrightarrow> skipOCILayerValidation s' = skipOCILayerValidation s \<and>
     systemContext s' = systemContext s \<and> imageURL s' = imageURL s \<and>
     skipImageQuotaValidation s' = skipImageQuotaValidation s"
  by (cases s; cases s') (auto simp: same_settings_def)

lemma same_settings_trans: "same_settings a b \<Longrightarrow> same_settings b c \<Longrightarrow> same_settings a c"
  by (simp add: same_settings_iff)

lemma same_settings_refl: "same_settings a a"
  by (simp add: same_settings_iff)

lemma source_step_settings: "source_step sw sw' \<Longrightarrow> same_settings (fst sw) (fst sw')"
  using source_step_blob_frame by (auto simp: blob_frame_def)

text \<open>What holds along every run.\<close>

lemma ls_run_tracked:
  assumes "ls_run E sw files sw'" "wf_world (snd sw)" "source_tracked base sw"
  shows "wf_world (snd sw') \<and> source_tracked base sw' \<and> same_settings (fst sw) (fst sw')"
  using assms
proof induction
  case start
  then show ?case by (simp add: same_settings_refl)
next
  case (manifest files sw1 r sw2)
  note step = Manifest_step [OF manifest.hyps(2)]
  from source_step_settings [OF step] source_step_wf [OF step] step manifest show ?case
    by (auto intro: same_settings_trans simp: source_step_def)
next
  case (delivered files sw1 li path n s2 w2 f)
  have frame: "blob_frame sw1 (s2, w2)"
    using Blob_frame [OF delivered.hyps(2)] delivered by simp
  from blob_frame_wf [OF frame] frame delivered show ?case
    by (auto intro: same_settings_trans simp: blob_frame_def)
next
  case (failed files sw1 li e sw2)
  have frame: "blob_frame sw1 sw2"
    using Blob_frame [OF failed.hyps(2)] failed by simp
  from blob_frame_wf [OF frame] frame failed show ?case
    by (auto intro: same_settings_trans simp: blob_frame_def)
next
  case (others files s1 w1 w2)
  then show ?case by (simp add: source_tracked_def)
qed

section \<open>The image source\<close>

text \<open>
  C24: However often a source is asked for the manifest and for blobs, and whatever fails, it
  holds at most one image source, and closing it gives that one back.
\<close>

theorem image_source_is_a_singleton:
  assumes "ls_run E (new_layer_source ctx skip skipQuota limit u, w) files (s', w')" "wf_world w"
  shows "open_sources w' \<le> Suc (open_sources w) \<and>
    (\<exists>err w''. close_source E (s', w') = (err, (s', w'')) \<and> open_sources w'' = open_sources w)"
proof -
  have "source_tracked (open_sources w) (s', w')"
    using ls_run_tracked [OF assms(1)] assms(2) by (simp add: source_tracked_def new_layer_source_def)
  then show ?thesis
    by (auto simp: source_tracked_def close_source_def split: option.splits)
qed

section \<open>The quota\<close>

text \<open>
  C4: The quota is an account of the whole image: along every run of a source that enforces
  it, what is left of the disk limit and the sizes of all files delivered add up to the limit,
  and what is left is never negative; so the layers of an image together never exceed it.
\<close>

theorem quota_accounts_for_all_layers:
  assumes "ls_run E (new_layer_source ctx skip False limit u, w) files (s', w')" "wf_world w" "0 \<le> sint limit"
  shows "int (sum_list (map length files)) + sint (remainingImageQuota s') = sint limit \<and>
    0 \<le> sint (remainingImageQuota s')"
proof -
  let ?s = "new_layer_source ctx skip False limit u"
  have "int (sum_list (map length files)) + sint (remainingImageQuota (fst sw')) = sint limit \<and>
      0 \<le> sint (remainingImageQuota (fst sw'))"
    if "ls_run E (?s, w) files sw'" for files sw'
    using that
  proof induction
    case start
    with assms(3) show ?case by (simp add: new_layer_source_def)
  next
    case (manifest files sw1 r sw2)
    from source_step_blob_frame [OF Manifest_step [OF manifest.hyps(2)]] manifest show ?case by simp
  next
    case (delivered files sw1 li path n s2 w2 f)
    obtain s1 w1 where sw1: "sw1 = (s1, w1)" by fastforce
    have "wf_world w1" "\<not> skipImageQuotaValidation s1"
      using ls_run_tracked [OF delivered.hyps(1), of "open_sources w"] assms(2) sw1
      by (auto simp: source_tracked_def new_layer_source_def same_settings_iff)
    with Blob_quota [of E li s1 w1 path n s2 w2] delivered sw1 show ?case by auto
  next
    case (failed files sw1 li e sw2)
    obtain s1 w1 s2 w2 where sw: "sw1 = (s1, w1)" "sw2 = (s2, w2)" by fastforce
    have "wf_world w1"
      using ls_run_tracked [OF failed.hyps(1), of "open_sources w"] assms(2) sw
      by (auto simp: source_tracked_def new_layer_source_def)
    with Blob_spec [of E li s1 w1 "Val (Inl e)" s2 w2] failed sw show ?case by simp
  next
    case (others files s1 w1 w2)
    then show ?case by simp
  qed
  from this [OF assms(1)] show ?thesis by simp
qed

section \<open>A run\<close>

lemma sample_run:
  assumes "int (length c) \<le> sint limit"
  shows "\<exists>f s' w'. ls_run (honest_env c) (sample_source limit, sample_world) [f] (s', w')"
proof -
  let ?w = "sample_world\<lparr>tick := 4, open_sources := 1\<rparr>"
  have run: "ls_run (honest_env c) (sample_source limit, sample_world) [] (open_source limit, ?w)"
    by (rule ls_run.manifest [OF ls_run.start sample_manifest])
  obtain path s' w' where b: "Blob (honest_env c) (sample_layer c) (open_source limit, ?w) =
      (Val (Inr (path, of_nat (length c))), (s', w'))"
    using sample_blob [OF assms, of ?w] by auto
  have "wf_world ?w" by (simp add: wf_world_def)
  from Blob_spec [OF b this] obtain f where "fs w' path = Some f"
    by (auto simp: blob_delivered_def)
  with ls_run.delivered [OF run b] show ?thesis by auto
qed

theorem image_source_is_a_singleton_witness:
  "\<exists>f s' w'. ls_run (honest_env [1, 2]) (sample_source 5, sample_world) [f] (s', w') \<and>
     open_sources w' \<le> 1 \<and> open_sources (snd (snd (close_source (honest_env [1, 2]) (s', w')))) = 0"
proof -
  obtain f s' w' where run: "ls_run (honest_env [1, 2]) (sample_source 5, sample_world) [f] (s', w')"
    using sample_run [of "[1, 2]" 5] by auto
  have "open_sources w' \<le> 1 \<and> open_sources (snd (snd (close_source (honest_env [1, 2]) (s', w')))) = 0"
    using image_source_is_a_singleton [OF run [unfolded sample_source_def]] by auto
  with run show ?thesis by blast
qed

theorem quota_accounts_for_all_layers_witness:
  "\<exists>f s' w'. ls_run (honest_env [1, 2]) (sample_source 5, sample_world) [f] (s', w') \<and>
     int (length f) + sint (remainingImageQuota s') = 5"
proof -
  obtain f s' w' where run: "ls_run (honest_env [1, 2]) (sample_source 5, sample_world) [f] (s', w')"
    using sample_run [of "[1, 2]" 5] by auto
  with quota_accounts_for_all_layers [OF run [unfolded sample_source_def]] show ?thesis by auto
qed

end
