(* ===== verification/Blob_Reader.thy ===== *)
theory Blob_Reader
  imports Os_World
begin

text \<open>
  \<^verbatim>\<open>fetcher/layerfetcher/blob_reader.go\<close>: a reader of a temporary blob file that removes the
  file when it is closed.
\<close>

record blob_reader =
  br_reader :: nat
  br_filePath :: string

definition new_blob_reader :: "'z env \<Rightarrow> string \<Rightarrow> world \<Rightarrow> blob_reader res \<times> world" where
  "new_blob_reader E blobPath w =
     (case os_open E blobPath w of
        (Inl e, w) \<Rightarrow> (Inl (ErrWrap ''failed to open blob'' e), w)
      | (Inr fd, w) \<Rightarrow> (Inr \<lparr>br_reader = fd, br_filePath = blobPath\<rparr>, w))"

definition blob_reader_read :: "'z env \<Rightarrow> blob_reader \<Rightarrow> world reader" where
  "blob_reader_read E d n w = os_read E (br_reader d) n w"

text \<open>The error of closing the file is ignored; the result is that of removing it.\<close>

definition blob_reader_close :: "'z env \<Rightarrow> blob_reader \<Rightarrow> world \<Rightarrow> error option \<times> world" where
  "blob_reader_close E d w = os_remove E (br_filePath d) (snd (os_close E (br_reader d) w))"

end
