(* ===== verification/Ondemand_Reader.thy ===== *)
theory Ondemand_Reader
  imports Go_IO
begin

text \<open>
  \<^verbatim>\<open>imagepuller/ondemand/reader.go\<close>: a reader whose stream is created by its first
  \<^verbatim>\<open>Read\<close>.  The object's state is the stream, once there is one; \<open>'r\<close> are the handles of
  streams, \<open>'w\<close> the state that creating, reading and closing them act on.
\<close>

type_synonym ('r, 'w) ondemand = "'r option \<times> 'w"

definition ondemand_read :: "('w \<Rightarrow> 'r res outcome \<times> 'w) \<Rightarrow> ('r \<Rightarrow> 'w reader) \<Rightarrow> ('r, 'w) ondemand reader" where
  "ondemand_read create rd n dw =
     (case dw of
        (Some reader, w) \<Rightarrow> obind (rd reader n w) (\<lambda>r w. (Val r, (Some reader, w))) (\<lambda>w. (Some reader, w))
      | (None, w) \<Rightarrow>
          obind (create w)
            (\<lambda>c w. case c of
                Inl e \<Rightarrow> (Val ([], Some e), (None, w))
              | Inr reader \<Rightarrow>
                  obind (rd reader n w) (\<lambda>r w. (Val r, (Some reader, w))) (\<lambda>w. (Some reader, w)))
            (\<lambda>w. (None, w)))"

definition ondemand_close :: "('r \<Rightarrow> 'w \<Rightarrow> error option \<times> 'w) \<Rightarrow> ('r, 'w) ondemand \<Rightarrow> error option \<times> ('r, 'w) ondemand" where
  "ondemand_close close dw =
     (case dw of
        (None, w) \<Rightarrow> (None, (None, w))
      | (Some reader, w) \<Rightarrow> (case close reader w of (e, w) \<Rightarrow> (e, (Some reader, w))))"

section \<open>Reading on demand\<close>

text \<open>
  Once the stream is there, the on-demand reader is the stream's reader: whatever a client
  reads, it runs as it would on a stream opened beforehand.
\<close>

lemma ondemand_read_open:
  "ondemand_read create rd n (Some h, w) = (case rd h n w of (r, w') \<Rightarrow> (r, (Some h, w')))"
  by (cases "rd h n w"; cases "fst (rd h n w)") (auto simp: ondemand_read_def)

lemma run_ondemand_open:
  "run_client (ondemand_read create rd) c (Some h, w) =
     (case run_client (rd h) c w of (r, w') \<Rightarrow> (r, (Some h, w')))"
  using run_client_simulation [where g = "\<lambda>w. (Some h, w)" and rd' = "ondemand_read create rd" and rd = "rd h"]
  by (simp add: ondemand_read_open)

lemma run_ondemand_first:
  "run_client (ondemand_read create rd) (Read_then n k) (None, w) =
     (case create w of
        (Val (Inr h), w1) \<Rightarrow> (case run_client (rd h) (Read_then n k) w1 of (r, w') \<Rightarrow> (r, (Some h, w')))
      | (Val (Inl e), w1) \<Rightarrow> run_client (ondemand_read create rd) (k ([], Some e)) (None, w1)
      | (Panic m, w1) \<Rightarrow> (Panic m, (None, w1))
      | (Diverges, w1) \<Rightarrow> (Diverges, (None, w1)))"
proof -
  obtain x w1 where c: "create w = (x, w1)" by fastforce
  show ?thesis
  proof (cases "\<exists>h. x = Val (Inr h)")
    case True
    then obtain h where x: "x = Val (Inr h)" by blast
    have "ondemand_read create rd n (None, w) = ondemand_read create rd n (Some h, w1)"
      using c x by (simp add: ondemand_read_def)
    then show ?thesis
      using run_ondemand_open [of create rd "Read_then n k" h w1] c x by simp
  next
    case False
    with c show ?thesis by (auto simp: ondemand_read_def split: outcome.splits sum.splits)
  qed
qed

text \<open>
  C27: A client's first read creates the stream, and from then on the client runs exactly as
  on that stream; when the creation fails the client gets the error, and the next read tries
  again.
\<close>

theorem ondemand_reader_is_lazy:
  "run_client (ondemand_read create rd) (Read_then n k) (None, w) =
     (case create w of
        (Val (Inr h), w1) \<Rightarrow> (case run_client (rd h) (Read_then n k) w1 of (r, w') \<Rightarrow> (r, (Some h, w')))
      | (Val (Inl e), w1) \<Rightarrow> run_client (ondemand_read create rd) (k ([], Some e)) (None, w1)
      | (Panic m, w1) \<Rightarrow> (Panic m, (None, w1))
      | (Diverges, w1) \<Rightarrow> (Diverges, (None, w1)))"
  by (rule run_ondemand_first)

end
