(* ===== verification/Image_Puller.thy ===== *)
theory Image_Puller
  imports Puller_Types Ondemand_Reader
begin

text \<open>
  \<^verbatim>\<open>imagepuller/image_puller.go\<close>: the image puller, over any fetcher and any volume driver.
  The state of a pull is the fetcher's state and the driver's state.
\<close>

definition chain_ids :: "layer_info list \<Rightarrow> string list" where
  "chain_ids layerInfos = map ChainID layerInfos"

definition layers_size :: "layer_info list \<Rightarrow> int64" where
  "layers_size layerInfos = fold (\<lambda>li totalSize. totalSize + Size li) layerInfos 0"

definition quota_exceeded :: "layer_info list \<Rightarrow> image_spec \<Rightarrow> error option" where
  "quota_exceeded layerInfos spec =
     (if ExcludeImageFromQuota spec \<or> DiskLimit spec = 0 then None
      else
        (let totalSize = layers_size layerInfos
         in if sint (DiskLimit spec) < sint totalSize
            then Some (ErrNew (''layers exceed disk quota '' @ show_int64 totalSize @ ''/'' @
                   show_int64 (DiskLimit spec) @ '' bytes''))
            else None))"

text \<open>The closure that opens the stream of a layer on demand.\<close>

definition open_layer :: "('w, 'r) fetcher \<Rightarrow> layer_info \<Rightarrow> 'w \<Rightarrow> 'r res outcome \<times> 'w" where
  "open_layer F li w =
     attempt (StreamBlob F li w) (ErrWrap (''opening stream for blob `'' @ BlobID li @ ''`''))
       (\<lambda>(stream, blobSize) w. (Val (Inr stream), w))"

text \<open>
  \<^verbatim>\<open>buildLayer\<close>: the driver unpacks from the on-demand reader, which is closed afterwards,
  also when the driver panics.
\<close>

definition build_layer :: "('w, 'r) fetcher \<Rightarrow> 'd unpack \<Rightarrow> layer_info \<Rightarrow> string list \<Rightarrow> 'w \<times> 'd \<Rightarrow>
    int64 res outcome \<times> ('w \<times> 'd)" where
  "build_layer F unpack li parentChainIDs wd =
     (case wd of (w, d) \<Rightarrow>
        (case run_client (ondemand_read (open_layer F li) (ReadStream F))
                (unpack (ChainID li) parentChainIDs d) (None, w) of
           (Val (Diverges, d'), dw) \<Rightarrow> (Diverges, (snd dw, d'))
         | (Val (r, d'), dw) \<Rightarrow> (r, (snd (snd (ondemand_close (CloseStream F) dw)), d'))
         | (Panic m, dw) \<Rightarrow> (Panic m, (snd (snd (ondemand_close (CloseStream F) dw)), d))
         | (Diverges, dw) \<Rightarrow> (Diverges, (snd dw, d))))"

lemma build_layer_Val:
  "build_layer F unpack li ps (w, d) = (Val r, (w', d')) \<longleftrightarrow>
     (\<exists>dw. run_client (ondemand_read (open_layer F li) (ReadStream F)) (unpack (ChainID li) ps d) (None, w) =
        (Val (Val r, d'), dw) \<and> w' = snd (snd (ondemand_close (CloseStream F) dw)))"
  by (auto simp: build_layer_def split: prod.splits outcome.splits)

text \<open>The loop of \<^verbatim>\<open>buildLayers\<close>: \<open>below\<close> are the layers before the current one.\<close>

primrec build_layers_from :: "('w, 'r) fetcher \<Rightarrow> 'd unpack \<Rightarrow> layer_info list \<Rightarrow> int64 \<Rightarrow> layer_info list \<Rightarrow>
    'w \<times> 'd \<Rightarrow> int64 res outcome \<times> ('w \<times> 'd)" where
  "build_layers_from F unpack below totalBytes [] wd = (Val (Inr totalBytes), wd)"
| "build_layers_from F unpack below totalBytes (li # lis) wd =
     attempt (build_layer F unpack li (chain_ids below) wd) (\<lambda>e. e)
       (\<lambda>builtBytes wd. build_layers_from F unpack (below @ [li]) (totalBytes + builtBytes) lis wd)"

definition build_layers :: "('w, 'r) fetcher \<Rightarrow> 'd unpack \<Rightarrow> layer_info list \<Rightarrow> 'w \<times> 'd \<Rightarrow>
    int64 res outcome \<times> ('w \<times> 'd)" where
  "build_layers F unpack layerInfos wd = build_layers_from F unpack [] 0 layerInfos wd"

definition pull :: "('w, 'r) fetcher \<Rightarrow> 'd unpack \<Rightarrow> image_spec \<Rightarrow> 'w \<times> 'd \<Rightarrow>
    pulled_image res outcome \<times> ('w \<times> 'd)" where
  "pull F unpack spec wd =
     (case wd of (w, d) \<Rightarrow>
        attempt (obind (ImageInfo F w) (\<lambda>r w. (Val r, (w, d))) (\<lambda>w. (w, d)))
          (ErrWrap ''fetching list of layer infos'') (\<lambda>imageInfo wd.
            (case quota_exceeded (LayerInfos imageInfo) spec of
               Some e \<Rightarrow> (Val (Inl e), wd)
             | None \<Rightarrow>
                 attempt (build_layers F unpack (LayerInfos imageInfo) wd) (\<lambda>e. e) (\<lambda>imageSize wd.
                   (Val (Inr \<lparr>pi_Config = ii_Config imageInfo,
                         ChainIDs = chain_ids (LayerInfos imageInfo), pi_Size = imageSize\<rparr>), wd)))))"

text \<open>A puller is made of a fetcher and a volume driver; its method is \<open>Pull\<close>.\<close>

definition new_image_puller :: "('w, 'r) fetcher \<Rightarrow> 'd unpack \<Rightarrow> image_spec \<Rightarrow> 'w \<times> 'd \<Rightarrow>
    pulled_image res outcome \<times> ('w \<times> 'd)" where
  [simp]: "new_image_puller F unpack = pull F unpack"

section \<open>The contract of a fetcher\<close>

text \<open>
  What the puller relies on: a fetcher is \<open>idle\<close>, or one of its streams is open.  Opening a
  stream leaves it idle when it fails, reading keeps the stream open, closing the stream makes
  it idle again; an idle fetcher can be closed for good.
\<close>

text \<open>The on-demand reader over such a fetcher.\<close>

definition ondemand_state :: "('w \<Rightarrow> bool) \<Rightarrow> ('r \<Rightarrow> 'w \<Rightarrow> bool) \<Rightarrow> 'r option \<times> 'w \<Rightarrow> bool" where
  "ondemand_state idle streaming dw \<longleftrightarrow> (case dw of (None, w) \<Rightarrow> idle w | (Some h, w) \<Rightarrow> streaming h w)"

locale fetcher_contract =
  fixes F :: "('w, 'r) fetcher"
    and idle :: "'w \<Rightarrow> bool"
    and streaming :: "'r \<Rightarrow> 'w \<Rightarrow> bool"
    and closed :: "'w \<Rightarrow> bool"
  assumes image_info_idle: "idle w \<Longrightarrow> ImageInfo F w = (Val r, w') \<Longrightarrow> idle w'"
    and stream_blob_err: "idle w \<Longrightarrow> StreamBlob F li w = (Val (Inl e), w') \<Longrightarrow> idle w'"
    and stream_blob_ok: "idle w \<Longrightarrow> StreamBlob F li w = (Val (Inr (h, sz)), w') \<Longrightarrow> streaming h w'"
    and read_streaming: "streaming h w \<Longrightarrow> ReadStream F h n w = (Val x, w') \<Longrightarrow> streaming h w'"
    and close_idle: "streaming h w \<Longrightarrow> CloseStream F h w = (err, w') \<Longrightarrow> idle w'"
    and close_closed: "idle w \<Longrightarrow> CloseFetcher F w = (err, w') \<Longrightarrow> closed w'"
begin

lemma open_layer_state:
  assumes "idle w" "open_layer F li w = (Val c, w')"
  shows "case c of Inl e \<Rightarrow> idle w' | Inr h \<Rightarrow> streaming h w'"
  using assms
  by (auto simp: open_layer_def call_returns intro: stream_blob_err stream_blob_ok)

lemma ondemand_state_read:
  assumes "ondemand_state idle streaming dw"
    and read: "ondemand_read (open_layer F li) (ReadStream F) n dw = (Val r, dw')"
  shows "ondemand_state idle streaming dw'"
proof (cases dw)
  case (Pair h w)
  show ?thesis
  proof (cases h)
    case None
    with read Pair obtain c w1 where c: "open_layer F li w = (Val c, w1)"
      by (auto simp: ondemand_read_def call_returns)
    with assms(1) Pair None have st: "case c of Inl e \<Rightarrow> idle w1 | Inr h \<Rightarrow> streaming h w1"
      by (intro open_layer_state) (auto simp: ondemand_state_def)
    show ?thesis
      using st read Pair None c
      by (cases c) (auto simp: ondemand_state_def ondemand_read_def call_returns intro: read_streaming)
  next
    case (Some g)
    with assms Pair show ?thesis
      by (auto simp: ondemand_state_def ondemand_read_def call_returns intro: read_streaming)
  qed
qed

lemma ondemand_state_close:
  assumes "ondemand_state idle streaming dw" "ondemand_close (CloseStream F) dw = (e, dw')"
  shows "idle (snd dw')"
  using assms
  by (auto simp: ondemand_state_def ondemand_close_def intro: close_idle split: option.splits prod.splits)

lemma build_layer_idle:
  assumes "idle w" "build_layer F unpack li ps (w, d) = (Val r, (w', d'))"
  shows "idle w'"
proof -
  obtain x dw where run: "run_client (ondemand_read (open_layer F li) (ReadStream F))
      (unpack (ChainID li) ps d) (None, w) = (Val x, dw)"
      and w': "w' = snd (snd (ondemand_close (CloseStream F) dw))"
    using assms(2) by (auto simp: build_layer_Val)
  have "ondemand_state idle streaming (None, w)" using assms(1) by (simp add: ondemand_state_def)
  with run have "ondemand_state idle streaming dw"
    by (rule run_client_Val_invariant) (rule ondemand_state_read)
  with w' show ?thesis
    by (cases "ondemand_close (CloseStream F) dw") (auto dest: ondemand_state_close)
qed

lemma build_layers_from_idle:
  assumes "idle (fst wd)" "build_layers_from F unpack below n lis wd = (Val r, wd')"
  shows "idle (fst wd')"
  using assms
proof (induction lis arbitrary: below n wd)
  case (Cons li lis)
  obtain w d where wd: "wd = (w, d)" by fastforce
  obtain x wd1 where b: "build_layer F unpack li (chain_ids below) wd = (Val x, wd1)"
    using Cons.prems(2) by (fastforce simp: call_returns)
  obtain w1 d1 where wd1: "wd1 = (w1, d1)" by fastforce
  have "idle w1"
    by (rule build_layer_idle [OF _ b [unfolded wd wd1]]) (use Cons.prems(1) wd in simp)
  with wd1 have "idle (fst wd1)" by simp
  with Cons b show ?case by (cases x) auto
qed simp

lemma pull_idle:
  assumes "idle w" "pull F unpack spec (w, d) = (Val r, (w', d'))"
  shows "idle w'"
proof -
  obtain x w1 where info: "ImageInfo F w = (Val x, w1)"
    using assms(2) by (auto simp: pull_def call_returns)
  with assms(1) have w1: "idle w1" by (rule image_info_idle)
  show ?thesis
  proof (cases "\<exists>info y wd. x = Inr info \<and> quota_exceeded (LayerInfos info) spec = None")
    case False
    with info assms(2) w1 show ?thesis
      by (cases x) (auto simp: pull_def split: option.splits)
  next
    case True
    then obtain i where i: "x = Inr i" "quota_exceeded (LayerInfos i) spec = None" by blast
    obtain y wd where b: "build_layers_from F unpack [] 0 (LayerInfos i) (w1, d) = (Val y, wd)"
      using assms(2) info i by (auto simp: pull_def build_layers_def call_returns)
    have "idle (fst wd)" using build_layers_from_idle [OF _ b] w1 by simp
    with info assms(2) i b show ?thesis
      by (cases y) (auto simp: pull_def build_layers_def)
  qed
qed

end

section \<open>What the driver is asked to do\<close>

text \<open>
  A driver that also keeps a log of the volumes it has built: layer, parents, size.  Logging is
  invisible to the puller.
\<close>

type_synonym unpack_log = "(string \<times> string list \<times> int64) list"

definition logged_unpack :: "'d unpack \<Rightarrow> (unpack_log \<times> 'd) unpack" where
  "logged_unpack unpack layerID parentIDs ld =
     map_client (\<lambda>(r, d'). (r, (case r of Val (Inr n) \<Rightarrow> fst ld @ [(layerID, parentIDs, n)] | _ \<Rightarrow> fst ld), d'))
       (unpack layerID parentIDs (snd ld))"

text \<open>A stack of volumes: every volume with the ones below it, the lowest first.\<close>

definition volume_stack :: "string list \<Rightarrow> (string \<times> string list) list" where
  "volume_stack ids = map (\<lambda>i. (ids ! i, take i ids)) [0..<length ids]"

definition logged_volume :: "string \<times> string list \<times> int64 \<Rightarrow> string \<times> string list" where
  "logged_volume entry = (fst entry, fst (snd entry))"

definition logged_size :: "string \<times> string list \<times> int64 \<Rightarrow> int64" where
  "logged_size entry = snd (snd entry)"

lemma logged_volume: "logged_volume (c, ps, n) = (c, ps)"
  by (simp add: logged_volume_def)

lemma build_layer_logged:
  assumes "build_layer F unpack li ps (w, d) = (Val (Inr n), (w', d'))"
  shows "build_layer F (logged_unpack unpack) li ps (w, (l, d)) =
    (Val (Inr n), (w', (l @ [(ChainID li, ps, n)], d')))"
  using assms by (auto simp: build_layer_Val logged_unpack_def run_client_map)

lemma volume_stack_append:
  "volume_stack (xs @ [x]) = volume_stack xs @ [(x, xs)]"
  by (simp add: volume_stack_def nth_append)

lemma build_layers_from_logged:
  assumes "build_layers_from F unpack below tot lis (w, d) = (Val (Inr m), (w', d'))"
    and "map logged_volume l = volume_stack (chain_ids below)"
  shows "\<exists>l'. build_layers_from F (logged_unpack unpack) below tot lis (w, (l, d)) = (Val (Inr m), (w', (l', d'))) \<and>
    map logged_volume l' = volume_stack (chain_ids (below @ lis)) \<and>
    m - sum_list (map logged_size l') = tot - sum_list (map logged_size l)"
  using assms
proof (induction lis arbitrary: below tot w d l)
  case (Cons li lis)
  obtain n w1 d1 where b: "build_layer F unpack li (chain_ids below) (w, d) = (Val (Inr n), (w1, d1))"
    and rest: "build_layers_from F unpack (below @ [li]) (tot + n) lis (w1, d1) = (Val (Inr m), (w', d'))"
    using Cons.prems(1) by (auto simp: attempt_eq_Inr)
  let ?l = "l @ [(ChainID li, chain_ids below, n)]"
  have "map logged_volume ?l = volume_stack (chain_ids (below @ [li]))"
    using Cons.prems(2) by (simp add: volume_stack_append chain_ids_def logged_volume)
  from Cons.IH [OF rest this] show ?case
    by (simp add: build_layer_logged [OF b] logged_size_def algebra_simps)
qed simp

lemma pull_Inr:
  assumes "pull F unpack spec (w, d) = (Val (Inr img), wd')"
  obtains info w1 where "ImageInfo F w = (Val (Inr info), w1)" "quota_exceeded (LayerInfos info) spec = None"
    "build_layers F unpack (LayerInfos info) (w1, d) = (Val (Inr (pi_Size img)), wd')"
    "ChainIDs img = chain_ids (LayerInfos info)" "pi_Config img = ii_Config info"
  using assms
  by (auto simp: pull_def attempt_eq_Inr obind_eq_Val split: option.splits sum.splits)

section \<open>Sizes\<close>

lemma fold_sizes:
  assumes "\<forall>li \<in> set lis. 0 \<le> sint (Size li)" "0 \<le> sint a"
    and "sint a + sum_list (map (\<lambda>li. sint (Size li)) lis) < 2 ^ 63"
  shows "sint (fold (\<lambda>li tot. tot + Size li) lis a) = sint a + sum_list (map (\<lambda>li. sint (Size li)) lis)"
  using assms
proof (induction lis arbitrary: a)
  case (Cons li lis)
  have "0 \<le> sum_list (map (\<lambda>li. sint (Size li)) lis)"
    using Cons.prems(1) by (intro sum_list_nonneg) auto
  then have "sint (a + Size li) = sint a + sint (Size li)"
    using Cons.prems by (intro sint_add64) auto
  with Cons show ?case by simp
qed simp

text \<open>Without negative sizes and within 63 bits, the size of the layers is the sum of their sizes.\<close>

lemma layers_size_sum:
  assumes "\<forall>li \<in> set lis. 0 \<le> sint (Size li)" "sum_list (map (\<lambda>li. sint (Size li)) lis) < 2 ^ 63"
  shows "sint (layers_size lis) = sum_list (map (\<lambda>li. sint (Size li)) lis)"
  using fold_sizes [of lis 0] assms by (simp add: layers_size_def)

section \<open>Pulling\<close>

text \<open>
  C13: A pull that succeeds has asked the fetcher for the image's layers and then the driver for
  one volume per layer of the answer, in its order (the lowest first), each under the chain ID of
  its layer and with the chain IDs of all layers before it as its parents; the image has these
  chain IDs and the fetcher's configuration, and its size is the sum of what the driver returned.
  (Keeping a log of the requests does not change the pull.)
\<close>

theorem pull_builds_the_stack:
  assumes "pull F unpack spec (w, d) = (Val (Inr img), (w', d'))"
  shows "\<exists>info w1 log. ImageInfo F w = (Val (Inr info), w1) \<and>
    pull F (logged_unpack unpack) spec (w, ([], d)) = (Val (Inr img), (w', (log, d'))) \<and>
    map logged_volume log =
      map (\<lambda>i. (ChainID (LayerInfos info ! i), map ChainID (take i (LayerInfos info)))) [0..<length (LayerInfos info)] \<and>
    ChainIDs img = map ChainID (LayerInfos info) \<and> pi_Config img = ii_Config info \<and>
    pi_Size img = sum_list (map logged_size log)"
proof -
  obtain info w1 where info: "ImageInfo F w = (Val (Inr info), w1)" "quota_exceeded (LayerInfos info) spec = None"
    and b: "build_layers_from F unpack [] 0 (LayerInfos info) (w1, d) = (Val (Inr (pi_Size img)), (w', d'))"
    and img: "ChainIDs img = chain_ids (LayerInfos info)" "pi_Config img = ii_Config info"
    by (rule pull_Inr [OF assms, unfolded build_layers_def])
  have "map logged_volume [] = volume_stack (chain_ids [])" by (simp add: volume_stack_def chain_ids_def)
  from build_layers_from_logged [OF b this] obtain log where log:
    "build_layers_from F (logged_unpack unpack) [] 0 (LayerInfos info) (w1, ([], d)) =
      (Val (Inr (pi_Size img)), (w', (log, d')))"
    "map logged_volume log = volume_stack (chain_ids (LayerInfos info))"
    "pi_Size img - sum_list (map logged_size log) = 0" by auto
  then have "pull F (logged_unpack unpack) spec (w, ([], d)) = (Val (Inr img), (w', (log, d')))"
    using info img by (simp add: pull_def build_layers_def)
  moreover have "volume_stack (chain_ids (LayerInfos info)) =
      map (\<lambda>i. (ChainID (LayerInfos info ! i), map ChainID (take i (LayerInfos info)))) [0..<length (LayerInfos info)]"
    by (auto simp: volume_stack_def chain_ids_def take_map)
  ultimately show ?thesis
    using info(1) img log by (intro exI [of _ info] exI [of _ w1] exI [of _ log]) (simp add: chain_ids_def)
qed

text \<open>A fetcher of an image with two layers of one byte each, and a driver that returns 4 for each.\<close>

definition two_layers :: "layer_info list" where
  "two_layers =
     [\<lparr>BlobID = ''b0'', ChainID = ''c0'', DiffID = ''d0'', ParentChainID = '''', Size = 1, URLs = [], MediaType = ''''\<rparr>,
      \<lparr>BlobID = ''b1'', ChainID = ''c1'', DiffID = ''d1'', ParentChainID = ''c0'', Size = 1, URLs = [], MediaType = ''''\<rparr>]"

definition two_layer_fetcher :: "(nat, nat) fetcher" where
  "two_layer_fetcher =
     \<lparr>ImageInfo = (\<lambda>w. (Val (Inr \<lparr>LayerInfos = two_layers, ii_Config = empty_config\<rparr>), Suc w)),
      StreamBlob = (\<lambda>li w. (Val (Inr (0, 1)), Suc w)),
      ReadStream = (\<lambda>h n w. (Val ([], Some ErrEOF), Suc w)),
      CloseStream = (\<lambda>h w. (None, Suc w)), CloseFetcher = (\<lambda>w. (None, Suc w))\<rparr>"

definition four_bytes :: "nat unpack" where
  "four_bytes layerID parentIDs d = Read_then 8 (\<lambda>_. Return (Val (Inr 4), Suc d))"

theorem pull_builds_the_stack_witness:
  "\<exists>img log. pull two_layer_fetcher (logged_unpack four_bytes) \<lparr>DiskLimit = 2, ExcludeImageFromQuota = False\<rparr> (0, ([], 0)) =
       (Val (Inr img), (7, (log, 2))) \<and>
     map logged_volume log = [(''c0'', []), (''c1'', [''c0''])] \<and> pi_Size img = sum_list (map logged_size log)"
proof -
  obtain img where p: "pull two_layer_fetcher four_bytes \<lparr>DiskLimit = 2, ExcludeImageFromQuota = False\<rparr> (0, 0) =
      (Val (Inr img), (7, 2))" "ChainIDs img = [''c0'', ''c1'']"
    by (simp add: pull_def two_layer_fetcher_def two_layers_def quota_exceeded_def layers_size_def build_layers_def
        build_layer_def four_bytes_def ondemand_read_def open_layer_def ondemand_close_def chain_ids_def)
  from pull_builds_the_stack [OF p(1)] obtain info log where
    info: "fst (ImageInfo two_layer_fetcher 0) = Val (Inr info)"
    and log: "pull two_layer_fetcher (logged_unpack four_bytes) \<lparr>DiskLimit = 2, ExcludeImageFromQuota = False\<rparr> (0, ([], 0)) =
        (Val (Inr img), (7, (log, 2)))"
      "map logged_volume log =
        map (\<lambda>i. (ChainID (LayerInfos info ! i), map ChainID (take i (LayerInfos info)))) [0..<length (LayerInfos info)]"
      "pi_Size img = sum_list (map logged_size log)"
    by fastforce
  have "LayerInfos info = two_layers" using info by (auto simp: two_layer_fetcher_def)
  with log show ?thesis by (auto simp: two_layers_def upt_rec)
qed

text \<open>
  With a disk limit that counts the image, and layer sizes that are not negative and
  within 63 bits together, an image whose layers are larger than the limit according to its
  manifest is rejected before any layer is opened or the driver is asked for anything.
\<close>

lemma pull_rejects_large_manifest:
  assumes "ImageInfo F w = (Val (Inr info), w')" "\<not> ExcludeImageFromQuota spec" "DiskLimit spec \<noteq> 0"
    and "\<forall>li \<in> set (LayerInfos info). 0 \<le> sint (Size li)"
    and "sum_list (map (\<lambda>li. sint (Size li)) (LayerInfos info)) < 2 ^ 63"
    and "sint (DiskLimit spec) < sum_list (map (\<lambda>li. sint (Size li)) (LayerInfos info))"
  shows "pull F unpack spec (w, d) =
    (Val (Inl (ErrNew (''layers exceed disk quota '' @ show_int64 (layers_size (LayerInfos info)) @ ''/'' @
       show_int64 (DiskLimit spec) @ '' bytes''))), (w', d))"
  using assms by (simp add: pull_def quota_exceeded_def layers_size_sum)

end
