(* ===== verification/Layer_Fetcher.thy ===== *)
theory Layer_Fetcher
  imports Blob_Reader Layer_Runs Image_Puller
begin

text \<open>
  \<^verbatim>\<open>fetcher/layerfetcher/layer_fetcher.go\<close>: the fetcher of registry and OCI images, over
  any \<^verbatim>\<open>Source\<close>.  The source's state \<open>'s\<close> and the world are passed as a pair.
\<close>

section \<open>The source interface and the fetcher\<close>

record 's source =
  src_Manifest :: "'s \<times> world \<Rightarrow> image res outcome \<times> ('s \<times> world)"
  src_Blob :: "layer_info \<Rightarrow> 's \<times> world \<Rightarrow> (string \<times> int64) res outcome \<times> ('s \<times> world)"
  src_Close :: "'s \<times> world \<Rightarrow> error option \<times> ('s \<times> world)"

definition layer_source_methods :: "'z env \<Rightarrow> layer_source source" where
  "layer_source_methods E =
     \<lparr>src_Manifest = Manifest E, src_Blob = Blob E, src_Close = close_source E\<rparr>"

lemma layer_source_methods_simps [simp]:
  "src_Manifest (layer_source_methods E) = Manifest E" "src_Blob (layer_source_methods E) = Blob E"
  "src_Close (layer_source_methods E) = close_source E"
  by (simp_all add: layer_source_methods_def)

section \<open>Chain IDs\<close>

text \<open>
  \<^verbatim>\<open>chainID\<close>: the hex part of the diff ID for the lowest layer, the hash of
  \<open>parent chain ID, space, diff ID\<close> above it.
\<close>

definition chain_id :: "string \<Rightarrow> string \<Rightarrow> string outcome" where
  "chain_id diffID parentChainID =
     (case (if diffID \<noteq> '''' then index_at (split_on (CHR '':'') diffID) 1 else Val diffID) of
        Val d \<Rightarrow>
          Val (if parentChainID \<noteq> '''' then hex_encode (sha256 (bytes_of_string (parentChainID @ '' '' @ d)))
               else d)
      | Panic m \<Rightarrow> Panic m
      | Diverges \<Rightarrow> Diverges)"

text \<open>
  The loop of \<^verbatim>\<open>createLayerInfos\<close>: \<open>i\<close> is the index, \<open>parent\<close> the chain ID of the layer
  below.  A configuration with too few diff IDs makes the index expression panic.
\<close>

primrec create_layer_infos_from :: "string list \<Rightarrow> nat \<Rightarrow> string \<Rightarrow> blob_info list \<Rightarrow> layer_info list outcome" where
  "create_layer_infos_from diffIDs i parent [] = Val []"
| "create_layer_infos_from diffIDs i parent (layer # layers) =
     (case index_at diffIDs i of
        Panic m \<Rightarrow> Panic m
      | Diverges \<Rightarrow> Diverges
      | Val diffID \<Rightarrow>
          (case chain_id diffID parent of
             Panic m \<Rightarrow> Panic m
           | Diverges \<Rightarrow> Diverges
           | Val chainID \<Rightarrow>
               (case digest_hex diffID of
                  Panic m \<Rightarrow> Panic m
                | Diverges \<Rightarrow> Diverges
                | Val hex \<Rightarrow>
                    (case create_layer_infos_from diffIDs (Suc i) chainID layers of
                       Panic m \<Rightarrow> Panic m
                     | Diverges \<Rightarrow> Diverges
                     | Val lis \<Rightarrow>
                         Val (\<lparr>BlobID = bi_Digest layer, ChainID = chainID, DiffID = hex,
                               ParentChainID = parent, Size = bi_Size layer, URLs = bi_URLs layer,
                               MediaType = bi_MediaType layer\<rparr> # lis)))))"

definition create_layer_infos :: "image \<Rightarrow> image_config \<Rightarrow> layer_info list outcome" where
  "create_layer_infos img config = create_layer_infos_from (ic_DiffIDs config) 0 '''' (im_LayerInfos img)"

section \<open>The fetcher's methods\<close>

definition lf_image_info :: "'z env \<Rightarrow> 's source \<Rightarrow> 's \<times> world \<Rightarrow> image_info res outcome \<times> ('s \<times> world)" where
  "lf_image_info E src sw =
     attempt (src_Manifest src sw) (\<lambda>e. e) (\<lambda>manifest (s, w).
     attempt (Val (image_oci_config E (tick w) manifest), (s, advance w)) (\<lambda>e. e) (\<lambda>config sw.
       (case create_layer_infos manifest config of
          Val lis \<Rightarrow> (Val (Inr \<lparr>LayerInfos = lis, ii_Config = config\<rparr>), sw)
        | Panic m \<Rightarrow> (Panic m, sw)
        | Diverges \<Rightarrow> (Diverges, sw))))"

definition lf_stream_blob :: "'z env \<Rightarrow> 's source \<Rightarrow> layer_info \<Rightarrow> 's \<times> world \<Rightarrow>
    (blob_reader \<times> int64) res outcome \<times> ('s \<times> world)" where
  "lf_stream_blob E src li sw =
     attempt (src_Blob src li sw) (\<lambda>e. e) (\<lambda>(blobFilePath, sz) (s, w).
       (case new_blob_reader E blobFilePath w of
          (Inl e, w) \<Rightarrow> (Val (Inl (ErrWrap ''opening stream from temporary blob file'' e)), (s, w))
        | (Inr blobReader, w) \<Rightarrow> (Val (Inr (blobReader, sz)), (s, w))))"

text \<open>\<^verbatim>\<open>Close\<close> closes the source.\<close>

definition lf_close :: "'s source \<Rightarrow> 's \<times> world \<Rightarrow> error option \<times> ('s \<times> world)" where
  "lf_close src sw = src_Close src sw"

definition layer_fetcher :: "'z env \<Rightarrow> 's source \<Rightarrow> ('s \<times> world, blob_reader) fetcher" where
  "layer_fetcher E src =
     \<lparr>ImageInfo = lf_image_info E src,
      StreamBlob = lf_stream_blob E src,
      ReadStream = (\<lambda>d n (s, w). case blob_reader_read E d n w of (r, w) \<Rightarrow> (r, (s, w))),
      CloseStream = (\<lambda>d (s, w). case blob_reader_close E d w of (r, w) \<Rightarrow> (r, (s, w))),
      CloseFetcher = lf_close src\<rparr>"

section \<open>Lemmas on chain IDs\<close>

text \<open>
  The identity of a stack of layers: the hex digest of the lowest one, combined with each layer
  above it by hashing.
\<close>

definition chain_link :: "string \<Rightarrow> string \<Rightarrow> string" where
  "chain_link parent d =
     (if parent = '''' then d else hex_encode (sha256 (bytes_of_string (parent @ '' '' @ d))))"

definition stack_id :: "string list \<Rightarrow> string" where
  "stack_id ds = foldl chain_link '''' ds"

text \<open>The part of a digest after the first colon, up to the next.\<close>

definition hex_part :: "string \<Rightarrow> string" where
  "hex_part d = split_on (CHR '':'') d ! 1"

lemma stack_id_snoc: "stack_id (ds @ [d]) = chain_link (stack_id ds) d"
  by (simp add: stack_id_def)

lemma split_on_length: "c \<in> set s \<longleftrightarrow> 1 < length (split_on c s)"
  by (induction s) (auto split: list.splits)

lemma digest_hex_Val: "(\<exists>h. digest_hex d = Val h) \<longleftrightarrow> CHR '':'' \<in> set d"
  using str_index_neg [of d "CHR '':''"]
  by (auto simp: digest_hex_def digest_encoded_def digest_sep_index_def Let_def)

lemma chain_id_Val:
  "CHR '':'' \<in> set d \<Longrightarrow> chain_id d parent = Val (chain_link parent (hex_part d))"
  using split_on_length [of "CHR '':''" d]
  by (cases "d = ''''") (simp_all add: chain_id_def index_at_def chain_link_def hex_part_def)

lemma chain_id_no_colon: "d \<noteq> '''' \<Longrightarrow> CHR '':'' \<notin> set d \<Longrightarrow> \<exists>m. chain_id d parent = Panic m"
  by (simp add: chain_id_def index_at_def split_on_no_sep)

lemma chain_id_not_Diverges [simp]: "chain_id d parent \<noteq> Diverges"
  by (simp add: chain_id_def index_at_def)

text \<open>A layer of the result, given the layer below and the entry of the configuration.\<close>

definition layer_info_of :: "string \<Rightarrow> string \<Rightarrow> blob_info \<Rightarrow> layer_info \<Rightarrow> bool" where
  "layer_info_of parent diffID layer li \<longleftrightarrow>
     BlobID li = bi_Digest layer \<and> Size li = bi_Size layer \<and> URLs li = bi_URLs layer \<and>
     MediaType li = bi_MediaType layer \<and> digest_hex diffID = Val (DiffID li) \<and>
     ParentChainID li = parent \<and> ChainID li = chain_link parent (hex_part diffID)"

lemma create_layer_infos_from_Cons:
  assumes "create_layer_infos_from diffIDs i parent (layer # layers) = Val lis"
  obtains li lis' where "lis = li # lis'" "i < length diffIDs" "CHR '':'' \<in> set (diffIDs ! i)"
    "layer_info_of parent (diffIDs ! i) layer li"
    "create_layer_infos_from diffIDs (Suc i) (ChainID li) layers = Val lis'"
proof -
  have i: "i < length diffIDs"
    using assms by (auto simp: index_at_def split: if_splits)
  have colon: "CHR '':'' \<in> set (diffIDs ! i)"
    using assms i digest_hex_Val [of "diffIDs ! i"] by (auto simp: index_at_def split: outcome.splits)
  show thesis
    using assms i chain_id_Val [OF colon, of parent]
    by (auto simp: index_at_def layer_info_of_def colon split: outcome.splits intro!: that)
qed

lemma create_layer_infos_from_Val:
  assumes "create_layer_infos_from diffIDs i parent layers = Val lis"
  shows "length lis = length layers \<and> i + length layers \<le> max i (length diffIDs) \<and>
    (\<forall>k < length lis. CHR '':'' \<in> set (diffIDs ! (i + k)) \<and>
       layer_info_of (if k = 0 then parent else ChainID (lis ! (k - 1))) (diffIDs ! (i + k)) (layers ! k) (lis ! k))"
  using assms
proof (induction layers arbitrary: i parent lis)
  case (Cons layer layers)
  from create_layer_infos_from_Cons [OF Cons.prems] obtain li lis' where
      lis: "lis = li # lis'" "i < length diffIDs" "CHR '':'' \<in> set (diffIDs ! i)"
        "layer_info_of parent (diffIDs ! i) layer li"
    and rest: "create_layer_infos_from diffIDs (Suc i) (ChainID li) layers = Val lis'" by blast
  note IH = Cons.IH [OF rest]
  have "layer_info_of (if k = 0 then parent else ChainID (lis ! (k - 1))) (diffIDs ! (i + k)) ((layer # layers) ! k) (lis ! k)
      \<and> CHR '':'' \<in> set (diffIDs ! (i + k))" if "k < length lis" for k
  proof (cases k)
    case (Suc j)
    with that lis have "j < length lis'" by simp
    with IH have "layer_info_of (if j = 0 then ChainID li else ChainID (lis' ! (j - 1))) (diffIDs ! (Suc i + j))
        (layers ! j) (lis' ! j) \<and> CHR '':'' \<in> set (diffIDs ! (Suc i + j))" by blast
    with Suc lis show ?thesis by (cases j) auto
  qed (use lis in simp)
  with IH lis show ?case by auto
qed simp

lemma create_layer_infos_from_returns:
  assumes "i + length layers \<le> length diffIDs" "\<forall>k < length layers. CHR '':'' \<in> set (diffIDs ! (i + k))"
  shows "\<exists>lis. create_layer_infos_from diffIDs i parent layers = Val lis"
  using assms
proof (induction layers arbitrary: i parent)
  case (Cons layer layers)
  have colon: "CHR '':'' \<in> set (diffIDs ! i)" using Cons.prems(2) by force
  obtain h where h: "digest_hex (diffIDs ! i) = Val h" using digest_hex_Val colon by blast
  have "\<exists>lis. create_layer_infos_from diffIDs (Suc i) (chain_link parent (hex_part (diffIDs ! i))) layers = Val lis"
  proof (rule Cons.IH)
    show "\<forall>k < length layers. CHR '':'' \<in> set (diffIDs ! (Suc i + k))"
    proof (intro allI impI)
      fix k assume "k < length layers"
      then show "CHR '':'' \<in> set (diffIDs ! (Suc i + k))"
        using Cons.prems(2) [rule_format, of "Suc k"] by simp
    qed
  qed (use Cons.prems in simp)
  then show ?case
    using Cons.prems(1) h chain_id_Val [OF colon] by (auto simp: index_at_def)
qed simp

lemma create_layer_infos_from_not_Diverges [simp]: "create_layer_infos_from diffIDs i parent layers \<noteq> Diverges"
  by (induction layers arbitrary: i parent) (auto split: outcome.splits)

lemma layer_infos_spec:
  assumes "create_layer_infos img config = Val lis"
  shows "length lis = length (im_LayerInfos img) \<and> length lis \<le> length (ic_DiffIDs config) \<and>
    (\<forall>k < length lis.
       layer_info_of (if k = 0 then '''' else ChainID (lis ! (k - 1))) (ic_DiffIDs config ! k)
         (im_LayerInfos img ! k) (lis ! k) \<and>
       ChainID (lis ! k) = stack_id (map hex_part (take (Suc k) (ic_DiffIDs config))))"
proof -
  let ?ds = "ic_DiffIDs config"
  from create_layer_infos_from_Val [OF assms [unfolded create_layer_infos_def]]
  have len: "length lis = length (im_LayerInfos img)" "length lis \<le> length ?ds"
    and info: "\<forall>k < length lis. layer_info_of (if k = 0 then '''' else ChainID (lis ! (k - 1))) (?ds ! k)
         (im_LayerInfos img ! k) (lis ! k)" by auto
  have "ChainID (lis ! k) = stack_id (map hex_part (take (Suc k) ?ds))" if "k < length lis" for k
    using that
  proof (induction k)
    case 0
    with info len show ?case
      by (cases ?ds) (auto simp: layer_info_of_def stack_id_def)
  next
    case (Suc k)
    then have "take (Suc (Suc k)) ?ds = take (Suc k) ?ds @ [?ds ! Suc k]"
      using len by (simp add: take_Suc_conv_app_nth)
    moreover have "ChainID (lis ! Suc k) = chain_link (ChainID (lis ! k)) (hex_part (?ds ! Suc k))"
      using info [rule_format, of "Suc k"] Suc.prems by (simp add: layer_info_of_def)
    ultimately show ?case using Suc by (simp add: stack_id_snoc)
  qed
  with len info show ?thesis by simp
qed

text \<open>The chain IDs, from the lowest layer up, identify the growing stacks of diff IDs.\<close>

lemma layer_chain_ids:
  assumes "create_layer_infos img config = Val lis"
  shows "map ChainID lis = map (\<lambda>k. stack_id (take (Suc k) (map hex_part (ic_DiffIDs config)))) [0..<length lis]"
  using layer_infos_spec [OF assms] by (intro nth_equalityI) (simp_all add: take_map)

text \<open>
  C15: The layer infos list the manifest's layers in order, with their digests, sizes and
  media types; a layer's parent is the chain ID of the layer below, and its chain ID is the
  identity of the stack of diff IDs up to it.
\<close>

theorem layer_infos_result:
  assumes "create_layer_infos img config = Val lis"
  shows "length lis = length (im_LayerInfos img) \<and> length lis \<le> length (ic_DiffIDs config) \<and>
    (\<forall>k < length lis.
       layer_info_of (if k = 0 then '''' else ChainID (lis ! (k - 1))) (ic_DiffIDs config ! k)
         (im_LayerInfos img ! k) (lis ! k) \<and>
       ChainID (lis ! k) = stack_id (map hex_part (take (Suc k) (ic_DiffIDs config))))"
  using assms by (rule layer_infos_spec)

lemma sample_infos: "create_layer_infos (sample_image c) (sample_config c) = Val [sample_layer c]"
proof -
  have colon: "CHR '':'' \<notin> set (hex_encode (sha256 c))"
    using hex_encode_chars [of "CHR '':''" "sha256 c"] by (auto simp: hex_digits_def)
  have "BlobID (sample_layer c) = ''sha256:'' @ hex_encode (sha256 c)" by (simp add: sample_layer_def)
  with colon show ?thesis
    by (simp add: create_layer_infos_def sample_image_def sample_config_def index_at_def chain_id_def
        split_on_no_sep digest_hex_def digest_encoded_def digest_sep_index_def Let_def sample_layer_def)
qed

theorem layer_infos_result_witness:
  "layer_info_of '''' (BlobID (sample_layer [7])) (im_LayerInfos (sample_image [7]) ! 0) (sample_layer [7]) \<and>
   ChainID (sample_layer [7]) = stack_id [hex_part (BlobID (sample_layer [7]))]"
  using layer_infos_result [OF sample_infos [of "[7]"]] by (simp add: sample_config_def)

text \<open>
  C37: The layer infos of an image exist exactly when its configuration has a diff ID for
  every layer and each of these has a colon; for any other configuration the code panics
  instead of returning an error.
\<close>

theorem layer_infos_or_panic:
  "(if length (im_LayerInfos img) \<le> length (ic_DiffIDs config) \<and>
       (\<forall>k < length (im_LayerInfos img). CHR '':'' \<in> set (ic_DiffIDs config ! k))
    then \<exists>lis. create_layer_infos img config = Val lis
    else \<exists>m. create_layer_infos img config = Panic m)"
proof (cases "create_layer_infos img config")
  case (Val lis)
  from create_layer_infos_from_Val [OF Val [unfolded create_layer_infos_def]] Val show ?thesis by auto
next
  case (Panic m)
  with create_layer_infos_from_returns [of 0 "im_LayerInfos img" "ic_DiffIDs config" "''''"] show ?thesis
    by (auto simp: create_layer_infos_def)
qed (simp add: create_layer_infos_def)

theorem layer_infos_or_panic_witness:
  "\<exists>m. create_layer_infos (sample_image [7]) ((sample_config [7])\<lparr>ic_DiffIDs := [''abc'']\<rparr>) = Panic m"
proof -
  have "\<not> (\<forall>k < length (im_LayerInfos (sample_image [7])).
      CHR '':'' \<in> set (ic_DiffIDs ((sample_config [7])\<lparr>ic_DiffIDs := [''abc'']\<rparr>) ! k))"
    by (auto simp: sample_image_def)
  with layer_infos_or_panic [of "sample_image [7]" "(sample_config [7])\<lparr>ic_DiffIDs := [''abc'']\<rparr>"]
  show ?thesis by (simp only: simp_thms if_False)
qed

section \<open>The shape of the identifiers\<close>

text \<open>
  A SHA-256 digest as it is written: 64 lower-case hexadecimal digits, so that it is safe as the
  name of a file.
\<close>

definition hex64 :: "string \<Rightarrow> bool" where
  "hex64 h \<longleftrightarrow> length h = 64 \<and> list_all (\<lambda>c. c \<in> set hex_digits) h"

definition sha256_digest :: "bytes \<Rightarrow> string" where
  "sha256_digest bs = ''sha256:'' @ hex_encode (sha256 bs)"

definition typed_layer :: "layer_info \<Rightarrow> bool" where
  "typed_layer li \<longleftrightarrow>
     hex64 (ChainID li) \<and> hex64 (DiffID li) \<and> (ParentChainID li = '''' \<or> hex64 (ParentChainID li))"

lemma hex64_hash [simp]: "hex64 (hex_encode (sha256 bs))"
  using hex_encode_lower_hex [of "sha256 bs"] by (auto simp: hex64_def list_all_iff)

lemma hex64_chars:
  assumes "hex64 h"
  shows "CHR '':'' \<notin> set h" "CHR ''/'' \<notin> set h" "CHR ''*'' \<notin> set h"
proof -
  have "CHR '':'' \<notin> set hex_digits" "CHR ''/'' \<notin> set hex_digits" "CHR ''*'' \<notin> set hex_digits"
    by (simp_all add: hex_digits_def)
  with assms show "CHR '':'' \<notin> set h" "CHR ''/'' \<notin> set h" "CHR ''*'' \<notin> set h"
    by (auto simp: hex64_def list_all_iff)
qed

lemma str_index_colon: "CHR '':'' \<in> set d \<Longrightarrow> \<exists>p s. d = p @ CHR '':'' # s \<and> CHR '':'' \<notin> set p"
  by (rule split_list_first)

lemma hex_part_of_hex:
  assumes "digest_hex d = Val h" "CHR '':'' \<notin> set h"
  shows "hex_part d = h"
proof -
  have "CHR '':'' \<in> set d" using assms(1) digest_hex_Val [of d] by blast
  then obtain p s where d: "d = p @ CHR '':'' # s" "CHR '':'' \<notin> set p"
    using str_index_colon by blast
  then have "digest_hex d = Val s"
    by (simp add: digest_hex_def digest_encoded_def digest_sep_index_def Let_def str_index_append)
  with assms d show ?thesis by (simp add: hex_part_def split_on_append_sep split_on_no_sep)
qed

lemma sha256_digest_parts [simp]:
  "digest_hex (sha256_digest bs) = Val (hex_encode (sha256 bs))" "hex_part (sha256_digest bs) = hex_encode (sha256 bs)"
  "CHR '':'' \<in> set (sha256_digest bs)"
proof -
  show d: "digest_hex (sha256_digest bs) = Val (hex_encode (sha256 bs))"
    by (simp add: sha256_digest_def digest_hex_def digest_encoded_def digest_sep_index_def Let_def)
  then show "hex_part (sha256_digest bs) = hex_encode (sha256 bs)"
    by (rule hex_part_of_hex) (simp add: hex64_chars)
  show "CHR '':'' \<in> set (sha256_digest bs)" by (simp add: sha256_digest_def)
qed

lemma hex64_chain_link:
  "hex64 d \<Longrightarrow> hex64 (chain_link parent d)"
  by (simp add: chain_link_def)

text \<open>What follows the first colon of a digest.\<close>

definition after_colon :: "string \<Rightarrow> string" where
  "after_colon d = tl (dropWhile (\<lambda>c. c \<noteq> CHR '':'') d)"

lemma digest_after_colon:
  assumes "CHR '':'' \<in> set d"
  shows "digest_hex d = Val (after_colon d)" "hex_part d = takeWhile (\<lambda>c. c \<noteq> CHR '':'') (after_colon d)"
proof -
  obtain p s where d: "d = p @ CHR '':'' # s" "CHR '':'' \<notin> set p"
    using str_index_colon [OF assms] by blast
  have "dropWhile (\<lambda>c. c \<noteq> CHR '':'') p = []" using d(2) by (auto simp: dropWhile_eq_Nil_conv)
  with d have after: "after_colon d = s" by (simp add: after_colon_def dropWhile_append)
  with d show "digest_hex d = Val (after_colon d)"
    by (simp add: digest_hex_def digest_encoded_def digest_sep_index_def Let_def str_index_append)
  have "split_on (CHR '':'') s ! 0 = takeWhile (\<lambda>c. c \<noteq> CHR '':'') s" for s
    by (induction s) (auto split: list.split)
  with d after show "hex_part d = takeWhile (\<lambda>c. c \<noteq> CHR '':'') (after_colon d)"
    by (simp add: hex_part_def split_on_append_sep)
qed

lemma hex64_after_colon:
  assumes "CHR '':'' \<in> set d" "hex64 (after_colon d)"
  shows "hex64 (hex_part d)"
proof -
  have "takeWhile (\<lambda>c. c \<noteq> CHR '':'') (after_colon d) = after_colon d"
    using hex64_chars(1) [OF assms(2)] by (auto simp: takeWhile_eq_all_conv)
  with assms digest_after_colon [OF assms(1)] show ?thesis by simp
qed

text \<open>
  C16: The fetcher passes on the diff IDs of the configuration without checking that they are
  digests: whatever follows the colon, hexadecimal or not, there are layer infos, their diff IDs
  are what follows the colon, and the chain ID of the lowest layer is that same text (up to a
  further colon).  So the identifiers of the layers are digests, 64 lower-case hexadecimal digits
  each, exactly when the texts after the colons are.
\<close>

theorem layer_infos_typed:
  assumes "length (im_LayerInfos img) \<le> length (ic_DiffIDs config)"
    and "\<forall>k < length (im_LayerInfos img). CHR '':'' \<in> set (ic_DiffIDs config ! k)"
  shows "\<exists>lis. create_layer_infos img config = Val lis \<and>
    map DiffID lis = map after_colon (take (length (im_LayerInfos img)) (ic_DiffIDs config)) \<and>
    (lis \<noteq> [] \<longrightarrow> ChainID (hd lis) = takeWhile (\<lambda>c. c \<noteq> CHR '':'') (after_colon (hd (ic_DiffIDs config)))) \<and>
    (list_all typed_layer lis \<longleftrightarrow>
      list_all hex64 (map after_colon (take (length (im_LayerInfos img)) (ic_DiffIDs config))))"
proof -
  let ?ds = "ic_DiffIDs config" and ?n = "length (im_LayerInfos img)"
  obtain lis where lis: "create_layer_infos img config = Val lis"
    using create_layer_infos_from_returns [of 0 "im_LayerInfos img" ?ds] assms by (auto simp: create_layer_infos_def)
  let ?parent = "\<lambda>k. if k = 0 then '''' else ChainID (lis ! (k - 1))"
  have len: "length lis = ?n" using layer_infos_spec [OF lis] by blast
  have info: "layer_info_of (?parent k) (?ds ! k) (im_LayerInfos img ! k) (lis ! k)" if "k < length lis" for k
    using layer_infos_spec [OF lis] that by blast
  have colon: "CHR '':'' \<in> set (?ds ! k)" if "k < length lis" for k using assms(2) that len by simp
  have diff: "DiffID (lis ! k) = after_colon (?ds ! k)" if "k < length lis" for k
    using info [OF that] digest_after_colon(1) [OF colon [OF that]] by (simp add: layer_info_of_def)
  have chain: "ChainID (lis ! k) = chain_link (?parent k) (hex_part (?ds ! k))" if "k < length lis" for k
    using info [OF that] by (simp add: layer_info_of_def)
  have diffs: "map DiffID lis = map after_colon (take ?n ?ds)"
    using diff len assms(1) by (intro nth_equalityI) simp_all
  have first: "ChainID (hd lis) = takeWhile (\<lambda>c. c \<noteq> CHR '':'') (after_colon (hd ?ds))" if "lis \<noteq> []"
  proof -
    have "0 < length lis" using that by simp
    moreover from this have "?ds \<noteq> []" using len assms(1) by auto
    ultimately show ?thesis
      using chain [of 0] digest_after_colon(2) [OF colon [of 0]] that by (simp add: chain_link_def hd_conv_nth)
  qed
  have "typed_layer (lis ! k)" if ok: "\<forall>k < length lis. hex64 (after_colon (?ds ! k))" and "k < length lis" for k
  proof -
    have "hex64 (ChainID (lis ! j)) \<and> hex64 (DiffID (lis ! j))" if "j < length lis" for j
      using ok that chain [OF that] diff [OF that] hex64_after_colon [OF colon [OF that]]
      by (auto intro!: hex64_chain_link)
    moreover have "ParentChainID (lis ! k) = ?parent k"
      using info [OF \<open>k < length lis\<close>] by (simp add: layer_info_of_def)
    ultimately show ?thesis using \<open>k < length lis\<close> by (simp add: typed_layer_def)
  qed
  then have "list_all typed_layer lis \<longleftrightarrow> list_all hex64 (map DiffID lis)"
    using diff by (auto simp: list_all_length typed_layer_def)
  with lis diffs first show ?thesis by auto
qed

text \<open>A configuration whose diff ID is a path: the path becomes the chain ID of the layer.\<close>

lemma unchecked_chain_id:
  "create_layer_infos (sample_image c) ((sample_config c)\<lparr>ic_DiffIDs := [''sha256:../../x'']\<rparr>) =
     Val [(sample_layer c)\<lparr>ChainID := ''../../x'', DiffID := ''../../x''\<rparr>]"
  by (simp add: create_layer_infos_def sample_image_def index_at_def chain_id_def digest_hex_def
      digest_encoded_def digest_sep_index_def Let_def sample_layer_def)

theorem layer_infos_typed_witness:
  "\<exists>lis. create_layer_infos (sample_image [7]) ((sample_config [7])\<lparr>ic_DiffIDs := [''sha256:../../x'']\<rparr>) = Val lis \<and>
     ChainID (hd lis) = ''../../x'' \<and> \<not> list_all typed_layer lis"
  using layer_infos_typed [of "sample_image [7]" "(sample_config [7])\<lparr>ic_DiffIDs := [''sha256:../../x'']\<rparr>"]
  by (auto simp: sample_image_def after_colon_def hex64_def)

section \<open>Stacks with the same identity\<close>

text \<open>The strings that are hashed for the identity of a stack.\<close>

definition hashed_links :: "string list \<Rightarrow> bytes list" where
  "hashed_links ds =
     map (\<lambda>k. bytes_of_string (stack_id (take k ds) @ '' '' @ ds ! k)) [1..<length ds]"

text \<open>Diff IDs without blanks, as digests are.\<close>

definition plain_digests :: "string list \<Rightarrow> bool" where
  "plain_digests ds \<longleftrightarrow> list_all (\<lambda>d. d \<noteq> [] \<and> CHR '' '' \<notin> set d) ds"

lemma hex_encode_no_blank: "CHR '' '' \<notin> set (hex_encode bs)"
  using hex_encode_lower_hex [of bs] by (auto simp: hex_digits_def)

lemma stack_id_plain:
  assumes "plain_digests ds" "ds \<noteq> []"
  shows "stack_id ds \<noteq> '''' \<and> CHR '' '' \<notin> set (stack_id ds)"
proof (cases ds rule: rev_cases)
  case (snoc ds' d)
  have "hex_encode (sha256 bs) \<noteq> []" for bs
    by (metis length_0_conv length_hex_encode length_sha256 mult_eq_0_iff numeral_eq_iff zero_neq_numeral)
  with snoc assms show ?thesis
    by (auto simp: stack_id_snoc chain_link_def plain_digests_def hex_encode_no_blank)
qed (use assms in simp)

lemma append_blank_inject:
  "CHR '' '' \<notin> set p \<Longrightarrow> CHR '' '' \<notin> set q \<Longrightarrow> p @ '' '' @ d = q @ '' '' @ e \<Longrightarrow> p = q \<and> d = e"
proof (induction p arbitrary: q)
  case Nil
  then show ?case by (cases q) auto
next
  case (Cons a p)
  then show ?case by (cases q) auto
qed

text \<open>
  Two stacks of the same height have the same identity only if they are the same stack,
  as long as SHA-256 does not collide on the strings hashed for them.
\<close>

lemma stack_id_injective:
  assumes "length ds = length es" "stack_id ds = stack_id es" "plain_digests ds" "plain_digests es"
    and "inj_on sha256 (set (hashed_links ds) \<union> set (hashed_links es))"
  shows "ds = es"
  using assms
proof (induction ds arbitrary: es rule: rev_induct)
  case (snoc d ds)
  obtain es' e where es: "es = es' @ [e]" using snoc.prems(1) by (cases es rule: rev_cases) auto
  have len: "length ds = length es'" using snoc.prems(1) es by simp
  have plain: "plain_digests ds" "plain_digests es'"
    using snoc.prems(3,4) es by (simp_all add: plain_digests_def)
  show ?case
  proof (cases "ds = []")
    case True
    with snoc.prems(2) es len show ?thesis by (simp add: stack_id_def chain_link_def)
  next
    case False
    then have ne: "es' \<noteq> []" using len by auto
    have links: "hashed_links (xs @ [x]) = hashed_links xs @ [bytes_of_string (stack_id xs @ '' '' @ x)]"
      if "xs \<noteq> []" for xs x
    proof -
      have "[1..<length (xs @ [x])] = [1..<length xs] @ [length xs]" using that by (simp add: Suc_leI)
      then show ?thesis by (simp add: hashed_links_def nth_append)
    qed
    have "sha256 (bytes_of_string (stack_id ds @ '' '' @ d)) = sha256 (bytes_of_string (stack_id es' @ '' '' @ e))"
      using snoc.prems(2) es stack_id_plain [OF plain(1) False] stack_id_plain [OF plain(2) ne]
      by (simp add: stack_id_snoc chain_link_def)
    moreover have "bytes_of_string (stack_id ds @ '' '' @ d) \<in> set (hashed_links (ds @ [d])) \<union> set (hashed_links es)"
      "bytes_of_string (stack_id es' @ '' '' @ e) \<in> set (hashed_links (ds @ [d])) \<union> set (hashed_links es)"
      by (simp_all only: es links [OF False] links [OF ne] set_append list.set Un_iff insert_iff simp_thms)
    ultimately have "stack_id ds @ '' '' @ d = stack_id es' @ '' '' @ e"
      using inj_onD [OF snoc.prems(5)] bytes_of_string_inject by blast
    with append_blank_inject [of "stack_id ds" "stack_id es'" d e]
      stack_id_plain [OF plain(1) False] stack_id_plain [OF plain(2) ne]
    have "stack_id ds = stack_id es' \<and> d = e" by simp
    moreover have "inj_on sha256 (set (hashed_links ds) \<union> set (hashed_links es'))"
      by (rule inj_on_subset [OF snoc.prems(5)]) (use links False ne es in auto)
    ultimately show ?thesis using snoc.IH [OF len _ plain] es by simp
  qed
qed simp

text \<open>What \<^verbatim>\<open>chainID\<close> hashes for a layer that has a parent.\<close>

definition chained :: "layer_info \<Rightarrow> bytes" where
  "chained li = bytes_of_string (ParentChainID li @ '' '' @ DiffID li)"

definition plain_diff_id :: "layer_info \<Rightarrow> bool" where
  "plain_diff_id li \<longleftrightarrow> DiffID li \<noteq> [] \<and> CHR '' '' \<notin> set (DiffID li) \<and> CHR '':'' \<notin> set (DiffID li)"

text \<open>The stack of diff IDs that the layer infos of an image stand for.\<close>

lemma layer_infos_stack:
  assumes lis: "create_layer_infos img config = Val lis" and plain: "list_all plain_diff_id lis"
  shows "plain_digests (map DiffID lis)" "lis \<noteq> [] \<Longrightarrow> ChainID (last lis) = stack_id (map DiffID lis)"
    "set (hashed_links (map DiffID lis)) \<subseteq> chained ` set (tl lis)"
proof -
  let ?ds = "ic_DiffIDs config"
  note spec = layer_infos_spec [OF lis]
  have parts: "DiffID (lis ! k) = hex_part (?ds ! k)" if "k < length lis" for k
    using spec plain that hex_part_of_hex [of "?ds ! k" "DiffID (lis ! k)"]
    by (auto simp: layer_info_of_def list_all_length plain_diff_id_def)
  have diffs: "map DiffID (take k lis) = map hex_part (take k ?ds)" if "k \<le> length lis" for k
    using that parts spec by (intro nth_equalityI) auto
  have chain: "ChainID (lis ! k) = stack_id (map DiffID (take (Suc k) lis))" if "k < length lis" for k
    using spec that diffs [of "Suc k"] by simp
  show "plain_digests (map DiffID lis)"
    using plain by (auto simp: plain_digests_def list_all_iff plain_diff_id_def)
  show "ChainID (last lis) = stack_id (map DiffID lis)" if "lis \<noteq> []"
    using chain [of "length lis - 1"] that by (simp add: last_conv_nth)
  show "set (hashed_links (map DiffID lis)) \<subseteq> chained ` set (tl lis)"
  proof
    fix x assume "x \<in> set (hashed_links (map DiffID lis))"
    then obtain k where k: "1 \<le> k" "k < length lis"
      and "x = bytes_of_string (stack_id (take k (map DiffID lis)) @ '' '' @ map DiffID lis ! k)"
      unfolding hashed_links_def by auto
    then have x: "x = bytes_of_string (stack_id (map DiffID (take k lis)) @ '' '' @ DiffID (lis ! k))"
      by (simp add: take_map)
    have "ParentChainID (lis ! k) = ChainID (lis ! (k - 1))"
      using spec k by (auto simp: layer_info_of_def)
    with chain [of "k - 1"] k x have "x = chained (lis ! k)" by (simp add: chained_def)
    moreover have "lis ! k \<in> set (tl lis)" using k by (auto simp: in_set_conv_nth nth_tl intro!: exI [of _ "k - 1"])
    ultimately show "x \<in> chained ` set (tl lis)" by blast
  qed
qed

text \<open>
  C18: Two images with the same number of layers have the same top chain ID exactly when they have
  the same diff IDs, whatever their blobs are: as long as the diff IDs are plain (what follows the
  colon is not empty and has no blank and no further colon, as in every digest) and SHA-256 does
  not collide on the strings that are hashed for the layers above the lowest ones.
\<close>

theorem chain_ids_identify:
  assumes "create_layer_infos img config = Val lis" "create_layer_infos img' config' = Val lis'"
    and "length lis = length lis'" "lis \<noteq> []" "list_all plain_diff_id (lis @ lis')"
    and "inj_on sha256 (chained ` (set (tl lis) \<union> set (tl lis')))"
  shows "ChainID (last lis) = ChainID (last lis') \<longleftrightarrow> map DiffID lis = map DiffID lis'"
proof -
  have "list_all plain_diff_id lis" "list_all plain_diff_id lis'" "lis' \<noteq> []" using assms(3-5) by auto
  note stack = layer_infos_stack [OF assms(1) this(1)] and stack' = layer_infos_stack [OF assms(2) this(2)]
  have "set (hashed_links (map DiffID lis)) \<union> set (hashed_links (map DiffID lis'))
      \<subseteq> chained ` (set (tl lis) \<union> set (tl lis'))"
    unfolding image_Un by (rule Un_mono [OF stack(3) stack'(3)])
  with assms(6) have "inj_on sha256 (set (hashed_links (map DiffID lis)) \<union> set (hashed_links (map DiffID lis')))"
    by (rule inj_on_subset)
  from stack_id_injective [OF _ _ stack(1) stack'(1) this] assms(3)
  have "stack_id (map DiffID lis) = stack_id (map DiffID lis') \<longleftrightarrow> map DiffID lis = map DiffID lis'" by auto
  then show ?thesis
    by (simp only: stack(2) [OF assms(4)] stack'(2) [OF \<open>lis' \<noteq> []\<close>])
qed

text \<open>Two images of the same two layers, one of them compressed, and one of another layer.\<close>

definition tiny_image :: "string list \<Rightarrow> image" where
  "tiny_image blobs = \<lparr>im_LayerInfos = map (\<lambda>b. \<lparr>bi_Digest = b, bi_Size = 1, bi_URLs = [], bi_MediaType = ''''\<rparr>) blobs, im_id = 0\<rparr>"

definition tiny_config :: "string list \<Rightarrow> image_config" where
  "tiny_config ds = \<lparr>ic_DiffIDs = ds, ic_Env = [], ic_rest = ''''\<rparr>"

theorem chain_ids_identify_witness:
  "(\<exists>lis lis'. create_layer_infos (tiny_image [''sha256:b0'', ''sha256:b1'']) (tiny_config [''sha256:d0'', ''sha256:d1'']) = Val lis \<and>
      create_layer_infos (tiny_image [''sha256:z0'', ''sha256:z1'']) (tiny_config [''sha256:d0'', ''sha256:d1'']) = Val lis' \<and>
      lis \<noteq> lis' \<and> ChainID (last lis) = ChainID (last lis')) \<and>
   (\<exists>lis lis'. create_layer_infos (tiny_image [''sha256:b0'']) (tiny_config [''sha256:d0'']) = Val lis \<and>
      create_layer_infos (tiny_image [''sha256:b1'']) (tiny_config [''sha256:d1'']) = Val lis' \<and>
      ChainID (last lis) \<noteq> ChainID (last lis'))"
proof
  note defs = create_layer_infos_def tiny_image_def tiny_config_def index_at_def chain_id_def digest_hex_def
    digest_encoded_def digest_sep_index_def Let_def
  obtain lis lis' where two:
    "create_layer_infos (tiny_image [''sha256:b0'', ''sha256:b1'']) (tiny_config [''sha256:d0'', ''sha256:d1'']) = Val lis"
    "create_layer_infos (tiny_image [''sha256:z0'', ''sha256:z1'']) (tiny_config [''sha256:d0'', ''sha256:d1'']) = Val lis'"
    and facts: "length lis = length lis'" "lis \<noteq> []" "lis \<noteq> lis'" "list_all plain_diff_id (lis @ lis')"
      "chained ` (set (tl lis) \<union> set (tl lis')) = {bytes_of_string ''d0 d1''}" "map DiffID lis = map DiffID lis'"
    by (simp add: defs plain_diff_id_def chained_def)
  with chain_ids_identify [OF two facts(1,2,4)]
  show "\<exists>lis lis'. create_layer_infos (tiny_image [''sha256:b0'', ''sha256:b1'']) (tiny_config [''sha256:d0'', ''sha256:d1'']) = Val lis \<and>
      create_layer_infos (tiny_image [''sha256:z0'', ''sha256:z1'']) (tiny_config [''sha256:d0'', ''sha256:d1'']) = Val lis' \<and>
      lis \<noteq> lis' \<and> ChainID (last lis) = ChainID (last lis')"
    by (simp only: inj_on_insert inj_on_empty) blast
  obtain lis lis' where one: "create_layer_infos (tiny_image [''sha256:b0'']) (tiny_config [''sha256:d0'']) = Val lis"
    "create_layer_infos (tiny_image [''sha256:b1'']) (tiny_config [''sha256:d1'']) = Val lis'"
    and facts: "length lis = length lis'" "lis \<noteq> []" "list_all plain_diff_id (lis @ lis')"
      "tl lis = []" "tl lis' = []" "map DiffID lis \<noteq> map DiffID lis'"
    by (simp add: defs plain_diff_id_def)
  with chain_ids_identify [OF one facts(1-3)]
  show "\<exists>lis lis'. create_layer_infos (tiny_image [''sha256:b0'']) (tiny_config [''sha256:d0'']) = Val lis \<and>
      create_layer_infos (tiny_image [''sha256:b1'']) (tiny_config [''sha256:d1'']) = Val lis' \<and>
      ChainID (last lis) \<noteq> ChainID (last lis')"
    by auto
qed

section \<open>The contract of a source\<close>

text \<open>
  What the layer fetcher relies on.  \<open>ok\<close> is what a source needs of its state and the world,
  \<open>held s\<close> the number of image sources it holds.  Fetching the manifest changes no files; a
  blob is delivered as a new file, or nothing is left of it; closing gives back what is held.
\<close>

definition holds :: "('s \<Rightarrow> nat) \<Rightarrow> nat \<Rightarrow> 's \<times> world \<Rightarrow> bool" where
  "holds held base sw \<longleftrightarrow> open_sources (snd sw) = base + held (fst sw)"

definition new_file :: "string \<Rightarrow> world \<Rightarrow> world \<Rightarrow> bool" where
  "new_file path w w' \<longleftrightarrow>
     fs w path = None \<and> (\<exists>f. fs w' = (fs w)(path \<mapsto> f)) \<and> fds w' = fds w \<and>
     next_fd w \<le> next_fd w' \<and> open_blobs w' = open_blobs w"

locale source_contract =
  fixes src :: "'s source" and ok :: "'s \<Rightarrow> bool" and held :: "'s \<Rightarrow> nat"
  assumes manifest_quiet: "ok s \<Longrightarrow> wf_world w \<Longrightarrow> src_Manifest src (s, w) = (Val r, (s', w')) \<Longrightarrow>
      ok s' \<and> quiet w w' \<and> (\<forall>base. holds held base (s, w) \<longrightarrow> holds held base (s', w'))"
    and blob_error: "ok s \<Longrightarrow> wf_world w \<Longrightarrow> src_Blob src li (s, w) = (Val (Inl e), (s', w')) \<Longrightarrow>
      ok s' \<and> quiet w w' \<and> (\<forall>base. holds held base (s, w) \<longrightarrow> holds held base (s', w'))"
    and blob_file: "ok s \<Longrightarrow> wf_world w \<Longrightarrow> src_Blob src li (s, w) = (Val (Inr (path, sz)), (s', w')) \<Longrightarrow>
      ok s' \<and> new_file path w w' \<and> (\<forall>base. holds held base (s, w) \<longrightarrow> holds held base (s', w'))"
    and close_source: "ok s \<Longrightarrow> src_Close src (s, w) = (err, (s', w')) \<Longrightarrow>
      quiet w w' \<and> (\<forall>base. holds held base (s, w) \<longrightarrow> open_sources w' = base)"

text \<open>The states of a layer fetcher over such a source, relative to the world it started in.\<close>

definition layer_idle :: "'z env \<Rightarrow> ('s \<Rightarrow> bool) \<Rightarrow> ('s \<Rightarrow> nat) \<Rightarrow> world \<Rightarrow> 's \<times> world \<Rightarrow> bool" where
  "layer_idle E ok held w0 sw \<longleftrightarrow>
     opens_files E \<and> removes_files E \<and> wf_world w0 \<and> ok (fst sw) \<and> quiet w0 (snd sw) \<and>
     holds held (open_sources w0) sw"

definition layer_streaming :: "'z env \<Rightarrow> ('s \<Rightarrow> bool) \<Rightarrow> ('s \<Rightarrow> nat) \<Rightarrow> world \<Rightarrow> blob_reader \<Rightarrow> 's \<times> world \<Rightarrow> bool" where
  "layer_streaming E ok held w0 d sw \<longleftrightarrow>
     opens_files E \<and> removes_files E \<and> wf_world w0 \<and> ok (fst sw) \<and>
     (fs (snd sw))(br_filePath d := None) = fs w0 \<and> (fds (snd sw))(br_reader d := None) = fds w0 \<and>
     next_fd w0 \<le> next_fd (snd sw) \<and> open_blobs (snd sw) = open_blobs w0 \<and>
     holds held (open_sources w0) sw"

definition layer_closed :: "world \<Rightarrow> 's \<times> world \<Rightarrow> bool" where
  "layer_closed w0 sw \<longleftrightarrow> quiet w0 (snd sw) \<and> open_sources (snd sw) = open_sources w0"

lemma layer_fetcher_simps [simp]:
  "ImageInfo (layer_fetcher E src) = lf_image_info E src" "StreamBlob (layer_fetcher E src) = lf_stream_blob E src"
  "CloseFetcher (layer_fetcher E src) = src_Close src"
  "ReadStream (layer_fetcher E src) d n (s, w) = (case blob_reader_read E d n w of (r, w) \<Rightarrow> (r, (s, w)))"
  "CloseStream (layer_fetcher E src) d (s, w) = (case blob_reader_close E d w of (r, w) \<Rightarrow> (r, (s, w)))"
  by (simp_all add: layer_fetcher_def lf_close_def [abs_def])

lemma new_blob_reader_opens:
  assumes "opens_files E" "fs w path = Some f"
  shows "\<exists>fd w'. os_open E path w = (Inr fd, w') \<and> new_blob_reader E path w = (Inr \<lparr>br_reader = fd, br_filePath = path\<rparr>, w')"
  using assms by (simp add: new_blob_reader_def os_open_def opens_files_def)

lemma new_blob_reader_unread:
  assumes "new_blob_reader E path w = (Inr h, w')" "fs w path = Some f"
  shows "reads_files E \<Longrightarrow> \<not> f_isdir f \<Longrightarrow> readable E (br_reader h) w'" "unread (br_reader h) w' = f_content f"
  using assms by (auto simp: new_blob_reader_def os_open_def readable_def unread_def split: option.splits)

lemma lf_image_info_after:
  assumes m: "src_Manifest src (s, w) = (Val x, (s1, w1))" and "lf_image_info E src (s, w) = (Val r, (s', w'))"
  shows "s' = s1 \<and> (w' = w1 \<or> w' = advance w1)"
proof (cases x)
  case (Inr img)
  show ?thesis
  proof (cases "image_oci_config E (tick w1) img")
    case (Inr config)
    with assms \<open>x = Inr img\<close> show ?thesis
      by (cases "create_layer_infos img config") (auto simp: lf_image_info_def)
  qed (use assms Inr in \<open>auto simp: lf_image_info_def\<close>)
qed (use assms in \<open>auto simp: lf_image_info_def\<close>)

lemma lf_stream_blob_Inr:
  assumes "lf_stream_blob E src li (s, w) = (Val (Inr (h, n)), (s', w'))"
  obtains path w1 where "src_Blob src li (s, w) = (Val (Inr (path, n)), (s', w1))"
    "new_blob_reader E path w1 = (Inr h, w')"
proof -
  obtain path sz s1 w1 where b: "src_Blob src li (s, w) = (Val (Inr (path, sz)), (s1, w1))"
    using assms by (auto simp: lf_stream_blob_def attempt_eq_Inr)
  show thesis
    using assms b that
    by (cases "new_blob_reader E path w1"; cases "fst (new_blob_reader E path w1)") (auto simp: lf_stream_blob_def)
qed

lemma blob_reader_close_world:
  assumes "blob_reader_close E d w = (e, w')" "removes_files E"
  shows "fs w' = (fs w)(br_filePath d := None)" "fds w' = (fds w)(br_reader d := None)"
    "next_fd w' = next_fd w" "open_blobs w' = open_blobs w" "open_sources w' = open_sources w"
proof -
  have w': "w' = snd (os_remove E (br_filePath d) (snd (os_close E (br_reader d) w)))"
    using assms(1) by (simp add: blob_reader_close_def)
  show "fs w' = (fs w)(br_filePath d := None)" "fds w' = (fds w)(br_reader d := None)"
    "next_fd w' = next_fd w" "open_blobs w' = open_blobs w" "open_sources w' = open_sources w"
    using assms(2) by (simp_all add: w')
qed

context source_contract
begin

lemma image_info_idle:
  assumes "layer_idle E ok held w0 (s, w)" "lf_image_info E src (s, w) = (Val r, (s', w'))"
  shows "layer_idle E ok held w0 (s', w')"
proof -
  have ok: "ok s" "wf_world w" using assms(1) by (auto simp: layer_idle_def intro: quiet_wf)
  obtain x s1 w1 where m: "src_Manifest src (s, w) = (Val x, (s1, w1))"
    using assms(2) by (auto simp: lf_image_info_def call_returns)
  from manifest_quiet [OF ok m] assms(1) have "layer_idle E ok held w0 (s1, w1)"
    by (auto simp: layer_idle_def intro: quiet_trans)
  moreover have "s' = s1 \<and> (w' = w1 \<or> w' = advance w1)"
    using assms(2) by (rule lf_image_info_after [OF m])
  ultimately show ?thesis by (auto simp: layer_idle_def holds_def quiet_def)
qed

lemma stream_blob_opens:
  assumes "layer_idle E ok held w0 (s, w)" "lf_stream_blob E src li (s, w) = (Val r, (s', w'))"
  shows "case r of Inl e \<Rightarrow> layer_idle E ok held w0 (s', w') | Inr (d, n) \<Rightarrow> layer_streaming E ok held w0 d (s', w')"
proof -
  have ok: "ok s" "wf_world w" using assms(1) by (auto simp: layer_idle_def intro: quiet_wf)
  obtain x s1 w1 where b: "src_Blob src li (s, w) = (Val x, (s1, w1))"
    using assms(2) by (auto simp: lf_stream_blob_def call_returns)
  show ?thesis
  proof (cases x)
    case (Inl e)
    from blob_error [OF ok b [unfolded Inl]] assms b Inl show ?thesis
      by (auto simp: layer_idle_def lf_stream_blob_def intro: quiet_trans)
  next
    case (Inr p)
    obtain path sz where p: "p = (path, sz)" by fastforce
    note stored = blob_file [OF ok b [unfolded Inr p]]
    have wf1: "wf_world w1" using stored ok by (auto simp: new_file_def wf_world_def)
    obtain f where f: "fs w1 = (fs w)(path \<mapsto> f)" "fs w path = None"
      using stored by (auto simp: new_file_def)
    then obtain fd w2 where o: "os_open E path w1 = (Inr fd, w2)"
      and n: "new_blob_reader E path w1 = (Inr \<lparr>br_reader = fd, br_filePath = path\<rparr>, w2)"
      using new_blob_reader_opens [of E w1 path f] assms(1) by (auto simp: layer_idle_def)
    have "(fs w2)(path := None) = fs w"
      using os_open_ok(1) [OF o wf1] f by (simp add: map_upd_triv fun_upd_idem)
    with os_open_ok [OF o wf1] stored n assms b Inr p show ?thesis
      by (auto simp: layer_idle_def layer_streaming_def lf_stream_blob_def new_file_def quiet_def holds_def)
  qed
qed

lemma read_streaming:
  assumes "layer_streaming E ok held w0 d sw" "ReadStream (layer_fetcher E src) d n sw = (Val r, sw')"
  shows "layer_streaming E ok held w0 d sw'"
proof -
  obtain s w x w' where sw: "sw = (s, w)" and x: "os_read E (br_reader d) n w = (x, w')"
    by (metis prod.exhaust)
  from assms os_read_frame [OF x] x sw show ?thesis
    by (auto simp: layer_streaming_def blob_reader_read_def holds_def)
qed

lemma close_streaming:
  assumes "layer_streaming E ok held w0 d sw" "CloseStream (layer_fetcher E src) d sw = (e, sw')"
  shows "layer_idle E ok held w0 sw'"
proof -
  obtain s w where sw: "sw = (s, w)" by fastforce
  obtain x w' where x: "blob_reader_close E d w = (x, w')" by fastforce
  have "removes_files E" using assms(1) by (simp add: layer_streaming_def)
  from assms blob_reader_close_world [OF x this] x sw show ?thesis
    by (auto simp: layer_streaming_def layer_idle_def holds_def quiet_def)
qed

end

text \<open>So a layer fetcher keeps the contract of a fetcher.\<close>

sublocale source_contract \<subseteq> fetch: fetcher_contract "layer_fetcher E src" "layer_idle E ok held w0"
  "layer_streaming E ok held w0" "layer_closed w0" for E :: "'z env" and w0
proof
  fix sw r sw'
  assume "layer_idle E ok held w0 sw" "ImageInfo (layer_fetcher E src) sw = (Val r, sw')"
  then show "layer_idle E ok held w0 sw'"
    by (cases sw; cases sw') (simp add: image_info_idle)
next
  fix sw li e sw'
  assume "layer_idle E ok held w0 sw" "StreamBlob (layer_fetcher E src) li sw = (Val (Inl e), sw')"
  then show "layer_idle E ok held w0 sw'"
    using stream_blob_opens [of E w0 "fst sw" "snd sw" li "Inl e" "fst sw'" "snd sw'"] by simp
next
  fix sw li h sz sw'
  assume "layer_idle E ok held w0 sw" "StreamBlob (layer_fetcher E src) li sw = (Val (Inr (h, sz)), sw')"
  then show "layer_streaming E ok held w0 h sw'"
    using stream_blob_opens [of E w0 "fst sw" "snd sw" li "Inr (h, sz)" "fst sw'" "snd sw'"] by simp
next
  fix h sw n x sw'
  assume "layer_streaming E ok held w0 h sw" "ReadStream (layer_fetcher E src) h n sw = (Val x, sw')"
  then show "layer_streaming E ok held w0 h sw'" by (rule read_streaming)
next
  fix h sw err sw'
  assume "layer_streaming E ok held w0 h sw" "CloseStream (layer_fetcher E src) h sw = (err, sw')"
  then show "layer_idle E ok held w0 sw'" by (rule close_streaming)
next
  fix sw err sw'
  assume "layer_idle E ok held w0 sw" "CloseFetcher (layer_fetcher E src) sw = (err, sw')"
  then show "layer_closed w0 sw'"
    using close_source [of "fst sw" "snd sw" err "fst sw'" "snd sw'"]
    by (auto simp: layer_idle_def layer_closed_def intro: quiet_trans)
qed

text \<open>And the layer source keeps the contract of a source, where files can be removed.\<close>

definition source_held :: "layer_source \<Rightarrow> nat" where
  "source_held s = (case imageSource s of None \<Rightarrow> 0 | Some _ \<Rightarrow> 1)"

lemma holds_source_held: "holds source_held base sw = source_tracked base sw"
  by (simp add: holds_def source_tracked_def source_held_def)

lemma Blob_new_file:
  assumes "Blob E li (s, w) = (Val (Inr (path, n)), (s', w'))" "wf_world w"
  shows "new_file path w w'"
  using Blob_spec [OF assms] by (auto simp: new_file_def blob_delivered_def blob_frame_def)

interpretation registry: source_contract "layer_source_methods E" "\<lambda>_. removes_files E" source_held for E
proof
  fix s w r s' w'
  assume "removes_files E" "src_Manifest (layer_source_methods E) (s, w) = (Val r, (s', w'))"
  then show "removes_files E \<and> quiet w w' \<and> (\<forall>base. holds source_held base (s, w) \<longrightarrow> holds source_held base (s', w'))"
    using Manifest_step [of E "(s, w)" "Val r" "(s', w')"]
    by (simp add: holds_source_held source_step_def)
next
  fix s w li e s' w'
  assume "removes_files E" "wf_world w" "src_Blob (layer_source_methods E) li (s, w) = (Val (Inl e), (s', w'))"
  then show "removes_files E \<and> quiet w w' \<and> (\<forall>base. holds source_held base (s, w) \<longrightarrow> holds source_held base (s', w'))"
    using Blob_spec [of E li s w "Val (Inl e)" s' w']
    by (simp add: holds_source_held blob_frame_def quiet_def)
next
  fix s w li path sz s' w'
  assume "removes_files E" "wf_world w" "src_Blob (layer_source_methods E) li (s, w) = (Val (Inr (path, sz)), (s', w'))"
  then show "removes_files E \<and> new_file path w w' \<and>
      (\<forall>base. holds source_held base (s, w) \<longrightarrow> holds source_held base (s', w'))"
    using Blob_spec [of E li s w "Val (Inr (path, sz))" s' w'] Blob_new_file [of E li s w path sz s' w']
    by (auto simp: holds_source_held blob_frame_def)
next
  fix s w err s' w'
  assume "src_Close (layer_source_methods E) (s, w) = (err, (s', w'))"
  then show "quiet w w' \<and> (\<forall>base. holds source_held base (s, w) \<longrightarrow> open_sources w' = base)"
    by (auto simp: close_source_def holds_source_held source_tracked_def quiet_def
        split: option.splits)
qed

end
