(* ===== verification/File_Fetcher.thy ===== *)
theory File_Fetcher
  imports Image_Puller Sample_World
begin

text \<open>
  \<^verbatim>\<open>fetcher/filefetcher/file_fetcher.go\<close>: the fetcher of a local tar file.  The object is
  its image path; its state never changes, so the methods act on the world.
\<close>

definition new_file_fetcher :: "url \<Rightarrow> string" where
  "new_file_fetcher u = url_string u"

definition validate_image :: "'z env \<Rightarrow> string \<Rightarrow> world \<Rightarrow> error option \<times> world" where
  "validate_image E imagePath w =
     (case os_stat E imagePath w of
        (Inl e, w) \<Rightarrow> (Some e, w)
      | (Inr stat, w) \<Rightarrow>
          ((if f_isdir stat then Some (ErrNew ''directory provided instead of a tar file'') else None), w))"

definition generate_chain_id :: "string \<Rightarrow> int64 \<Rightarrow> string" where
  "generate_chain_id imagePath timestamp =
     hex_encode (sha256 (bytes_of_string (imagePath @ ''-'' @ show_int64 timestamp)))"

definition ff_stream_blob :: "'z env \<Rightarrow> string \<Rightarrow> layer_info \<Rightarrow> world \<Rightarrow> (nat \<times> int64) res outcome \<times> world" where
  "ff_stream_blob E imagePath li w =
     (case os_stat E imagePath w of
        (Inl e, w) \<Rightarrow> (Val (Inl (ErrWrap (''local image not found in `'' @ imagePath @ ''`'') e)), w)
      | (Inr _, w) \<Rightarrow>
          (case validate_image E imagePath w of
             (Some e, w) \<Rightarrow> (Val (Inl (ErrWrap ''invalid base image'' e)), w)
           | (None, w) \<Rightarrow>
               (case os_open E imagePath w of
                  (Inl e, w) \<Rightarrow> (Val (Inl (ErrWrap ''reading local image'' e)), w)
                | (Inr stream, w) \<Rightarrow> (Val (Inr (stream, 0)), w))))"

text \<open>\<^verbatim>\<open>stat.Size()\<close> of a regular file is the number of its bytes.\<close>

definition ff_image_info :: "'z env \<Rightarrow> string \<Rightarrow> world \<Rightarrow> image_info res outcome \<times> world" where
  "ff_image_info E imagePath w =
     (case os_stat E imagePath w of
        (Inl e, w) \<Rightarrow> (Val (Inl (ErrWrap ''fetching image timestamp'' e)), w)
      | (Inr stat, w) \<Rightarrow>
          (Val (Inr \<lparr>LayerInfos =
               [\<lparr>BlobID = imagePath, ChainID = generate_chain_id imagePath (f_mtime stat), DiffID = '''',
                 ParentChainID = '''', Size = of_nat (length (f_content stat)), URLs = [], MediaType = ''''\<rparr>],
               ii_Config = empty_config\<rparr>), w))"

definition ff_close :: "world \<Rightarrow> error option \<times> world" where
  "ff_close w = (None, w)"

definition file_fetcher :: "'z env \<Rightarrow> string \<Rightarrow> (world, nat) fetcher" where
  "file_fetcher E imagePath =
     \<lparr>ImageInfo = ff_image_info E imagePath,
      StreamBlob = ff_stream_blob E imagePath,
      ReadStream = os_read E,
      CloseStream = os_close E,
      CloseFetcher = ff_close\<rparr>"

section \<open>The contract of a fetcher\<close>

text \<open>
  Relative to the world \<open>w0\<close> in which the fetcher was made: idle, nothing has changed; while a
  stream is open, its descriptor is all that has.
\<close>

definition file_idle :: "world \<Rightarrow> world \<Rightarrow> bool" where
  "file_idle w0 w \<longleftrightarrow> wf_world w0 \<and> quiet w0 w \<and> open_sources w = open_sources w0"

definition file_streaming :: "world \<Rightarrow> nat \<Rightarrow> world \<Rightarrow> bool" where
  "file_streaming w0 fd w \<longleftrightarrow>
     wf_world w0 \<and> fs w = fs w0 \<and> (fds w)(fd := None) = fds w0 \<and> next_fd w0 \<le> next_fd w \<and>
     open_blobs w = open_blobs w0 \<and> open_sources w = open_sources w0"

lemma file_idle_advance: "file_idle w0 w \<Longrightarrow> file_idle w0 (advance w)"
  by (simp add: file_idle_def quiet_def)

lemma ff_image_info_world: "ff_image_info E p w = (r, w') \<Longrightarrow> w' = advance w"
  by (auto simp: ff_image_info_def os_stat_def split: option.splits)

lemma ff_stream_blob_Inl:
  "ff_stream_blob E p li w = (Val (Inl e), w') \<Longrightarrow> file_idle w0 w \<Longrightarrow> file_idle w0 w'"
  by (auto simp: ff_stream_blob_def validate_image_def os_stat_def intro!: file_idle_advance
      dest: os_open_err split: prod.splits sum.splits option.splits if_splits)

lemma ff_stream_blob_Inr:
  assumes "ff_stream_blob E p li w = (Val (Inr (fd, n)), w')"
  shows "n = 0 \<and> os_open E p (advance (advance w)) = (Inr fd, w') \<and> (\<exists>f. fs w p = Some f \<and> \<not> f_isdir f)"
  using assms
  by (auto simp: ff_stream_blob_def validate_image_def os_stat_def
      split: prod.splits sum.splits option.splits if_splits)

lemma file_fetcher_simps [simp]:
  "ImageInfo (file_fetcher E p) = ff_image_info E p" "StreamBlob (file_fetcher E p) = ff_stream_blob E p"
  "ReadStream (file_fetcher E p) = os_read E" "CloseStream (file_fetcher E p) = os_close E"
  "CloseFetcher (file_fetcher E p) = (\<lambda>w. (None, w))"
  by (simp_all add: file_fetcher_def ff_close_def [abs_def])

interpretation local_file: fetcher_contract "file_fetcher E p" "file_idle w0" "file_streaming w0" "file_idle w0" for E p w0
proof
  fix w :: world and r w'
  assume "file_idle w0 w" "ImageInfo (file_fetcher E p) w = (Val r, w')"
  then show "file_idle w0 w'" by (auto dest!: ff_image_info_world intro: file_idle_advance)
next
  fix w :: world and li e w'
  assume "file_idle w0 w" "StreamBlob (file_fetcher E p) li w = (Val (Inl e), w')"
  then show "file_idle w0 w'" by (auto intro: ff_stream_blob_Inl)
next
  fix w :: world and li h sz w'
  assume "file_idle w0 w" "StreamBlob (file_fetcher E p) li w = (Val (Inr (h, sz)), w')"
  then show "file_streaming w0 h w'"
    using os_open_ok [of E p "advance (advance w)" h w'] ff_stream_blob_Inr [of E p li w h sz w']
    by (simp add: file_idle_def file_streaming_def quiet_def wf_world_def)
next
  fix h w n x w'
  assume "file_streaming w0 h w" "ReadStream (file_fetcher E p) h n w = (Val x, w')"
  then show "file_streaming w0 h w'"
    using os_read_frame [of E h n w "Val x" w'] by (simp add: file_streaming_def)
next
  fix h w err w'
  assume "file_streaming w0 h w" "CloseStream (file_fetcher E p) h w = (err, w')"
  then show "file_idle w0 w'"
    using os_close_frame [of E h w] by (simp add: file_streaming_def file_idle_def quiet_def)
qed simp

section \<open>The image of a local file\<close>

text \<open>
  For a regular file, in a world without faults, the fetcher reports one layer, whose
  size is that of the file, and its stream read to the end is the file's content.
\<close>

lemma local_image_is_streamed:
  assumes "fs w p = Some f" "\<not> f_isdir f" "\<forall>op t. os_fault E op t = None"
    and "\<forall>k \<le> length (f_content f). k + 1 + grow k < 2 ^ 63"
  shows "\<exists>li w1 fd w2 w3.
    ImageInfo (file_fetcher E p) w = (Val (Inr \<lparr>LayerInfos = [li], ii_Config = empty_config\<rparr>), w1) \<and>
    Size li = of_nat (length (f_content f)) \<and> ChainID li = generate_chain_id p (f_mtime f) \<and>
    StreamBlob (file_fetcher E p) li w1 = (Val (Inr (fd, 0)), w2) \<and>
    io_read_all grow (ReadStream (file_fetcher E p) fd) w2 = (Val (f_content f, None), w3)"
proof -
  obtain li w1 where info: "ff_image_info E p w = (Val (Inr \<lparr>LayerInfos = [li], ii_Config = empty_config\<rparr>), w1)"
    and li: "Size li = of_nat (length (f_content f))" "ChainID li = generate_chain_id p (f_mtime f)"
    and w1: "w1 = advance w"
    using assms(1,3) by (simp add: ff_image_info_def os_stat_def)
  obtain fd w2 where stream: "ff_stream_blob E p li w1 = (Val (Inr (fd, 0)), w2)"
    and open_fd: "fds w2 fd = Some \<lparr>of_name = p, of_left = f_content f, of_isdir = f_isdir f\<rparr>"
    using assms(1-3) w1 by (simp add: ff_stream_blob_def validate_image_def os_stat_def os_open_def)
  have "readable E fd w2" "unread fd w2 = f_content f"
    using assms(2,3) open_fd by (simp_all add: readable_def unread_def reads_files_def)
  with os_file.read_all_ok [of E fd w2 grow] assms(4)
  obtain w3 where "io_read_all grow (os_read E fd) w2 = (Val (f_content f, None), w3)"
    by (auto simp: eof_to_nil_def)
  with info li stream show ?thesis by auto
qed

text \<open>
  A directory is not an image: its stream is refused with the error that says so.
\<close>

lemma local_directory_is_refused:
  assumes "fs w p = Some f" "f_isdir f" "\<forall>t. os_fault E OpStat t = None"
  shows "\<exists>w'. StreamBlob (file_fetcher E p) li w =
    (Val (Inl (ErrWrap ''invalid base image'' (ErrNew ''directory provided instead of a tar file''))), w') \<and>
    quiet w w'"
  using assms by (simp add: ff_stream_blob_def validate_image_def os_stat_def quiet_def)

section \<open>Chain IDs and paths\<close>

lemma last_dash:
  assumes "p @ ''-'' @ a = q @ ''-'' @ b" "CHR ''-'' \<notin> set a" "CHR ''-'' \<notin> set b"
  shows "p = q \<and> a = b"
proof -
  have "rev a @ ''-'' @ rev p = rev b @ ''-'' @ rev q"
    using arg_cong [OF assms(1), of rev] by simp
  moreover have "CHR ''-'' \<notin> set x \<Longrightarrow> CHR ''-'' \<notin> set y \<Longrightarrow> x @ ''-'' @ u = y @ ''-'' @ v \<Longrightarrow> x = y \<and> u = v"
    for x y u v :: string
    by (induction x arbitrary: y) (case_tac y; auto)+
  ultimately have "rev a = rev b \<and> rev p = rev q"
    using assms(2,3) by (metis (no_types, opaque_lifting) set_rev)
  then show ?thesis by simp
qed

lemma show_int64_nonneg: "0 \<le> sint t \<Longrightarrow> CHR ''-'' \<notin> set (show_int64 t)"
  using show_nat_digits [of "CHR ''-''" "nat (sint t)"] by (auto simp: show_int64_def show_int_def)

text \<open>
  C31: The chain ID of a local file identifies its path and its modification time, for times
  from 1970 on and as long as SHA-256 does not collide on the two strings hashed.
\<close>

theorem local_chain_id_identifies:
  assumes "generate_chain_id p t = generate_chain_id q u" "0 \<le> sint t" "0 \<le> sint u"
    and "inj_on sha256 {bytes_of_string (p @ ''-'' @ show_int64 t), bytes_of_string (q @ ''-'' @ show_int64 u)}"
  shows "p = q \<and> t = u"
proof -
  have "bytes_of_string (p @ ''-'' @ show_int64 t) = bytes_of_string (q @ ''-'' @ show_int64 u)"
    by (rule inj_onD [OF assms(4)]) (use assms(1) in \<open>simp_all add: generate_chain_id_def\<close>)
  then have "p @ ''-'' @ show_int64 t = q @ ''-'' @ show_int64 u"
    by (simp only: bytes_of_string_inject)
  then have "p = q \<and> show_int64 t = show_int64 u"
    by (rule last_dash) (simp_all add: show_int64_nonneg assms(2,3))
  with assms(2,3) have "p = q \<and> sint t = sint u" by (auto simp: show_int64_def show_int_def)
  then show ?thesis by (metis signed_word_eqI)
qed

theorem local_chain_id_identifies_witness:
  "generate_chain_id ''/a'' 5 = generate_chain_id (''/'' @ ''a'') (2 + 3) \<and> ''/a'' = ''/'' @ ''a'' \<and> (5 :: int64) = 2 + 3"
  using local_chain_id_identifies [of "''/a''" 5 "''/'' @ ''a''" "2 + 3"] by simp

text \<open>
  An absolute path made of letters, digits and the characters that a URL path may hold
  unescaped reaches the file fetcher as it was given.
\<close>

lemma plain_path_reaches_fetcher:
  assumes "plain_path p"
  shows "\<exists>u. url_parse p = Inr u \<and> Scheme u = '''' \<and> new_file_fetcher u = p"
  using url_parse_plain [OF assms] url_string_plain [OF assms]
  by (simp add: new_file_fetcher_def empty_url_def)

text \<open>
  A path with a blank does not: the fetcher looks for the file under the escaped name.
\<close>

lemma blank_in_path_is_escaped:
  "map_sum id new_file_fetcher (url_parse ''/a b.tar'') = (Inr ''/a%20b.tar'' :: string res)"
  by code_simp

end
