(* ===== verification/Pulling.thy ===== *)
theory Pulling
  imports Layer_Fetcher File_Fetcher
begin

text \<open>
  Pulling an image with either fetcher: what reaches the driver, in which order, and what is
  left behind.  The general part rests on the contract of fetchers, through its
  interpretations for the layer fetcher on a layer source and for the file fetcher.
\<close>

abbreviation registry_fetcher :: "'z env \<Rightarrow> (layer_source \<times> world, blob_reader) fetcher" where
  "registry_fetcher E \<equiv> layer_fetcher E (layer_source_methods E)"

section \<open>Nothing is left behind\<close>

text \<open>
  C10: Where removing a file and opening one never fail, a pull from a registry that returns, with
  an image or with any error (of the registry, the checks, the quota, the driver, of creating,
  writing, reading or closing files), whatever the driver reads or leaves unread, leaves no trace:
  the files are those there were, no descriptor and no download is open, and closing the fetcher
  gives back the image source, if it had opened one.
\<close>

theorem registry_pull_leaves_no_trace:
  assumes "pull (registry_fetcher E) unpack spec ((s, w), d) = (Val r, ((s', w'), d'))"
    and "wf_world w" "imageSource s = None" "removes_files E" "opens_files E"
  shows "fs w' = fs w \<and> fds w' = fds w \<and> open_blobs w' = open_blobs w \<and>
    open_sources (snd (snd (CloseFetcher (registry_fetcher E) (s', w')))) = open_sources w"
proof -
  have "layer_idle E (\<lambda>_. removes_files E) source_held w (s, w)"
    using assms(2-5) by (simp add: layer_idle_def holds_def source_held_def)
  then have idle: "layer_idle E (\<lambda>_. removes_files E) source_held w (s', w')"
    by (rule registry.fetch.pull_idle) (rule assms(1))
  obtain err sw'' where c: "CloseFetcher (registry_fetcher E) (s', w') = (err, sw'')"
    by (rule prod.exhaust)
  from registry.fetch.close_closed [OF idle c] idle c show ?thesis
    by (auto simp: layer_idle_def layer_closed_def quiet_def)
qed

text \<open>
  That opening succeeds is needed: when the temporary file of a blob cannot be opened for reading,
  the fetcher returns the error and the file stays.
\<close>

lemma unopened_blob_stays:
  assumes "Blob E li (s, w) = (Val (Inr (path, n)), (s1, w1))" "wf_world w" "os_fault E OpOpen (tick w1) = Some e"
  shows "StreamBlob (registry_fetcher E) li (s, w) =
      (Val (Inl (ErrWrap ''opening stream from temporary blob file'' (ErrWrap ''failed to open blob'' e))), (s1, advance w1)) \<and>
    fs w path = None \<and> fs (advance w1) path \<noteq> None"
proof -
  from Blob_spec [OF assms(1,2)] obtain content where "blob_delivered E s li path n content w w1" by auto
  with assms(1,3) show ?thesis
    by (auto simp: blob_delivered_def lf_stream_blob_def new_blob_reader_def os_open_def)
qed

text \<open>
  A pull of a local file that returns has neither changed a file nor left a descriptor open.
\<close>

lemma local_pull_leaves_no_trace:
  assumes "pull (file_fetcher E p) unpack spec (w, d) = (Val r, (w', d'))" "wf_world w"
  shows "fs w' = fs w \<and> fds w' = fds w"
proof -
  have "file_idle w w" using assms(2) by (simp add: file_idle_def)
  then have "file_idle w w'" by (rule local_file.pull_idle) (rule assms(1))
  then show ?thesis by (simp add: file_idle_def quiet_def)
qed

section \<open>What the driver reads\<close>

text \<open>What an open stream has to offer, and what opening it has cost.\<close>

lemma stream_blob_content:
  assumes "StreamBlob (registry_fetcher E) li (s, w) = (Val (Inr (h, n)), (s', w'))" "wf_world w"
  shows "same_settings s s'"
    "\<not> skipOCILayerValidation s \<Longrightarrow> hex_encode (sha256 (unread (br_reader h) w')) = DiffID li"
    "remainingImageQuota s' = remainingImageQuota s - of_nat (length (unread (br_reader h) w'))"
    "\<not> skipImageQuotaValidation s \<Longrightarrow> 0 \<le> sint (remainingImageQuota s) \<Longrightarrow>
      int (length (unread (br_reader h) w')) \<le> sint (remainingImageQuota s)"
    "reads_files E \<Longrightarrow> readable E (br_reader h) w'"
proof -
  obtain path w1 where b: "Blob E li (s, w) = (Val (Inr (path, n)), (s', w1))"
    and o: "new_blob_reader E path w1 = (Inr h, w')"
    using assms(1) by (auto elim!: lf_stream_blob_Inr)
  from Blob_spec [OF b assms(2)] obtain content where d: "blob_delivered E s li path n content w w1"
    and r: "remainingImageQuota s' = remainingImageQuota s - of_nat (length content)"
    and frame: "blob_frame (s, w) (s', w1)" by auto
  from d obtain f where f: "fs w1 path = Some f" "f_content f = content" "\<not> f_isdir f"
    by (auto simp: blob_delivered_def)
  note u = new_blob_reader_unread [OF o f(1)]
  show "same_settings s s'" using frame by (simp add: blob_frame_def)
  show "\<not> skipOCILayerValidation s \<Longrightarrow> hex_encode (sha256 (unread (br_reader h) w')) = DiffID li"
    using d f u by (auto simp: blob_delivered_def layer_checked_def check_check_sum_def Let_def split: if_splits)
  show "remainingImageQuota s' = remainingImageQuota s - of_nat (length (unread (br_reader h) w'))"
    using r f u by simp
  show "int (length (unread (br_reader h) w')) \<le> sint (remainingImageQuota s)"
    if "\<not> skipImageQuotaValidation s" "0 \<le> sint (remainingImageQuota s)"
    using that d f u by (auto simp: blob_delivered_def layer_checked_def should_enforce_image_quota_validation_def)
  show "reads_files E \<Longrightarrow> readable E (br_reader h) w'" using u f by simp
qed

text \<open>
  C11: Unless the source has been told to skip the validation of layers
  (\<^verbatim>\<open>skipOCILayerValidation\<close>), and where reading a file does not fail, the stream of a layer that
  the fetcher opens delivers, to a driver that reads all of it, bytes whose SHA-256 digest is the
  layer's diff ID.
\<close>

theorem stream_delivers_verified_content:
  assumes "StreamBlob (registry_fetcher E) li (s, w) = (Val (Inr (h, n)), (s', w'))"
    and "wf_world w" "\<not> skipOCILayerValidation s" "reads_files E"
    and "\<forall>k \<le> length (unread (br_reader h) w'). k + 1 + grow k < 2 ^ 63"
  shows "\<exists>content sw''.
    io_read_all grow (ReadStream (registry_fetcher E) h) (s', w') = (Val (content, None), sw'') \<and>
    hex_encode (sha256 content) = DiffID li"
proof -
  note content = stream_blob_content [OF assms(1,2)]
  obtain w'' where "io_read_all grow (os_read E (br_reader h)) w' = (Val (unread (br_reader h) w', None), w'')"
    using os_file.read_all_ok [of E "br_reader h" w' grow] content(5) assms(4,5) by (auto simp: eof_to_nil_def)
  from io_read_all_simulation [OF this, of "ReadStream (registry_fetcher E) h" "Pair s'"] content(2) assms(3)
  show ?thesis by (auto simp: blob_reader_read_def)
qed

section \<open>Instances\<close>

text \<open>A driver that needs no content, as one that has the volume already.\<close>

definition cached_volume :: "nat unpack" where
  "cached_volume layerID parentIDs d = Return (Val (Inr 1), Suc d)"

lemma sample_image_info:
  "lf_image_info (honest_env c) (layer_source_methods (honest_env c)) (sample_source limit, sample_world) =
     (Val (Inr \<lparr>LayerInfos = [sample_layer c], ii_Config = sample_config c\<rparr>),
      (open_source limit, sample_world\<lparr>tick := 5, open_sources := 1\<rparr>))"
  by (simp add: lf_image_info_def sample_manifest sample_infos advance_def)

text \<open>A driver that reads up to 512 bytes of the layer and returns how many there were.\<close>

definition reading_driver :: "nat unpack" where
  "reading_driver layerID parentIDs d = Read_then 512 (\<lambda>r. Return (Val (Inr (of_nat (length (fst r)))), Suc d))"

lemma sample_pull:
  "\<exists>img. pull (registry_fetcher (honest_env [1])) cached_volume \<lparr>DiskLimit = 5, ExcludeImageFromQuota = False\<rparr>
     ((sample_source 5, sample_world), 0) =
     (Val (Inr img), ((open_source 5, sample_world\<lparr>tick := 5, open_sources := 1\<rparr>), 1))"
  by (simp add: pull_def sample_image_info quota_exceeded_def layers_size_def build_layers_def build_layer_def
      cached_volume_def ondemand_close_def)

theorem registry_pull_leaves_no_trace_witness:
  "\<exists>r s' w' d'. pull (registry_fetcher (honest_env [1])) cached_volume \<lparr>DiskLimit = 5, ExcludeImageFromQuota = False\<rparr>
       ((sample_source 5, sample_world), 0) = (Val r, ((s', w'), d')) \<and>
     fs w' = Map.empty \<and> fds w' = Map.empty \<and> open_sources w' = 1 \<and>
     open_sources (snd (snd (CloseFetcher (registry_fetcher (honest_env [1])) (s', w')))) = 0"
proof -
  obtain img where p: "pull (registry_fetcher (honest_env [1])) cached_volume \<lparr>DiskLimit = 5, ExcludeImageFromQuota = False\<rparr>
     ((sample_source 5, sample_world), 0) =
     (Val (Inr img), ((open_source 5, sample_world\<lparr>tick := 5, open_sources := 1\<rparr>), 1))"
    using sample_pull by blast
  have "imageSource (sample_source 5) = None" by (simp add: sample_source_def new_layer_source_def)
  from registry_pull_leaves_no_trace [OF p sample_world_simps(7) this] p show ?thesis by auto
qed

lemma sample_stream_blob:
  assumes "int (length c) \<le> sint limit" "fs w = Map.empty" "wf_world w"
  shows "\<exists>h n s' w'.
    StreamBlob (registry_fetcher (honest_env c)) (sample_layer c) (open_source limit, w) = (Val (Inr (h, n)), (s', w')) \<and>
    int (length (unread (br_reader h) w')) \<le> sint limit"
proof -
  let ?E = "honest_env c"
  have limit: "0 \<le> sint limit" using assms(1) by linarith
  obtain path s' w1 where b: "Blob ?E (sample_layer c) (open_source limit, w) =
      (Val (Inr (path, of_nat (length c))), (s', w1))"
    by (rule sample_blob [OF assms(1,2)])
  from Blob_quota [OF b assms(3)] limit obtain f where "fs w1 path = Some f" by auto
  then obtain h w' where "new_blob_reader ?E path w1 = (Inr h, w')"
    using new_blob_reader_opens [of ?E w1 path f] by auto
  with b have s: "StreamBlob (registry_fetcher ?E) (sample_layer c) (open_source limit, w) =
      (Val (Inr (h, of_nat (length c))), (s', w'))"
    by (simp add: lf_stream_blob_def)
  from stream_blob_content(4) [OF s assms(3)] limit s show ?thesis by auto
qed

theorem stream_delivers_verified_content_witness:
  "\<exists>h n s' w' sw'' content.
     StreamBlob (registry_fetcher (honest_env [1, 2])) (sample_layer [1, 2]) (open_source 5, sample_world) =
       (Val (Inr (h, n)), (s', w')) \<and>
     io_read_all (\<lambda>_. 0) (ReadStream (registry_fetcher (honest_env [1, 2])) h) (s', w') = (Val (content, None), sw'') \<and>
     hex_encode (sha256 content) = DiffID (sample_layer [1, 2])"
proof -
  obtain h n s' w' where
    s: "StreamBlob (registry_fetcher (honest_env [1, 2])) (sample_layer [1, 2]) (open_source 5, sample_world) =
       (Val (Inr (h, n)), (s', w'))" and "length (unread (br_reader h) w') \<le> 5"
    using sample_stream_blob [of "[1, 2]" 5 sample_world] by auto
  then have "\<forall>k \<le> length (unread (br_reader h) w'). k + 1 + (\<lambda>_. 0) k < 2 ^ 63" by auto
  from stream_delivers_verified_content [OF s _ _ _ this] s show ?thesis by auto
qed

end
