(* ===== verification/Groot_Core.thy ===== *)
theory Groot_Core
  imports Image_Puller
begin

text \<open>
  The operations of the library's \<^verbatim>\<open>Groot\<close> object: \<^verbatim>\<open>create.go\<close>, \<^verbatim>\<open>pull.go\<close>,
  \<^verbatim>\<open>delete.go\<close> and \<^verbatim>\<open>stats.go\<close>, with the driver interface of \<^verbatim>\<open>groot.go\<close>.
  They act on the state \<open>'w\<close> of the image puller's fetcher and the state \<open>'d\<close> of the driver.
\<close>

section \<open>Data\<close>

record disk_usage =
  TotalBytesUsed :: int64
  ExclusiveBytesUsed :: int64

record volume_stats =
  DiskUsage :: disk_usage

record image_metadata =
  im_Size :: int64

text \<open>
  Of \<^verbatim>\<open>runspec.Spec\<close> and \<^verbatim>\<open>runspec.Process\<close> the program reads and writes the
  environment of the process only; the rest is carried along.
\<close>

record process =
  pr_Env :: "string list"
  pr_rest :: string

record runtime_spec =
  sp_Process :: "process option"
  sp_rest :: string

definition empty_process :: process where
  "empty_process = \<lparr>pr_Env = [], pr_rest = ''''\<rparr>"

definition empty_spec :: runtime_spec where
  "empty_spec = \<lparr>sp_Process = None, sp_rest = ''''\<rparr>"

section \<open>Interfaces\<close>

record 'd driver =
  Unpack :: "'d unpack"
  Bundle :: "string \<Rightarrow> string list \<Rightarrow> int64 \<Rightarrow> 'd \<Rightarrow> runtime_spec res outcome \<times> 'd"
  Delete :: "string \<Rightarrow> 'd \<Rightarrow> error option outcome \<times> 'd"
  Stats :: "string \<Rightarrow> 'd \<Rightarrow> volume_stats res outcome \<times> 'd"
  WriteMetadata :: "string \<Rightarrow> image_metadata \<Rightarrow> 'd \<Rightarrow> error option outcome \<times> 'd"

type_synonym ('w, 'd) image_puller =
  "image_spec \<Rightarrow> 'w \<times> 'd \<Rightarrow> pulled_image res outcome \<times> ('w \<times> 'd)"

text \<open>A driver call, made from a state that also holds the puller's.\<close>

definition on_driver :: "'a outcome \<times> 'd \<Rightarrow> 'w \<Rightarrow> 'a outcome \<times> ('w \<times> 'd)" where
  "on_driver r w = obind r (\<lambda>x d. (Val x, (w, d))) (\<lambda>d. (w, d))"

lemma on_driver_simps [simp]:
  "on_driver (Val x, d) w = (Val x, (w, d))"
  "on_driver (Panic m, d) w = (Panic m, (w, d))"
  "on_driver (Diverges, d) w = (Diverges, (w, d))"
  by (simp_all add: on_driver_def)

section \<open>Create\<close>

text \<open>The environment of the image appended to that of the bundle's process.\<close>

definition add_env :: "string list \<Rightarrow> runtime_spec \<Rightarrow> runtime_spec" where
  "add_env env bundle =
     (if env \<noteq> []
      then bundle\<lparr>sp_Process :=
             (let p = (case sp_Process bundle of None \<Rightarrow> empty_process | Some p \<Rightarrow> p)
              in Some (p\<lparr>pr_Env := pr_Env p @ env\<rparr>))\<rparr>
      else bundle)"

text \<open>The quota left for the bundle, or the error of an image that leaves none.\<close>

definition bundle_quota :: "int64 \<Rightarrow> bool \<Rightarrow> int64 \<Rightarrow> int64 res" where
  "bundle_quota diskLimit excludeImageFromQuota imageSize =
     (if diskLimit \<noteq> 0 \<and> \<not> excludeImageFromQuota then
        (let quota = diskLimit - imageSize
         in if sint quota \<le> 0
            then Inl (ErrNew (''disk limit '' @ show_int64 diskLimit @ '' must be larger than image size '' @
                   show_int64 imageSize))
            else Inr quota)
      else Inr diskLimit)"

text \<open>
  The result is the pair that the code returns: the specification is returned together with
  the error of \<^verbatim>\<open>WriteMetadata\<close>.
\<close>

definition create :: "('w, 'd) image_puller \<Rightarrow> 'd driver \<Rightarrow> string \<Rightarrow> int64 \<Rightarrow> bool \<Rightarrow> 'w \<times> 'd \<Rightarrow>
    (runtime_spec \<times> error option) outcome \<times> ('w \<times> 'd)" where
  "create P D handle diskLimit excludeImageFromQuota wd =
     (if sint diskLimit < 0
      then (Val (empty_spec, Some (ErrNew (''invalid disk limit: '' @ show_int64 diskLimit))), wd)
      else
        seq (P \<lparr>DiskLimit = diskLimit, ExcludeImageFromQuota = excludeImageFromQuota\<rparr> wd) (\<lambda>r (w, d).
          (case r of
             Inl e \<Rightarrow> (Val (empty_spec, Some (ErrWrap ''pulling image'' e)), (w, d))
           | Inr img \<Rightarrow>
               (case bundle_quota diskLimit excludeImageFromQuota (pi_Size img) of
                  Inl e \<Rightarrow> (Val (empty_spec, Some e), (w, d))
                | Inr quota \<Rightarrow>
                    seq (on_driver (Bundle D handle (ChainIDs img) quota d) w) (\<lambda>r (w, d).
                      (case r of
                         Inl e \<Rightarrow> (Val (empty_spec, Some (ErrWrap ''creating bundle'' e)), (w, d))
                       | Inr bundle \<Rightarrow>
                           seq (on_driver (WriteMetadata D handle \<lparr>im_Size = pi_Size img\<rparr> d) w)
                             (\<lambda>err wd. (Val (add_env (ic_Env (pi_Config img)) bundle, err), wd))))))))"

section \<open>Pull, Delete and Stats\<close>

definition groot_pull :: "('w, 'd) image_puller \<Rightarrow> 'w \<times> 'd \<Rightarrow> error option outcome \<times> ('w \<times> 'd)" where
  "groot_pull P wd =
     seq (P \<lparr>DiskLimit = 0, ExcludeImageFromQuota = False\<rparr> wd) (\<lambda>r wd.
       (Val (wrap_err ''pulling image'' (case r of Inl e \<Rightarrow> Some e | Inr _ \<Rightarrow> None)), wd))"

definition groot_delete :: "'d driver \<Rightarrow> string \<Rightarrow> 'd \<Rightarrow> error option outcome \<times> 'd" where
  "groot_delete D handle d = Delete D handle d"

definition groot_stats :: "'d driver \<Rightarrow> string \<Rightarrow> 'd \<Rightarrow> volume_stats res outcome \<times> 'd" where
  "groot_stats D handle d = Stats D handle d"

section \<open>The contract of a puller\<close>

text \<open>
  What the operations rely on: a pull that returns leaves its fetcher as idle as it was.  The
  image puller over any fetcher that keeps its contract is such a puller.
\<close>

locale puller_contract =
  fixes P :: "('w, 'd) image_puller" and idle :: "'w \<Rightarrow> bool"
  assumes pull_keeps: "idle w \<Longrightarrow> P spec (w, d) = (Val r, (w', d')) \<Longrightarrow> idle w'"
begin

lemma create_keeps:
  assumes "idle w" "create P D handle limit exclude (w, d) = (Val r, (w', d'))"
  shows "idle w'"
proof (cases "sint limit < 0")
  case True
  with assms show ?thesis by (simp add: create_def)
next
  case False
  let ?spec = "\<lparr>DiskLimit = limit, ExcludeImageFromQuota = exclude\<rparr>"
  obtain x w1 d1 where p: "P ?spec (w, d) = (Val x, (w1, d1))"
    using assms(2) False by (auto simp: create_def call_returns)
  note w1 = pull_keeps [OF assms(1) p]
  show ?thesis
  proof (cases "\<exists>img quota. x = Inr img \<and> bundle_quota limit exclude (pi_Size img) = Inr quota")
    case False
    with p assms(2) w1 \<open>\<not> sint limit < 0\<close> show ?thesis
      by (auto simp: create_def split: sum.splits)
  next
    case True
    then obtain img quota where x: "x = Inr img" "bundle_quota limit exclude (pi_Size img) = Inr quota" by blast
    obtain y d2 where b: "Bundle D handle (ChainIDs img) quota d1 = (y, d2)" by fastforce
    show ?thesis
      using p assms(2) w1 x b False
      by (cases "WriteMetadata D handle \<lparr>im_Size = pi_Size img\<rparr> d2"; cases "fst (WriteMetadata D handle \<lparr>im_Size = pi_Size img\<rparr> d2)")
        (auto simp: create_def on_driver_def obind_def split: outcome.splits sum.splits)
  qed
qed

lemma groot_pull_keeps:
  "idle w \<Longrightarrow> groot_pull P (w, d) = (Val r, (w', d')) \<Longrightarrow> idle w'"
  by (auto simp: groot_pull_def call_returns intro: pull_keeps)

end

sublocale fetcher_contract \<subseteq> puller: puller_contract "pull F unpack" idle for unpack :: "'d unpack"
  by unfold_locales (rule pull_idle)

section \<open>What Create does\<close>

text \<open>
  A driver that finds four bytes in every layer, counts its calls and returns the given error
  for the metadata.
\<close>

definition counting_driver :: "error option \<Rightarrow> nat driver" where
  "counting_driver e =
     \<lparr>Unpack = four_bytes,
      Bundle = (\<lambda>handle ids quota d. (Val (Inr \<lparr>sp_Process = None, sp_rest = handle\<rparr>), Suc d)),
      Delete = (\<lambda>handle d. (Val None, Suc d)),
      Stats = (\<lambda>handle d. (Val (Inr \<lparr>DiskUsage = \<lparr>TotalBytesUsed = 1, ExclusiveBytesUsed = 1\<rparr>\<rparr>), Suc d)),
      WriteMetadata = (\<lambda>handle meta d. (Val e, Suc d))\<rparr>"

text \<open>
  A creation that succeeds has pulled the image with the limit it was given, asked the driver to
  bundle exactly the image's volumes with the quota that is left for the bundle, and recorded the
  image's size; the environment of the image follows that of the bundle.
\<close>

lemma create_success:
  assumes "create P D handle limit exclude (w, d) = (Val (spec, None), (w', d'))"
  shows "0 \<le> sint limit \<and>
    (\<exists>img d1 quota bundle d2.
       P \<lparr>DiskLimit = limit, ExcludeImageFromQuota = exclude\<rparr> (w, d) = (Val (Inr img), (w', d1)) \<and>
       Bundle D handle (ChainIDs img) quota d1 = (Val (Inr bundle), d2) \<and>
       WriteMetadata D handle \<lparr>im_Size = pi_Size img\<rparr> d2 = (Val None, d') \<and>
       spec = add_env (ic_Env (pi_Config img)) bundle \<and>
       (if limit = 0 \<or> exclude then quota = limit else quota = limit - pi_Size img \<and> 0 < sint quota))"
proof -
  have limit: "\<not> sint limit < 0" using assms by (auto simp: create_def)
  let ?spec = "\<lparr>DiskLimit = limit, ExcludeImageFromQuota = exclude\<rparr>"
  obtain x w1 d1 where p: "P ?spec (w, d) = (Val x, (w1, d1))"
    using assms limit by (auto simp: create_def call_returns)
  obtain img where x: "x = Inr img" using assms limit p by (cases x) (auto simp: create_def)
  obtain quota where q: "bundle_quota limit exclude (pi_Size img) = Inr quota"
    using assms limit p x by (cases "bundle_quota limit exclude (pi_Size img)") (auto simp: create_def)
  obtain y d2 where b: "Bundle D handle (ChainIDs img) quota d1 = (Val y, d2)"
    using assms limit p x q
    by (cases "Bundle D handle (ChainIDs img) quota d1"; cases "fst (Bundle D handle (ChainIDs img) quota d1)")
      (auto simp: create_def)
  obtain sp where y: "y = Inr sp" using assms limit p x q b by (cases y) (auto simp: create_def)
  have wm: "WriteMetadata D handle \<lparr>im_Size = pi_Size img\<rparr> d2 = (Val None, d')" "w' = w1"
      "spec = add_env (ic_Env (pi_Config img)) sp"
    using assms limit p x q b y
    by (cases "WriteMetadata D handle \<lparr>im_Size = pi_Size img\<rparr> d2"; cases "fst (WriteMetadata D handle \<lparr>im_Size = pi_Size img\<rparr> d2)";
        auto simp: create_def)+
  have "if limit = 0 \<or> exclude then quota = limit else quota = limit - pi_Size img \<and> 0 < sint quota"
    using q by (auto simp: bundle_quota_def Let_def split: if_splits)
  moreover have "0 \<le> sint limit" using limit by simp
  ultimately show ?thesis
    using p [unfolded x] b [unfolded y] wm
    by (intro conjI exI [of _ img] exI [of _ d1] exI [of _ quota] exI [of _ sp] exI [of _ d2]) simp_all
qed

text \<open>
  With a limit that counts the image, an image at least as large as the limit is not
  bundled: the creation fails with the error that names both, and the driver is not asked for
  anything after the pull.
\<close>

lemma create_rejects_large_image:
  assumes "P \<lparr>DiskLimit = limit, ExcludeImageFromQuota = False\<rparr> (w, d) = (Val (Inr img), (w', d'))"
    and "0 < sint limit" "sint limit \<le> sint (pi_Size img)"
  shows "create P D handle limit False (w, d) =
    (Val (empty_spec, Some (ErrNew (''disk limit '' @ show_int64 limit @ '' must be larger than image size '' @
       show_int64 (pi_Size img)))), (w', d'))"
proof -
  have "sint (limit - pi_Size img) = sint limit - sint (pi_Size img)"
    using assms(2,3) sint_range64 [of limit] sint_range64 [of "pi_Size img"] by (intro sint_sub64) auto
  with assms show ?thesis by (auto simp: create_def bundle_quota_def Let_def)
qed

text \<open>
  A negative limit is refused before anything is pulled.
\<close>

lemma create_rejects_negative_limit:
  assumes "sint limit < 0"
  shows "create P D handle limit exclude wd =
    (Val (empty_spec, Some (ErrNew (''invalid disk limit: -'' @ show_nat (nat (- sint limit))))), wd)"
  using assms by (simp add: create_def show_int64_def show_int_def)

text \<open>
  The error of recording the image's size is returned with the finished specification, and
  the bundle stays.
\<close>

lemma create_returns_metadata_error:
  assumes "P \<lparr>DiskLimit = limit, ExcludeImageFromQuota = exclude\<rparr> (w, d) = (Val (Inr img), (w1, d1))"
    and "0 \<le> sint limit" "bundle_quota limit exclude (pi_Size img) = Inr quota"
    and "Bundle D handle (ChainIDs img) quota d1 = (Val (Inr bundle), d2)"
    and "WriteMetadata D handle \<lparr>im_Size = pi_Size img\<rparr> d2 = (Val (Some e), d3)"
  shows "create P D handle limit exclude (w, d) =
    (Val (add_env (ic_Env (pi_Config img)) bundle, Some e), (w1, d3))"
  using assms by (simp add: create_def)

end
