(* ===== verification/Groot_Config.thy ===== *)
theory Groot_Config
  imports Sample_World
begin

text \<open>
  \<^verbatim>\<open>config.go\<close>: reading the configuration file.  The YAML decoder is a third-party
  library, hence a parameter: a function of the file's content and the configuration decoded
  into.
\<close>

record config =
  LogLevel :: string
  InsecureRegistries :: "string list"

definition empty_conf :: config where
  "empty_conf = \<lparr>LogLevel = '''', InsecureRegistries = []\<rparr>"

type_synonym yaml_decoder = "bytes \<Rightarrow> config \<Rightarrow> config res"

definition apply_defaults :: "config \<Rightarrow> config" where
  "apply_defaults conf = (if LogLevel conf = '''' then conf\<lparr>LogLevel := ''info''\<rparr> else conf)"

text \<open>\<^verbatim>\<open>os.ReadFile\<close>: open, read to the end, close.\<close>

definition os_read_file :: "'z env \<Rightarrow> string \<Rightarrow> world \<Rightarrow> bytes res outcome \<times> world" where
  "os_read_file E path w =
     attempt (returning (os_open E path w)) (\<lambda>e. e) (\<lambda>fd w.
       obind (io_read_all (read_all_grow E) (os_read E fd) w)
         (\<lambda>(data, err) w. (Val (case err of None \<Rightarrow> Inr data | Some e \<Rightarrow> Inl e), snd (os_close E fd w)))
         (\<lambda>w. snd (os_close E fd w)))"

text \<open>
  The deferred function applies the defaults when no error is returned; with an error the
  configuration returned is the zero one, which no caller looks at.
\<close>

definition parse_config :: "'z env \<Rightarrow> yaml_decoder \<Rightarrow> string \<Rightarrow> world \<Rightarrow> config res outcome \<times> world" where
  "parse_config E unmarshal configFilePath w =
     seq (if configFilePath = [] then (Val (Inr empty_conf), w)
          else
            attempt (os_read_file E configFilePath w) (ErrWrap ''reading config file'')
              (\<lambda>contents w. (Val (wrap_res ''parsing config file'' (unmarshal contents empty_conf)), w)))
       (\<lambda>r w. (Val (map_sum id apply_defaults r), w))"

section \<open>Lemmas\<close>

lemma apply_defaults_level [simp]: "LogLevel (apply_defaults conf) \<noteq> ''''"
  by (simp add: apply_defaults_def)

lemma apply_defaults_idem: "apply_defaults (apply_defaults conf) = apply_defaults conf"
  by (simp add: apply_defaults_def)

lemma io_read_all_invariant:
  assumes "io_read_all grow rd s = (r, s')" "P s" "\<And>n s x t. P s \<Longrightarrow> rd n s = (x, t) \<Longrightarrow> P t"
  shows "P s'"
proof -
  let ?c = "\<lparr>ra_cap = 512, ra_buf = [], ra_src = s\<rparr>"
  have round: "case read_all_round grow rd c of Inl (_, t) \<Rightarrow> P t | Inr c' \<Rightarrow> P (ra_src c')" if "P (ra_src c)" for c
    using that assms(3) by (auto simp: read_all_round_def Let_def split: prod.splits outcome.splits option.splits)
  show ?thesis
  proof (cases "loop (read_all_round grow rd) ?c")
    case (Some res)
    then have "P (snd res)"
      by (rule loop_rule [where J = "\<lambda>c. P (ra_src c)"]) (use assms(2) round in \<open>force split: prod.splits\<close>)+
    with Some assms(1) show ?thesis by (simp add: io_read_all_def)
  qed (use assms in \<open>simp add: io_read_all_def\<close>)
qed

text \<open>Reading a file leaves the world as it was.\<close>

lemma os_read_file_quiet:
  assumes "os_read_file E path w = (Val r, w')" "wf_world w"
  shows "quiet w w' \<and> open_sources w' = open_sources w"
proof (cases "os_open E path w")
  case (Pair x w1)
  show ?thesis
  proof (cases x)
    case (Inl e)
    with assms(1) Pair os_open_err [of E path w e w1] show ?thesis
      by (simp add: os_read_file_def quiet_def)
  next
    case (Inr fd)
    note opened = os_open_ok [OF Pair [unfolded Inr] assms(2)]
    obtain y w2 where rd: "io_read_all (read_all_grow E) (os_read E fd) w1 = (y, w2)" by fastforce
    have "fs w2 = fs w1 \<and> (fds w2)(fd := None) = (fds w1)(fd := None) \<and> next_fd w2 = next_fd w1 \<and>
        open_blobs w2 = open_blobs w1 \<and> open_sources w2 = open_sources w1"
      by (rule io_read_all_invariant [OF rd]) (simp, metis os_read_frame(1-3,5,6))
    with assms(1) Pair Inr rd opened show ?thesis
      by (cases y) (auto simp: os_read_file_def quiet_def)
  qed
qed

lemma parse_config_quiet:
  assumes "parse_config E unmarshal path w = (Val r, w')" "wf_world w"
  shows "quiet w w' \<and> open_sources w' = open_sources w"
proof (cases "path = ''''")
  case True
  with assms(1) show ?thesis by (simp add: parse_config_def)
next
  case False
  with assms(1) obtain x where "os_read_file E path w = (Val x, w')"
    by (auto simp: parse_config_def call_returns)
  then show ?thesis using assms(2) by (rule os_read_file_quiet)
qed

text \<open>
  A configuration that has been read never lacks a log level: an empty one becomes
  \<open>info\<close>, any other is the decoder's, as are the insecure registries.  Without a file the
  configuration is the default one.
\<close>

lemma config_has_log_level:
  assumes "parse_config E unmarshal path w = (Val (Inr conf), w')"
  shows "LogLevel conf \<noteq> '''' \<and>
    (if path = '''' then conf = \<lparr>LogLevel = ''info'', InsecureRegistries = []\<rparr>
     else \<exists>contents c. os_read_file E path w = (Val (Inr contents), w') \<and> unmarshal contents empty_conf = Inr c \<and>
       InsecureRegistries conf = InsecureRegistries c \<and>
       LogLevel conf = (if LogLevel c = '''' then ''info'' else LogLevel c))"
proof (cases "path = ''''")
  case True
  with assms show ?thesis by (auto simp: parse_config_def empty_conf_def apply_defaults_def)
next
  case False
  with assms obtain contents c where "os_read_file E path w = (Val (Inr contents), w')"
    "unmarshal contents empty_conf = Inr c" "conf = apply_defaults c"
    by (auto simp: parse_config_def call_returns map_sum_eq_Inr wrap_res_Inr)
  with False show ?thesis by (auto simp: apply_defaults_def)
qed

lemma sample_config_file:
  "\<exists>w'. os_read_file (honest_env []) ''/image.tar'' (file_world [1]) = (Val (Inr [1]), w')"
proof -
  let ?E = "honest_env []"
  obtain w1 where o: "os_open ?E ''/image.tar'' (file_world [1]) = (Inr 0, w1)" "readable ?E 0 w1" "unread 0 w1 = [1]"
    by (simp add: os_open_def readable_def unread_def)
  from os_file.read_all_ok [OF o(2), of "read_all_grow ?E"] o(3) obtain w2 where
    "io_read_all (read_all_grow ?E) (os_read ?E 0) w1 = (Val ([1], None), w2)"
    by (auto simp: eof_to_nil_def)
  with o(1) show ?thesis by (simp add: os_read_file_def)
qed

end
