(* ===== verification/Groot_Cli.thy ===== *)
theory Groot_Cli
  imports Pulling Groot_Core Groot_Config
begin

text \<open>
  The command line of \<^verbatim>\<open>groot.go\<close>: \<^verbatim>\<open>Run\<close> with its four commands, the
  preparation in \<^verbatim>\<open>Before\<close>, and the choice of the fetcher.  The framework
  \<^verbatim>\<open>urfave/cli\<close> is third-party code: what it makes of the arguments and what it prints
  by itself are parameters.  Everything the program prints goes to the standard output, a list
  of texts in the order they are written, of which nothing arrives when the standard output cannot
  be written; its log goes to the standard error and is left out.
\<close>

section \<open>The framework\<close>

datatype flag_kind = StringKind | BoolKind | Int64Kind

datatype flag_value = StringFlag string | BoolFlag bool | Int64Flag int64

text \<open>The context of a command: its positional arguments and the values of its flags.\<close>

record cli_context =
  ctx_Args :: "string list"
  ctx_Flags :: "(string \<times> flag_value) list"

text \<open>A flag that the command does not have is looked up as the zero value of the type.\<close>

definition ctx_String :: "cli_context \<Rightarrow> string \<Rightarrow> string" where
  "ctx_String ctx name = (case map_of (ctx_Flags ctx) name of Some (StringFlag s) \<Rightarrow> s | _ \<Rightarrow> '''')"

definition ctx_Bool :: "cli_context \<Rightarrow> string \<Rightarrow> bool" where
  "ctx_Bool ctx name = (case map_of (ctx_Flags ctx) name of Some (BoolFlag b) \<Rightarrow> b | _ \<Rightarrow> False)"

definition ctx_Int64 :: "cli_context \<Rightarrow> string \<Rightarrow> int64" where
  "ctx_Int64 ctx name = (case map_of (ctx_Flags ctx) name of Some (Int64Flag n) \<Rightarrow> n | _ \<Rightarrow> 0)"

datatype command = CreateCommand | PullCommand | DeleteCommand | StatsCommand

text \<open>
  What the arguments ask for.  The framework deals with usage errors and help itself; a usage
  error of the global flags and global help come before \<^verbatim>\<open>Before\<close>, everything else after
  it.  \<open>FrameworkExit\<close> is an unknown command, for which the framework ends the process.
\<close>

datatype command_request =
    CommandUsage error
  | CommandHelp
  | FrameworkExit nat
  | Invoke command cli_context

datatype cli_request =
    GlobalUsage error
  | GlobalHelp
  | Dispatch string command_request

record cli_env =
  parse_args :: "string list \<Rightarrow> cli_request"
  error_page :: "string list \<Rightarrow> error \<Rightarrow> string"
  help_page :: "string list \<Rightarrow> string"
  yaml_unmarshal :: yaml_decoder
  json_spec :: "runtime_spec \<Rightarrow> string res"
  stdout_fault :: "error option"

section \<open>The commands and their flags\<close>

definition create_flags :: "(string \<times> flag_kind) list" where
  "create_flags =
     [(''disk-limit-size-bytes'', Int64Kind), (''exclude-image-from-quota'', BoolKind),
      (''username'', StringKind), (''password'', StringKind)]"

definition pull_flags :: "(string \<times> flag_kind) list" where
  "pull_flags = [(''username'', StringKind), (''password'', StringKind)]"

definition command_flags :: "command \<Rightarrow> (string \<times> flag_kind) list" where
  "command_flags c =
     (case c of CreateCommand \<Rightarrow> create_flags | PullCommand \<Rightarrow> pull_flags
      | DeleteCommand \<Rightarrow> [] | StatsCommand \<Rightarrow> [])"

text \<open>What the framework documents: a context has no flags but those of its command.\<close>

definition declared_flags_only :: "cli_env \<Rightarrow> bool" where
  "declared_flags_only C \<longleftrightarrow>
     (\<forall>argv path c ctx. parse_args C argv = Dispatch path (Invoke c ctx) \<longrightarrow>
        fst ` set (ctx_Flags ctx) \<subseteq> fst ` set (command_flags c))"

section \<open>Logger, errors and arguments\<close>

datatype log_level = DEBUG | INFO | ERROR | FATAL

definition log_levels :: "string \<rightharpoonup> log_level" where
  "log_levels = map_of [(''debug'', DEBUG), (''info'', INFO), (''error'', ERROR), (''fatal'', FATAL)]"

definition new_logger :: "string \<Rightarrow> log_level res" where
  "new_logger logLevelStr =
     (case log_levels logLevelStr of
        None \<Rightarrow> Inl (ErrNew (''invalid log level: '' @ logLevelStr))
      | Some logLevel \<Rightarrow> Inr logLevel)"

text \<open>\<^verbatim>\<open>SilentError\<close> and its constructor; its text is that of the error inside.\<close>

definition silent_error :: "error \<Rightarrow> error" where
  "silent_error e = ErrSilent e"

definition is_silent :: "error \<Rightarrow> bool" where
  "is_silent e = (case e of ErrSilent _ \<Rightarrow> True | _ \<Rightarrow> False)"

definition validate_args :: "cli_context \<Rightarrow> nat \<Rightarrow> error option" where
  "validate_args ctx num =
     (if length (ctx_Args ctx) \<noteq> num
      then Some (ErrNew (''Incorrect number of args. Expect '' @ show_nat num @ '', got '' @
             show_nat (length (ctx_Args ctx))))
      else None)"

section \<open>Choosing the fetcher\<close>

record docker_config =
  dc_InsecureRegistries :: "string list"
  dc_Username :: string
  dc_Password :: string

primrec skip_tls_validation :: "url \<Rightarrow> string list \<Rightarrow> bool" where
  "skip_tls_validation baseImageURL [] = False"
| "skip_tls_validation baseImageURL (trustedRegistry # rest) =
     (if Host baseImageURL = trustedRegistry then True else skip_tls_validation baseImageURL rest)"

definition should_skip_image_quota_validation :: "bool \<Rightarrow> int64 \<Rightarrow> bool" where
  "should_skip_image_quota_validation excludeImageFromQuota diskLimitSizeBytes =
     (excludeImageFromQuota \<or> diskLimitSizeBytes = 0)"

text \<open>The fetcher is a layer fetcher on a layer source, or the file fetcher of a path.\<close>

datatype image_fetcher = RegistryImage layer_source | LocalImage string

definition docker_context :: "url \<Rightarrow> docker_config \<Rightarrow> system_context" where
  "docker_context u dockerConfig =
     \<lparr>sc_DockerInsecureSkipTLSVerify =
        (if Scheme u = ''docker''
         then Some (skip_tls_validation u (dc_InsecureRegistries dockerConfig)) else None),
      sc_DockerAuthConfig =
        (if Scheme u = ''docker''
         then Some (dc_Username dockerConfig, dc_Password dockerConfig) else None)\<rparr>"

definition create_fetcher :: "string \<Rightarrow> bool \<Rightarrow> int64 \<Rightarrow> docker_config \<Rightarrow> image_fetcher res" where
  "create_fetcher urlAsString excludeImageFromQuota diskLimitSizeBytes dockerConfig =
     (case url_parse urlAsString of
        Inl e \<Rightarrow> Inl e
      | Inr u \<Rightarrow>
          if Scheme u = ''oci'' \<or> Scheme u = ''docker''
          then Inr (RegistryImage (new_layer_source (docker_context u dockerConfig) False
                 (should_skip_image_quota_validation excludeImageFromQuota diskLimitSizeBytes)
                 diskLimitSizeBytes u))
          else Inr (LocalImage (new_file_fetcher u)))"

section \<open>The actions of the commands\<close>

text \<open>What an action has printed, and the error it returns.\<close>

type_synonym report = "string list \<times> error option"

definition newline :: string where
  "newline = [char_of (10 :: nat)]"

text \<open>\<^verbatim>\<open>json.NewEncoder(os.Stdout).Encode\<close>: the text and a newline in one write.\<close>

definition json_encode :: "cli_env \<Rightarrow> string res \<Rightarrow> report" where
  "json_encode C json =
     (case json of
        Inl e \<Rightarrow> ([], Some e)
      | Inr text \<Rightarrow> (case stdout_fault C of Some e \<Rightarrow> ([], Some e) | None \<Rightarrow> ([text @ newline], None)))"

definition json_stats :: "volume_stats \<Rightarrow> string" where
  "json_stats stats =
     ''{\"disk_usage\":{\"total_bytes_used\":'' @ show_int64 (TotalBytesUsed (DiskUsage stats)) @
     '',\"exclusive_bytes_used\":'' @ show_int64 (ExclusiveBytesUsed (DiskUsage stats)) @ ''}}''"

text \<open>
  The deferred \<^verbatim>\<open>fetcher.Close()\<close>, also after a panic; its error is dropped.
\<close>

definition closing :: "('w \<Rightarrow> error option \<times> 'w) \<Rightarrow> 'a outcome \<times> ('w \<times> 'd) \<Rightarrow> 'a outcome \<times> ('w \<times> 'd)" where
  "closing close r =
     (case r of (x, (w, d)) \<Rightarrow> (case x of Diverges \<Rightarrow> (Diverges, (w, d)) | _ \<Rightarrow> (x, (snd (close w), d))))"

text \<open>
  An action on the fetcher of an image: the image puller on the fetcher is handed to the rest of
  the action, and the fetcher is closed.  The state of a registry fetcher is its source and the
  world, that of a file fetcher the world.
\<close>

definition with_fetcher :: "('w, 'r) fetcher \<Rightarrow> 'd driver \<Rightarrow>
    (('w, 'd) image_puller \<Rightarrow> 'w \<times> 'd \<Rightarrow> report outcome \<times> ('w \<times> 'd)) \<Rightarrow> 'w \<times> 'd \<Rightarrow> report outcome \<times> ('w \<times> 'd)" where
  "with_fetcher F D body wd = closing (CloseFetcher F) (body (new_image_puller F (Unpack D)) wd)"

definition with_source :: "layer_source \<Rightarrow> (ls_world \<times> 'd \<Rightarrow> report outcome \<times> (ls_world \<times> 'd)) \<Rightarrow>
    world \<times> 'd \<Rightarrow> report outcome \<times> (world \<times> 'd)" where
  "with_source s act wd =
     obind (act ((s, fst wd), snd wd)) (\<lambda>x swd. (Val x, (snd (fst swd), snd swd))) (\<lambda>swd. (snd (fst swd), snd swd))"

definition create_body :: "cli_env \<Rightarrow> 'd driver \<Rightarrow> cli_context \<Rightarrow> ('w, 'd) image_puller \<Rightarrow> 'w \<times> 'd \<Rightarrow>
    report outcome \<times> ('w \<times> 'd)" where
  "create_body C D ctx P wd =
     seq (create P D (ctx_Args ctx ! 1) (ctx_Int64 ctx ''disk-limit-size-bytes'')
            (ctx_Bool ctx ''exclude-image-from-quota'') wd)
       (\<lambda>(runtimeSpec, err) wd.
          (Val (case err of Some e \<Rightarrow> ([], Some e) | None \<Rightarrow> json_encode C (json_spec C runtimeSpec)), wd))"

definition pull_body :: "('w, 'd) image_puller \<Rightarrow> 'w \<times> 'd \<Rightarrow> report outcome \<times> ('w \<times> 'd)" where
  "pull_body P wd = seq (groot_pull P wd) (\<lambda>err wd. (Val ([], err), wd))"

text \<open>The fetcher that \<^verbatim>\<open>create\<close> and \<^verbatim>\<open>pull\<close> make of their context.\<close>

definition context_fetcher :: "config \<Rightarrow> cli_context \<Rightarrow> image_fetcher res" where
  "context_fetcher conf ctx =
     create_fetcher (ctx_Args ctx ! 0) (ctx_Bool ctx ''exclude-image-from-quota'')
       (ctx_Int64 ctx ''disk-limit-size-bytes'')
       \<lparr>dc_InsecureRegistries = InsecureRegistries conf,
        dc_Username = ctx_String ctx ''username'', dc_Password = ctx_String ctx ''password''\<rparr>"

definition create_action :: "'z env \<Rightarrow> cli_env \<Rightarrow> 'd driver \<Rightarrow> config \<Rightarrow> cli_context \<Rightarrow> world \<times> 'd \<Rightarrow>
    report outcome \<times> (world \<times> 'd)" where
  "create_action E C D conf ctx wd =
     (case validate_args ctx 2 of
        Some e \<Rightarrow> (Val ([], Some e), wd)
      | None \<Rightarrow>
          (case context_fetcher conf ctx of
             Inl e \<Rightarrow> (Val ([], Some e), wd)
           | Inr (RegistryImage s) \<Rightarrow>
               with_source s (with_fetcher (registry_fetcher E) D (create_body C D ctx)) wd
           | Inr (LocalImage path) \<Rightarrow> with_fetcher (file_fetcher E path) D (create_body C D ctx) wd))"

definition pull_action :: "'z env \<Rightarrow> 'd driver \<Rightarrow> config \<Rightarrow> cli_context \<Rightarrow> world \<times> 'd \<Rightarrow>
    report outcome \<times> (world \<times> 'd)" where
  "pull_action E D conf ctx wd =
     (case validate_args ctx 1 of
        Some e \<Rightarrow> (Val ([], Some e), wd)
      | None \<Rightarrow>
          (case context_fetcher conf ctx of
             Inl e \<Rightarrow> (Val ([], Some e), wd)
           | Inr (RegistryImage s) \<Rightarrow> with_source s (with_fetcher (registry_fetcher E) D pull_body) wd
           | Inr (LocalImage path) \<Rightarrow> with_fetcher (file_fetcher E path) D pull_body wd))"

definition delete_action :: "'d driver \<Rightarrow> cli_context \<Rightarrow> world \<times> 'd \<Rightarrow> report outcome \<times> (world \<times> 'd)" where
  "delete_action D ctx wd =
     (case validate_args ctx 1 of
        Some e \<Rightarrow> (Val ([], Some e), wd)
      | None \<Rightarrow> seq (on_driver (groot_delete D (ctx_Args ctx ! 0) (snd wd)) (fst wd)) (\<lambda>err wd. (Val ([], err), wd)))"

definition stats_action :: "cli_env \<Rightarrow> 'd driver \<Rightarrow> cli_context \<Rightarrow> world \<times> 'd \<Rightarrow> report outcome \<times> (world \<times> 'd)" where
  "stats_action C D ctx wd =
     (case validate_args ctx 1 of
        Some e \<Rightarrow> (Val ([], Some e), wd)
      | None \<Rightarrow>
          seq (on_driver (groot_stats D (ctx_Args ctx ! 0) (snd wd)) (fst wd)) (\<lambda>r wd.
            (Val (case r of Inl e \<Rightarrow> ([], Some e) | Inr stats \<Rightarrow> json_encode C (Inr (json_stats stats))), wd)))"

section \<open>Run\<close>

definition before :: "'z env \<Rightarrow> yaml_decoder \<Rightarrow> string \<Rightarrow> world \<Rightarrow> (config \<times> log_level) res outcome \<times> world" where
  "before E unmarshal configPath w =
     attempt (parse_config E unmarshal configPath w) silent_error (\<lambda>conf w.
       (Val (case new_logger (LogLevel conf) of Inl e \<Rightarrow> Inl e | Inr logger \<Rightarrow> Inr (conf, logger)), w))"

definition run_action :: "'z env \<Rightarrow> cli_env \<Rightarrow> 'd driver \<Rightarrow> config \<Rightarrow> command \<Rightarrow> cli_context \<Rightarrow> world \<times> 'd \<Rightarrow>
    report outcome \<times> (world \<times> 'd)" where
  "run_action E C D conf c ctx =
     (case c of
        CreateCommand \<Rightarrow> create_action E C D conf ctx
      | PullCommand \<Rightarrow> pull_action E D conf ctx
      | DeleteCommand \<Rightarrow> delete_action D ctx
      | StatsCommand \<Rightarrow> stats_action C D ctx)"

text \<open>What arrives on the standard output of what is printed: \<^verbatim>\<open>fmt.Println\<close> ignores errors.\<close>

definition printed :: "cli_env \<Rightarrow> string list \<Rightarrow> string list" where
  "printed C out = (case stdout_fault C of None \<Rightarrow> out | Some _ \<Rightarrow> [])"

lemma printed_simps [simp]: "printed C [] = []" "stdout_fault C = None \<Longrightarrow> printed C out = out"
  by (simp_all add: printed_def split: option.split)

text \<open>The end of \<^verbatim>\<open>Run\<close>: the exit status and all that has been printed.\<close>

definition exit_with :: "cli_env \<Rightarrow> report \<Rightarrow> nat \<times> string list" where
  "exit_with C r =
     (case r of
        (out, None) \<Rightarrow> (0, printed C out)
      | (out, Some e) \<Rightarrow> (1, printed C (if is_silent e then out else out @ [error_text e @ newline])))"

definition run :: "'z env \<Rightarrow> cli_env \<Rightarrow> 'd driver \<Rightarrow> string list \<Rightarrow> world \<times> 'd \<Rightarrow>
    (nat \<times> string list) outcome \<times> (world \<times> 'd)" where
  "run E C D argv wd =
     (case parse_args C argv of
        GlobalUsage e \<Rightarrow> (Val (exit_with C ([error_page C argv e], Some e)), wd)
      | GlobalHelp \<Rightarrow> (Val (exit_with C ([help_page C argv], None)), wd)
      | Dispatch configPath request \<Rightarrow>
          obind (before E (yaml_unmarshal C) configPath (fst wd))
            (\<lambda>r w. case r of
               Inl e \<Rightarrow> (Val (exit_with C ([error_page C argv e], Some e)), (w, snd wd))
             | Inr (conf, logger) \<Rightarrow>
                 (case request of
                    CommandUsage e \<Rightarrow> (Val (exit_with C ([error_page C argv e], Some e)), (w, snd wd))
                  | CommandHelp \<Rightarrow> (Val (exit_with C ([help_page C argv], None)), (w, snd wd))
                  | FrameworkExit status \<Rightarrow> (Val (status, printed C [help_page C argv]), (w, snd wd))
                  | Invoke c ctx \<Rightarrow>
                      seq (run_action E C D conf c ctx (w, snd wd)) (\<lambda>r wd. (Val (exit_with C r), wd))))
            (\<lambda>w. (w, snd wd)))"

section \<open>Lemmas\<close>

text \<open>Any fetcher that keeps its contract ends up closed, whatever happened in between.\<close>

context fetcher_contract
begin

lemma with_fetcher_closed:
  assumes "idle w" "with_fetcher F D body (w, d) = (Val r, (w', d'))"
    and body: "\<And>x w1 d1. body (pull F (Unpack D)) (w, d) = (Val x, (w1, d1)) \<Longrightarrow> idle w1"
  shows "closed w'"
proof -
  obtain x w1 d1 where b: "body (pull F (Unpack D)) (w, d) = (x, (w1, d1))" by (rule prod_cases3)
  with assms(2) have x: "x = Val r" "w' = snd (CloseFetcher F w1)"
    by (cases x; simp add: with_fetcher_def closing_def)+
  with body b have "idle w1" by simp
  then show ?thesis using close_closed [of w1 "fst (CloseFetcher F w1)"] x(2) by simp
qed

lemma create_fetcher_closed:
  assumes "idle w" "with_fetcher F D (create_body C D ctx) (w, d) = (Val r, (w', d'))"
  shows "closed w'"
  by (rule with_fetcher_closed [OF assms])
    (auto simp: create_body_def call_returns intro: puller.create_keeps [OF assms(1)])

lemma pull_fetcher_closed:
  assumes "idle w" "with_fetcher F D pull_body (w, d) = (Val r, (w', d'))"
  shows "closed w'"
  by (rule with_fetcher_closed [OF assms])
    (auto simp: pull_body_def call_returns intro: puller.groot_pull_keeps [OF assms(1)])

end

text \<open>What the process leaves in the world: nothing but the passing of time.\<close>

definition no_trace :: "world \<Rightarrow> world \<Rightarrow> bool" where
  "no_trace w w' \<longleftrightarrow> quiet w w' \<and> open_sources w' = open_sources w"

lemma no_trace_refl [simp]: "no_trace w w"
  by (simp add: no_trace_def)

lemma no_trace_trans [trans]: "no_trace w w' \<Longrightarrow> no_trace w' w'' \<Longrightarrow> no_trace w w''"
  by (auto simp: no_trace_def intro: quiet_trans)

lemma context_fetcher_fresh:
  "context_fetcher conf ctx = Inr (RegistryImage s) \<Longrightarrow> imageSource s = None \<and> \<not> skipOCILayerValidation s"
  by (auto simp: context_fetcher_def create_fetcher_def new_layer_source_def split: sum.splits if_splits)

lemma with_source_Val:
  "with_source s act (w, d) = (Val r, (w', d')) \<longleftrightarrow> (\<exists>s'. act ((s, w), d) = (Val r, ((s', w'), d')))"
  by (cases r) (auto simp: with_source_def call_returns)

lemma layer_idle_fresh:
  "imageSource s = None \<Longrightarrow> wf_world w \<Longrightarrow> removes_files E \<Longrightarrow> opens_files E \<Longrightarrow>
    layer_idle E (\<lambda>_. removes_files E) source_held w (s, w)"
  by (simp add: layer_idle_def holds_def source_held_def)

lemma create_action_no_trace:
  assumes "create_action E C D conf ctx (w, d) = (Val r, (w', d'))" "wf_world w" "removes_files E" "opens_files E"
  shows "no_trace w w'"
proof (cases "validate_args ctx 2 = None \<and> (\<exists>f. context_fetcher conf ctx = Inr f)")
  case False
  with assms(1) show ?thesis by (auto simp: create_action_def split: option.splits sum.splits)
next
  case True
  then obtain f where f: "validate_args ctx 2 = None" "context_fetcher conf ctx = Inr f" by blast
  show ?thesis
  proof (cases f)
    case (RegistryImage s)
    with f assms(1) obtain s' where
      "with_fetcher (registry_fetcher E) D (create_body C D ctx) ((s, w), d) = (Val r, ((s', w'), d'))"
      by (auto simp: create_action_def with_source_Val)
    moreover have "imageSource s = None" using f RegistryImage context_fetcher_fresh by simp
    ultimately have "layer_closed w (s', w')"
      using assms(2-4) by (intro registry.fetch.create_fetcher_closed [OF layer_idle_fresh])
    then show ?thesis by (simp add: layer_closed_def no_trace_def)
  next
    case (LocalImage p)
    with f assms(1) have "with_fetcher (file_fetcher E p) D (create_body C D ctx) (w, d) = (Val r, (w', d'))"
      by (simp add: create_action_def)
    then have "file_idle w w'"
      by (rule local_file.create_fetcher_closed [rotated]) (use assms(2) in \<open>simp add: file_idle_def\<close>)
    then show ?thesis by (simp add: file_idle_def no_trace_def)
  qed
qed

lemma pull_action_no_trace:
  assumes "pull_action E D conf ctx (w, d) = (Val r, (w', d'))" "wf_world w" "removes_files E" "opens_files E"
  shows "no_trace w w'"
proof (cases "validate_args ctx 1 = None \<and> (\<exists>f. context_fetcher conf ctx = Inr f)")
  case False
  with assms(1) show ?thesis by (auto simp: pull_action_def split: option.splits sum.splits)
next
  case True
  then obtain f where f: "validate_args ctx 1 = None" "context_fetcher conf ctx = Inr f" by blast
  show ?thesis
  proof (cases f)
    case (RegistryImage s)
    with f assms(1) obtain s' where
      "with_fetcher (registry_fetcher E) D pull_body ((s, w), d) = (Val r, ((s', w'), d'))"
      by (auto simp: pull_action_def with_source_Val)
    moreover have "imageSource s = None" using f RegistryImage context_fetcher_fresh by simp
    ultimately have "layer_closed w (s', w')"
      using assms(2-4) by (intro registry.fetch.pull_fetcher_closed [OF layer_idle_fresh])
    then show ?thesis by (simp add: layer_closed_def no_trace_def)
  next
    case (LocalImage p)
    with f assms(1) have "with_fetcher (file_fetcher E p) D pull_body (w, d) = (Val r, (w', d'))"
      by (simp add: pull_action_def)
    then have "file_idle w w'"
      by (rule local_file.pull_fetcher_closed [rotated]) (use assms(2) in \<open>simp add: file_idle_def\<close>)
    then show ?thesis by (simp add: file_idle_def no_trace_def)
  qed
qed

lemma run_action_no_trace:
  assumes "run_action E C D conf c ctx (w, d) = (Val r, (w', d'))" "wf_world w" "removes_files E" "opens_files E"
  shows "no_trace w w'"
proof (cases c)
  case CreateCommand
  with assms show ?thesis by (auto simp: run_action_def intro: create_action_no_trace)
next
  case PullCommand
  with assms show ?thesis by (auto simp: run_action_def intro: pull_action_no_trace)
next
  case DeleteCommand
  with assms(1) show ?thesis
    by (auto simp: run_action_def delete_action_def on_driver_def call_returns split: option.splits)
next
  case StatsCommand
  with assms(1) show ?thesis
    by (auto simp: run_action_def stats_action_def on_driver_def call_returns split: option.splits)
qed

lemma before_no_trace:
  assumes "before E unmarshal path w = (Val r, w')" "wf_world w"
  shows "no_trace w w'"
  using assms
  by (auto simp: before_def call_returns no_trace_def dest: parse_config_quiet)

text \<open>A framework that takes every argument list for the given request.\<close>

definition sample_cli :: "cli_request \<Rightarrow> cli_env" where
  "sample_cli request =
     \<lparr>parse_args = (\<lambda>_. request), error_page = (\<lambda>_ e. ''error: '' @ error_text e), help_page = (\<lambda>_. ''help''),
      yaml_unmarshal = (\<lambda>_ c. Inr c), json_spec = (\<lambda>spec. Inr (sp_rest spec)), stdout_fault = None\<rparr>"

definition sample_ctx :: "string list \<Rightarrow> cli_context" where
  "sample_ctx args = \<lparr>ctx_Args = args, ctx_Flags = []\<rparr>"

lemma sample_cli_simps [simp]:
  "parse_args (sample_cli request) argv = request" "error_page (sample_cli request) argv e = ''error: '' @ error_text e"
  "help_page (sample_cli request) argv = ''help''" "yaml_unmarshal (sample_cli request) b c = Inr c"
  "json_spec (sample_cli request) spec = Inr (sp_rest spec)" "stdout_fault (sample_cli request) = None"
  "ctx_Args (sample_ctx args) = args" "ctx_Flags (sample_ctx args) = []"
  by (simp_all add: sample_cli_def sample_ctx_def)

lemma before_without_config [simp]:
  "before E unmarshal '''' w = (Val (Inr (\<lparr>LogLevel = ''info'', InsecureRegistries = []\<rparr>, INFO)), w)"
  by (simp add: before_def parse_config_def apply_defaults_def empty_conf_def new_logger_def log_levels_def)

text \<open>Creating from a local file, without limits.\<close>

lemma sample_create:
  "\<exists>w'. run (honest_env []) (sample_cli (Dispatch '''' (Invoke CreateCommand (sample_ctx [''/image.tar'', ''h'']))))
      (counting_driver None) [] (file_world [1, 2, 3], 0) = (Val (0, [''h'' @ newline]), (w', 3))"
proof -
  let ?ctx = "sample_ctx [''/image.tar'', ''h'']" and ?conf = "\<lparr>LogLevel = ''info'', InsecureRegistries = []\<rparr>"
  let ?E = "honest_env []" and ?D = "counting_driver None"
  have "plain_path ''/image.tar''" by code_simp
  then have f: "context_fetcher ?conf ?ctx = Inr (LocalImage ''/image.tar'')"
    using url_string_plain [of "''/image.tar''"]
    by (simp add: context_fetcher_def create_fetcher_def url_parse_plain new_file_fetcher_def empty_url_def)
  obtain img w' where "pull (file_fetcher ?E ''/image.tar'') (Unpack ?D)
      \<lparr>DiskLimit = 0, ExcludeImageFromQuota = False\<rparr> (file_world [1, 2, 3], 0) = (Val (Inr img), (w', 1))"
    "ic_Env (pi_Config img) = []"
    by (simp add: pull_def ff_image_info_def os_stat_def quota_exceeded_def build_layers_def empty_config_def
        build_layer_def counting_driver_def four_bytes_def ondemand_read_def open_layer_def ff_stream_blob_def
        validate_image_def os_open_def os_read_def)
  then show ?thesis
    by (simp add: run_def run_action_def create_action_def validate_args_def f with_fetcher_def create_body_def
        ctx_Int64_def ctx_Bool_def create_def bundle_quota_def closing_def exit_with_def json_encode_def add_env_def
        counting_driver_def)
qed

section \<open>Running the program\<close>

text \<open>
  C5: Where removing a file and opening one never fail, every run of the program that returns an
  exit status (it neither panics nor runs for ever), whatever the status, the arguments, the
  configuration, the registry, the driver and the other errors of the operating system are, leaves
  no trace: the files are those there were before, and no descriptor, no download and no image
  source is left open.
\<close>

theorem run_leaves_no_trace:
  assumes "run E C D argv (w, d) = (Val (status, out), (w', d'))"
    and "wf_world w" "removes_files E" "opens_files E"
  shows "fs w' = fs w \<and> fds w' = fds w \<and> open_blobs w' = open_blobs w \<and> open_sources w' = open_sources w"
proof -
  have "no_trace w w'"
  proof (cases "parse_args C argv")
    case (Dispatch path request)
    with assms(1) obtain r w1 where b: "before E (yaml_unmarshal C) path w = (Val r, w1)"
      by (auto simp: run_def call_returns)
    note w1 = before_no_trace [OF b assms(2)]
    show ?thesis
    proof (cases "\<exists>conf logger c ctx. r = Inr (conf, logger) \<and> request = Invoke c ctx")
      case True
      then obtain conf logger c ctx where r: "r = Inr (conf, logger)" "request = Invoke c ctx" by blast
      with assms(1) Dispatch b obtain x where "run_action E C D conf c ctx (w1, d) = (Val x, (w', d'))"
        by (auto simp: run_def call_returns)
      moreover have "wf_world w1" using w1 assms(2) by (auto simp: no_trace_def intro: quiet_wf)
      ultimately have "no_trace w1 w'" using assms(3,4) by (rule run_action_no_trace)
      with w1 show ?thesis by (rule no_trace_trans)
    next
      case False
      with assms(1) Dispatch b w1 show ?thesis
        by (auto simp: run_def split: sum.splits command_request.splits)
    qed
  qed (use assms(1) in \<open>auto simp: run_def\<close>)
  then show ?thesis by (simp add: no_trace_def quiet_def)
qed

theorem run_leaves_no_trace_witness:
  "\<exists>w' out. run (honest_env []) (sample_cli (Dispatch '''' (Invoke CreateCommand (sample_ctx [''/image.tar'', ''h'']))))
      (counting_driver None) [] (file_world [1, 2, 3], 0) = (Val (0, out), (w', 3)) \<and>
    fs w' = fs (file_world [1, 2, 3]) \<and> fds w' = Map.empty \<and> open_sources w' = 0"
proof -
  obtain w' where r: "run (honest_env []) (sample_cli (Dispatch '''' (Invoke CreateCommand (sample_ctx [''/image.tar'', ''h'']))))
      (counting_driver None) [] (file_world [1, 2, 3], 0) = (Val (0, [''h'' @ newline]), (w', 3))"
    using sample_create by blast
  from run_leaves_no_trace [OF r] r show ?thesis by auto
qed


section \<open>The fetcher of an image\<close>

lemma skip_tls_validation_iff: "skip_tls_validation u hosts \<longleftrightarrow> Host u \<in> set hosts"
  by (induction hosts) auto

text \<open>
  C22: The fetcher chosen for an image.  An \<open>oci\<close> or \<open>docker\<close> image gets a layer source
  that verifies its layers and counts them against the disk limit, unless there is none or the
  image is excluded; TLS verification is skipped exactly for a \<open>docker\<close> image whose host is
  listed as insecure, and the credentials go to \<open>docker\<close> images only.  Everything else is a
  local file.
\<close>

theorem fetcher_of_image:
  assumes "url_parse urlAsString = Inr u"
  shows "if Scheme u = ''oci'' \<or> Scheme u = ''docker''
    then \<exists>s. create_fetcher urlAsString exclude limit dockerConfig = Inr (RegistryImage s) \<and>
      imageURL s = u \<and> imageSource s = None \<and> \<not> skipOCILayerValidation s \<and> remainingImageQuota s = limit \<and>
      (skipImageQuotaValidation s \<longleftrightarrow> exclude \<or> limit = 0) \<and>
      (sc_DockerInsecureSkipTLSVerify (systemContext s) = Some True \<longleftrightarrow>
         Scheme u = ''docker'' \<and> Host u \<in> set (dc_InsecureRegistries dockerConfig)) \<and>
      sc_DockerAuthConfig (systemContext s) =
        (if Scheme u = ''docker'' then Some (dc_Username dockerConfig, dc_Password dockerConfig) else None)
    else create_fetcher urlAsString exclude limit dockerConfig = Inr (LocalImage (url_string u))"
  using assms
  by (simp add: create_fetcher_def new_layer_source_def docker_context_def new_file_fetcher_def
      should_skip_image_quota_validation_def skip_tls_validation_iff)

theorem fetcher_of_image_witness:
  "\<exists>s. create_fetcher ''docker://reg:5000/img'' False 9
       \<lparr>dc_InsecureRegistries = [''other'', ''reg:5000''], dc_Username = ''me'', dc_Password = ''pw''\<rparr> =
         Inr (RegistryImage s) \<and>
     remainingImageQuota s = 9 \<and> \<not> skipImageQuotaValidation s \<and>
     sc_DockerInsecureSkipTLSVerify (systemContext s) = Some True"
proof -
  let ?dc = "\<lparr>dc_InsecureRegistries = [''other'', ''reg:5000''], dc_Username = ''me'', dc_Password = ''pw''\<rparr>"
  have "case url_parse ''docker://reg:5000/img'' of Inl e \<Rightarrow> False | Inr u \<Rightarrow> Scheme u = ''docker'' \<and> Host u = ''reg:5000''"
    by code_simp
  then obtain u where u: "url_parse ''docker://reg:5000/img'' = Inr u" "Scheme u = ''docker''" "Host u = ''reg:5000''"
    by (auto split: sum.splits)
  from fetcher_of_image [OF u(1), of False 9 ?dc] u show ?thesis by auto
qed

text \<open>
  \<open>pull\<close> has no flags for a limit, so a fetcher made for it never enforces one.
\<close>

lemma pull_command_has_no_limit:
  assumes "declared_flags_only C" "parse_args C argv = Dispatch path (Invoke PullCommand ctx)"
    and "context_fetcher conf ctx = Inr (RegistryImage s)"
  shows "\<not> should_enforce_image_quota_validation s \<and> remainingImageQuota s = 0"
proof -
  have flags: "fst ` set (ctx_Flags ctx) \<subseteq> {''username'', ''password''}"
    using assms(1,2) unfolding declared_flags_only_def command_flags_def pull_flags_def by fastforce
  then have "map_of (ctx_Flags ctx) ''disk-limit-size-bytes'' = None"
    by (auto simp: map_of_eq_None_iff)
  then have "ctx_Int64 ctx ''disk-limit-size-bytes'' = 0" by (simp add: ctx_Int64_def)
  with assms(3) show ?thesis
    by (auto simp: context_fetcher_def create_fetcher_def new_layer_source_def should_enforce_image_quota_validation_def
        should_skip_image_quota_validation_def split: sum.splits if_splits)
qed

section \<open>What the program reports\<close>

text \<open>
  With a configuration that cannot be read or parsed nothing is run: the exit status is 1
  and the error has been printed once, by the framework (\<^verbatim>\<open>SilentError\<close>).
\<close>

lemma config_error_is_reported_once:
  assumes "parse_args C argv = Dispatch path request"
    and "parse_config E (yaml_unmarshal C) path w = (Val (Inl e), w')"
  shows "run E C D argv (w, d) = (Val (1, printed C [error_page C argv (silent_error e)]), (w', d))"
  using assms by (simp add: run_def before_def exit_with_def is_silent_def silent_error_def)

text \<open>
  C39: An unknown log level is refused before any command, with exit status 1; this error is
  printed twice, by the framework and by the program (on a standard output that can be written).
\<close>

theorem invalid_log_level_is_reported_twice:
  assumes "parse_args C argv = Dispatch path request"
    and "parse_config E (yaml_unmarshal C) path w = (Val (Inr conf), w')"
    and "LogLevel conf \<notin> {''debug'', ''info'', ''error'', ''fatal''}"
  shows "run E C D argv (w, d) =
    (Val (1, printed C [error_page C argv (ErrNew (''invalid log level: '' @ LogLevel conf)),
                        ''invalid log level: '' @ LogLevel conf @ newline]), (w', d))"
  using assms
  by (simp add: run_def before_def exit_with_def is_silent_def new_logger_def log_levels_def)

theorem invalid_log_level_is_reported_twice_witness:
  "\<exists>w'. run (honest_env []) ((sample_cli (Dispatch ''/image.tar'' CommandHelp))
         \<lparr>yaml_unmarshal := \<lambda>_ c. Inr (c\<lparr>LogLevel := ''loud''\<rparr>)\<rparr>) (counting_driver None) [] (file_world [1], 0) =
     (Val (1, [''error: invalid log level: loud'', ''invalid log level: loud'' @ newline]), (w', 0))"
proof -
  let ?u = "\<lambda>_ c. Inr (c\<lparr>LogLevel := ''loud''\<rparr>)"
  let ?C = "(sample_cli (Dispatch ''/image.tar'' CommandHelp))\<lparr>yaml_unmarshal := ?u\<rparr>"
  obtain b w' where "os_read_file (honest_env []) ''/image.tar'' (file_world [1]) = (Val (Inr b), w')"
    using sample_config_file by blast
  then have p: "parse_config (honest_env []) (yaml_unmarshal ?C) ''/image.tar'' (file_world [1]) =
      (Val (Inr \<lparr>LogLevel = ''loud'', InsecureRegistries = []\<rparr>), w')"
    by (simp add: parse_config_def wrap_res_def empty_conf_def apply_defaults_def)
  have "parse_args ?C [] = Dispatch ''/image.tar'' CommandHelp" by (simp add: sample_cli_def)
  from invalid_log_level_is_reported_twice [OF this p, of "counting_driver None" 0] show ?thesis
    by (auto simp: sample_cli_def)
qed

definition expected_args :: "command \<Rightarrow> nat" where
  "expected_args c = (case c of CreateCommand \<Rightarrow> 2 | _ \<Rightarrow> 1)"

text \<open>
  A command with the wrong number of arguments fails with the error that says so, and
  neither the driver nor the outside world is touched.
\<close>

lemma wrong_arguments_touch_nothing:
  assumes "length (ctx_Args ctx) \<noteq> expected_args c"
  shows "run_action E C D conf c ctx wd =
    (Val ([], Some (ErrNew (''Incorrect number of args. Expect '' @ show_nat (expected_args c) @ '', got '' @
       show_nat (length (ctx_Args ctx))))), wd)"
  using assms
  by (cases c) (simp_all add: run_action_def expected_args_def create_action_def pull_action_def delete_action_def
      stats_action_def validate_args_def)

end
