(* ===== verification/Go_Json.thy ===== *)
theory Go_Json
  imports Prelude
begin

text \<open>
  The values that \<^verbatim>\<open>encoding/json\<close> writes and reads, as far as the log files of the test driver
  use them.  Writing is not the identity on strings, and reading is not the identity on numbers:
  \<^verbatim>\<open>json.Marshal\<close> replaces every byte that is not part of a valid UTF-8 encoding by U+FFFD, and
  decoding into \<^verbatim>\<open>[]interface{}\<close> makes every number a \<^verbatim>\<open>float64\<close>, of which
  \<^verbatim>\<open>json.Marshal\<close> then writes the shortest decimal that reads back as that number.
\<close>

section \<open>Strings\<close>

text \<open>
  The decoding of one rune (\<^verbatim>\<open>utf8.DecodeRuneInString\<close>): for a first byte, the ranges in which
  the bytes after it must be.
\<close>

definition byte_of :: "char \<Rightarrow> nat" where
  "byte_of c = of_char c"

abbreviation (input) any_tail :: "nat \<times> nat" where
  "any_tail \<equiv> (128, 191)"

definition rune_tail :: "nat \<Rightarrow> (nat \<times> nat) list option" where
  "rune_tail b =
     (if b < 128 then Some []
      else if b < 194 then None
      else if b < 224 then Some [any_tail]
      else if b = 224 then Some [(160, 191), any_tail]
      else if b = 237 then Some [(128, 159), any_tail]
      else if b < 240 then Some [any_tail, any_tail]
      else if b = 240 then Some [(144, 191), any_tail, any_tail]
      else if b < 244 then Some [any_tail, any_tail, any_tail]
      else if b = 244 then Some [(128, 143), any_tail, any_tail]
      else None)"

fun tail_fits :: "(nat \<times> nat) list \<Rightarrow> string \<Rightarrow> bool" where
  "tail_fits [] s = True"
| "tail_fits (r # rs) [] = False"
| "tail_fits (r # rs) (c # s) = (fst r \<le> byte_of c \<and> byte_of c \<le> snd r \<and> tail_fits rs s)"

text \<open>The number of bytes of the rune at the front; 0 when there is no valid encoding.\<close>

fun rune_length :: "string \<Rightarrow> nat" where
  "rune_length [] = 0"
| "rune_length (c # s) =
     (case rune_tail (byte_of c) of
        None \<Rightarrow> 0
      | Some rs \<Rightarrow> if tail_fits rs s then Suc (length rs) else 0)"

text \<open>U+FFFD, which replaces one byte.\<close>

definition replacement :: string where
  "replacement = [CHR 0xEF, CHR 0xBF, CHR 0xBD]"

function to_utf8 :: "string \<Rightarrow> string" where
  "to_utf8 [] = []"
| "to_utf8 (c # s) =
     (let n = rune_length (c # s)
      in if n = 0 then replacement @ to_utf8 s else take n (c # s) @ to_utf8 (drop n (c # s)))"
  by pat_completeness auto
termination by (relation "measure length") auto

declare to_utf8.simps(2) [simp del]

lemma tail_fits_append: "tail_fits rs s \<Longrightarrow> length rs \<le> length s \<and> tail_fits rs (take (length rs) s @ t)"
  by (induction rs s rule: tail_fits.induct) auto

lemma rune_length_append:
  assumes "rune_length (c # s) = Suc n"
  shows "n \<le> length s" "rune_length (take (Suc n) (c # s) @ t) = Suc n"
  using assms by (auto dest: tail_fits_append split: option.splits if_splits)

lemma to_utf8_rune:
  assumes "rune_length (c # s) = Suc n"
  shows "to_utf8 (take (Suc n) (c # s) @ t) = take (Suc n) (c # s) @ to_utf8 t"
proof -
  have len: "n \<le> length s" by (rule rune_length_append(1) [OF assms])
  have "to_utf8 (c # (take n s @ t)) = take (Suc n) (c # (take n s @ t)) @ to_utf8 (drop (Suc n) (c # (take n s @ t)))"
    using rune_length_append(2) [OF assms, of t] by (simp only: to_utf8.simps(2) Let_def) simp
  with len show ?thesis by simp
qed

lemma to_utf8_replacement [simp]: "to_utf8 (replacement @ t) = replacement @ to_utf8 t"
  using to_utf8_rune [of "CHR 0xEF" "[CHR 0xBF, CHR 0xBD]" 2 t]
  by (simp add: replacement_def rune_tail_def byte_of_def)

text \<open>What has been written is valid, and stays as it is.\<close>

lemma to_utf8_idem [simp]: "to_utf8 (to_utf8 s) = to_utf8 s"
proof (induction s rule: to_utf8.induct)
  case (2 c s)
  show ?case
  proof (cases "rune_length (c # s)")
    case 0
    with 2(1) show ?thesis by (simp add: to_utf8.simps(2))
  next
    case (Suc n)
    with 2(2) [OF refl] to_utf8_rune [OF Suc] show ?thesis by (simp add: to_utf8.simps(2))
  qed
qed simp

definition ascii :: "string \<Rightarrow> bool" where
  "ascii s \<longleftrightarrow> list_all (\<lambda>c. byte_of c < 128) s"

lemma to_utf8_ascii: "ascii s \<Longrightarrow> to_utf8 s = s"
  by (induction s) (simp_all add: ascii_def to_utf8.simps(2) rune_tail_def)

section \<open>Numbers\<close>

text \<open>Rounding to 53 significant bits, half to even.\<close>

fun excess_bits :: "nat \<Rightarrow> nat" where
  "excess_bits m = (if m < 2 ^ 53 then 0 else Suc (excess_bits (m div 2)))"

declare excess_bits.simps [simp del]

definition round_nat :: "nat \<Rightarrow> nat" where
  "round_nat m =
     (let e = excess_bits m; q = m div 2 ^ e; r = m mod 2 ^ e
      in if e = 0 then m
         else if 2 ^ (e - 1) < r \<or> r = 2 ^ (e - 1) \<and> odd q then (q + 1) * 2 ^ e else q * 2 ^ e)"

definition signed :: "(nat \<Rightarrow> nat) \<Rightarrow> int \<Rightarrow> int" where
  "signed f n = (if n < 0 then - int (f (nat (- n))) else int (f (nat n)))"

definition float64 :: "int \<Rightarrow> int" where
  "float64 = signed round_nat"

text \<open>
  The shortest decimal that reads back as \<open>m\<close>, for a number that is a \<^verbatim>\<open>float64\<close>: with as many
  trailing zeros as can be, the nearest to \<open>m\<close>.  Up to \<open>2 ^ 53\<close> no other integer rounds to \<open>m\<close>.
\<close>

definition candidates :: "nat \<Rightarrow> nat \<Rightarrow> nat list" where
  "candidates m j =
     filter (\<lambda>c. round_nat c = m) [m div 10 ^ j * 10 ^ j, Suc (m div 10 ^ j) * 10 ^ j]"

definition nearest :: "nat \<Rightarrow> nat list \<Rightarrow> nat" where
  "nearest m cs = (case cs of [a, b] \<Rightarrow> if m - a \<le> b - m then a else b | c # _ \<Rightarrow> c | [] \<Rightarrow> m)"

primrec shortest_from :: "nat \<Rightarrow> nat \<Rightarrow> nat" where
  "shortest_from m 0 = m"
| "shortest_from m (Suc j) =
     (if candidates m (Suc j) = [] then shortest_from m j else nearest m (candidates m (Suc j)))"

definition shortest_nat :: "nat \<Rightarrow> nat" where
  "shortest_nat m = (if m \<le> 2 ^ 53 then m else shortest_from m (length (show_nat m)))"

definition shortest_decimal :: "int \<Rightarrow> int" where
  "shortest_decimal = signed shortest_nat"

lemma excess_bits_small: "m < 2 ^ 53 \<Longrightarrow> excess_bits m = 0"
  by (simp add: excess_bits.simps)

lemma round_nat_exact: "m \<le> 2 ^ 53 \<Longrightarrow> round_nat m = m"
proof (cases "m = 2 ^ 53")
  case True
  have "excess_bits (2 ^ 53) = 1" by (simp add: excess_bits.simps)
  with True show ?thesis by (simp add: round_nat_def)
qed (simp add: round_nat_def excess_bits_small)

lemma signed_exact: "(\<And>m. m \<le> 2 ^ 53 \<Longrightarrow> f m = m) \<Longrightarrow> \<bar>n\<bar> \<le> 2 ^ 53 \<Longrightarrow> signed f n = n"
  by (cases "n < 0") (simp_all add: signed_def)

lemma float64_exact: "\<bar>n\<bar> \<le> 2 ^ 53 \<Longrightarrow> float64 n = n"
  unfolding float64_def by (rule signed_exact [OF round_nat_exact])

lemma shortest_exact: "\<bar>n\<bar> \<le> 2 ^ 53 \<Longrightarrow> shortest_decimal n = n"
  unfolding shortest_decimal_def by (rule signed_exact) (simp_all add: shortest_nat_def)

text \<open>What is written for a rounded number reads back as it: a log changes once at most.\<close>

lemma mantissa: "2 ^ 53 \<le> m \<Longrightarrow> 2 ^ 52 \<le> m div 2 ^ excess_bits m \<and> m div 2 ^ excess_bits m < 2 ^ 53"
proof (induction m rule: excess_bits.induct)
  case (1 m)
  show ?case
  proof (cases "m div 2 < 2 ^ 53")
    case True
    then have "excess_bits (m div 2) = 0" by (rule excess_bits_small)
    with 1(2) True show ?thesis by (simp add: excess_bits.simps [of m])
  next
    case False
    with 1 show ?thesis by (simp add: excess_bits.simps [of m] div_mult2_eq)
  qed
qed

lemma excess_bits_shifted: "2 ^ 52 \<le> q \<Longrightarrow> q < 2 ^ 53 \<Longrightarrow> excess_bits (q * 2 ^ e) = e"
proof (induction e)
  case (Suc e)
  have "1 * 2 ^ 52 \<le> 2 ^ e * q" using Suc.prems(1) by (intro mult_le_mono) simp_all
  then have "\<not> q * 2 ^ Suc e < 2 ^ 53" by (simp add: mult.commute)
  moreover have "q * 2 ^ Suc e div 2 = q * 2 ^ e" by simp
  ultimately show ?case using Suc by (subst excess_bits.simps) simp
qed (simp add: excess_bits_small)

lemma round_nat_shifted:
  assumes "2 ^ 52 \<le> q" "q \<le> 2 ^ 53"
  shows "round_nat (q * 2 ^ e) = q * 2 ^ e"
proof (cases "q = 2 ^ 53")
  case True
  then have "q * 2 ^ e = 2 ^ 52 * 2 ^ Suc e" by simp
  with excess_bits_shifted [of "2 ^ 52" "Suc e"] show ?thesis by (simp add: round_nat_def Let_def)
next
  case False
  with assms excess_bits_shifted [of q e] show ?thesis by (simp add: round_nat_def Let_def)
qed

lemma round_nat_idem: "round_nat (round_nat m) = round_nat m"
proof (cases "m < 2 ^ 53")
  case False
  let ?e = "excess_bits m" and ?q = "m div 2 ^ excess_bits m"
  have q: "2 ^ 52 \<le> ?q \<and> Suc ?q \<le> 2 ^ 53" using mantissa [of m] False by simp
  have "round_nat (?q * 2 ^ ?e) = ?q * 2 ^ ?e" by (rule round_nat_shifted) (use q in simp_all)
  moreover have "round_nat (Suc ?q * 2 ^ ?e) = Suc ?q * 2 ^ ?e" by (rule round_nat_shifted) (use q in simp_all)
  moreover have "round_nat m = m \<or> round_nat m = ?q * 2 ^ ?e \<or> round_nat m = Suc ?q * 2 ^ ?e"
    by (simp add: round_nat_def Let_def)
  ultimately show ?thesis by metis
qed (simp add: round_nat_exact)

lemma shortest_from_rounds: "round_nat m = m \<Longrightarrow> round_nat (shortest_from m j) = m"
proof (induction j)
  case (Suc j)
  have "nearest m cs \<in> set cs" if "cs \<noteq> []" "length cs \<le> 2" for cs
    using that by (auto simp: nearest_def split: list.split)
  moreover have "length (candidates m (Suc j)) \<le> 2"
    unfolding candidates_def by (rule order_trans [OF length_filter_le]) simp
  moreover have "c \<in> set (candidates m (Suc j)) \<Longrightarrow> round_nat c = m" for c
    by (auto simp: candidates_def split: if_splits)
  ultimately show ?case using Suc by auto
qed simp

lemma float64_shortest: "float64 (shortest_decimal (float64 n)) = float64 n"
proof -
  have "round_nat (shortest_nat (round_nat m)) = round_nat m" for m
    by (simp add: shortest_nat_def round_nat_idem shortest_from_rounds)
  moreover have zero: "round_nat 0 = 0" "shortest_nat 0 = 0" by (simp_all add: round_nat_exact shortest_nat_def)
  moreover have "round_nat m = 0" if "shortest_nat (round_nat m) = 0" for m
    using calculation(1) [of m] that zero(1) by simp
  ultimately show ?thesis by (auto simp: float64_def shortest_decimal_def signed_def)
qed

section \<open>Values\<close>

text \<open>
  A JSON value, without the order of an object's members and the layout of its text.  \<open>JNum\<close> is a
  number as it is written or an integer in memory, \<open>JFloat\<close> a \<^verbatim>\<open>float64\<close> in memory (here always
  one with an integral value).
\<close>

datatype json = JNum int | JFloat int | JStr string | JArr "json list" | JObj "(string \<times> json) list"

text \<open>What \<^verbatim>\<open>json.Marshal\<close> writes for a value in memory, and what decoding makes of it.\<close>

fun marshalled :: "json \<Rightarrow> json" where
  "marshalled (JNum n) = JNum n"
| "marshalled (JFloat f) = JNum (shortest_decimal f)"
| "marshalled (JStr s) = JStr (to_utf8 s)"
| "marshalled (JArr xs) = JArr (map marshalled xs)"
| "marshalled (JObj ms) = JObj (map (\<lambda>(k, v). (to_utf8 k, marshalled v)) ms)"

fun reloaded :: "json \<Rightarrow> json" where
  "reloaded (JNum n) = JFloat (float64 n)"
| "reloaded (JFloat f) = JFloat (float64 f)"
| "reloaded (JStr s) = JStr (to_utf8 s)"
| "reloaded (JArr xs) = JArr (map reloaded xs)"
| "reloaded (JObj ms) = JObj (map (\<lambda>(k, v). (to_utf8 k, reloaded v)) ms)"

text \<open>A \<^verbatim>\<open>[]byte\<close> is a string in base64.\<close>

definition base64_digit :: "nat \<Rightarrow> char" where
  "base64_digit n = (''ABCDEFGHIJKLMNOPQRSTUVWXYZabcdefghijklmnopqrstuvwxyz0123456789+/'') ! n"

fun base64 :: "bytes \<Rightarrow> string" where
  "base64 [] = []"
| "base64 [a] =
     [base64_digit (unat a div 4), base64_digit (unat a mod 4 * 16), CHR ''='', CHR ''='']"
| "base64 [a, b] =
     [base64_digit (unat a div 4), base64_digit (unat a mod 4 * 16 + unat b div 16),
      base64_digit (unat b mod 16 * 4), CHR ''='']"
| "base64 (a # b # c # bs) =
     base64_digit (unat a div 4) # base64_digit (unat a mod 4 * 16 + unat b div 16) #
     base64_digit (unat b mod 16 * 4 + unat c div 64) # base64_digit (unat c mod 64) # base64 bs"

lemma base64_digit_ascii: "n < 64 \<Longrightarrow> byte_of (base64_digit n) < 128"
proof -
  let ?digits = "''ABCDEFGHIJKLMNOPQRSTUVWXYZabcdefghijklmnopqrstuvwxyz0123456789+/''"
  assume "n < 64"
  then have "base64_digit n \<in> set ?digits" unfolding base64_digit_def by (intro nth_mem) simp
  moreover have "list_all (\<lambda>c. byte_of c < 128) ?digits" by (simp add: byte_of_def)
  ultimately show ?thesis unfolding list_all_iff by blast
qed

lemma unat_byte: "unat (x :: byte) < 256"
  using unsigned_less [of x, where ?'a = nat] by simp

lemma base64_ascii: "ascii (base64 bs)"
proof (induction bs rule: base64.induct)
  case (4 a b c bs)
  have "unat a div 4 < 64" "unat a mod 4 * 16 + unat b div 16 < 64" "unat b mod 16 * 4 + unat c div 64 < 64"
    "unat c mod 64 < 64"
    using less_mult_imp_div_less [of "unat b" 16 16] less_mult_imp_div_less [of "unat c" 4 64]
      unat_byte [of a] unat_byte [of b] unat_byte [of c] by auto
  with 4 show ?case by (simp add: ascii_def base64_digit_ascii)
next
  case (2 a)
  have "unat a div 4 < 64" "unat a mod 4 * 16 < 64" using unat_byte [of a] by auto
  then show ?case by (simp add: ascii_def base64_digit_ascii) (simp add: byte_of_def)
next
  case (3 a b)
  have "unat a div 4 < 64" "unat a mod 4 * 16 + unat b div 16 < 64" "unat b mod 16 * 4 < 64"
    using less_mult_imp_div_less [of "unat b" 16 16] unat_byte [of a] unat_byte [of b] by auto
  then show ?case by (simp add: ascii_def base64_digit_ascii) (simp add: byte_of_def)
qed (simp add: ascii_def)

section \<open>Values that survive\<close>

text \<open>Values whose numbers are all small enough to survive a reload.\<close>

fun exact_json :: "json \<Rightarrow> bool" where
  "exact_json (JNum n) = (\<bar>n\<bar> \<le> 2 ^ 53)"
| "exact_json (JFloat f) = (\<bar>f\<bar> \<le> 2 ^ 53)"
| "exact_json (JStr s) = True"
| "exact_json (JArr xs) = list_all exact_json xs"
| "exact_json (JObj ms) = list_all (\<lambda>(k, v). exact_json v) ms"

lemma marshalled_exact: "exact_json j \<Longrightarrow> marshalled (reloaded (marshalled j)) = marshalled j"
proof (induction j rule: marshalled.induct)
  case (5 ms)
  then show ?case by (auto simp: list_all_iff)
qed (auto simp: list_all_iff float64_exact shortest_exact)

lemma marshalled_exact_list:
  "list_all exact_json js \<Longrightarrow> map (\<lambda>j. marshalled (reloaded (marshalled j))) js = map marshalled js"
  by (simp add: list_all_iff marshalled_exact)

text \<open>Any value is stable from the second time it has been read.\<close>

lemma reloaded_stable: "reloaded (marshalled (reloaded j)) = reloaded j"
  by (induction j rule: reloaded.induct) (auto simp: float64_shortest)

text \<open>Values that are written as they are: ASCII strings, and no floating-point numbers.\<close>

fun plain_json :: "json \<Rightarrow> bool" where
  "plain_json (JNum n) = True"
| "plain_json (JFloat f) = False"
| "plain_json (JStr s) = ascii s"
| "plain_json (JArr xs) = list_all plain_json xs"
| "plain_json (JObj ms) = list_all (\<lambda>(k, v). ascii k \<and> plain_json v) ms"

lemma marshalled_plain: "plain_json j \<Longrightarrow> marshalled j = j"
proof (induction j rule: marshalled.induct)
  case (4 xs)
  then show ?case by (auto simp: list_all_iff intro!: map_idI)
next
  case (5 ms)
  then show ?case by (force simp: list_all_iff to_utf8_ascii intro!: map_idI)
qed (auto simp: to_utf8_ascii)

end
