(* ===== verification/Foot.thy ===== *)
theory Foot
  imports Groot_Cli Go_Json
begin

text \<open>
  The driver of the integration tests, \<^verbatim>\<open>integration/cmd/foot/foot/foot.go\<close>, and its
  main program: every operation appends its arguments to a log file of its own in JSON, or
  fails when an environment variable says so.
\<close>

section \<open>Calls\<close>

record unpack_args =
  ua_ID :: string
  ua_ParentIDs :: "string list"
  ua_LayerTarContents :: bytes

record bundle_args =
  ba_ID :: string
  ba_LayerIDs :: "string list"
  ba_DiskLimit :: int64

record delete_args =
  da_BundleID :: string

record stats_args =
  sa_ID :: string

record write_metadata_args =
  wa_ID :: string
  wa_VolumeData :: image_metadata

definition json_of_unpack :: "unpack_args \<Rightarrow> json" where
  "json_of_unpack a =
     JObj [(''ID'', JStr (ua_ID a)), (''ParentIDs'', JArr (map JStr (ua_ParentIDs a))),
       (''LayerTarContents'', JStr (base64 (ua_LayerTarContents a)))]"

definition json_of_bundle :: "bundle_args \<Rightarrow> json" where
  "json_of_bundle a =
     JObj [(''ID'', JStr (ba_ID a)), (''LayerIDs'', JArr (map JStr (ba_LayerIDs a))),
       (''DiskLimit'', JNum (sint (ba_DiskLimit a)))]"

definition json_of_delete :: "delete_args \<Rightarrow> json" where
  "json_of_delete a = JObj [(''BundleID'', JStr (da_BundleID a))]"

definition json_of_stats :: "stats_args \<Rightarrow> json" where
  "json_of_stats a = JObj [(''ID'', JStr (sa_ID a))]"

definition json_of_write_metadata :: "write_metadata_args \<Rightarrow> json" where
  "json_of_write_metadata a =
     JObj [(''ID'', JStr (wa_ID a)), (''VolumeData'', JObj [(''size'', JNum (sint (im_Size (wa_VolumeData a))))])]"

section \<open>State\<close>

text \<open>
  The driver's own part of the world: the environment variables that are set, the files under
  its store, and a clock.  A log file denotes the JSON values in it.  A file that is there but does not hold a JSON array gives an error
  when it is decoded.
\<close>

datatype stored = Calls "json list" | Undecodable error

record foot_world =
  ft_vars :: "string list"
  ft_files :: "string \<rightharpoonup> stored"
  ft_tick :: nat

text \<open>
  What the driver cannot determine: which calls of the operating system fail, by how much
  \<^verbatim>\<open>append\<close> enlarges a buffer, and (not part of the program) a bound on the number of
  reads of one \<^verbatim>\<open>io.ReadAll\<close>.
\<close>

record foot_env =
  ft_fault :: "os_op \<Rightarrow> nat \<Rightarrow> error option"
  ft_grow :: "nat \<Rightarrow> nat"
  ft_fuel :: nat

record foot =
  BaseDir :: string

definition ft_advance :: "foot_world \<Rightarrow> foot_world" where
  "ft_advance w = w\<lparr>ft_tick := Suc (ft_tick w)\<rparr>"

lemma ft_advance_simps [simp]:
  "ft_vars (ft_advance w) = ft_vars w" "ft_files (ft_advance w) = ft_files w" "ft_tick (ft_advance w) = Suc (ft_tick w)"
  by (simp_all add: ft_advance_def)

text \<open>\<^verbatim>\<open>os.LookupEnv\<close>: whether a variable is set.\<close>

definition lookup_env :: "string \<Rightarrow> foot_world \<Rightarrow> bool" where
  "lookup_env name w \<longleftrightarrow> name \<in> set (ft_vars w)"

section \<open>Paths\<close>

text \<open>\<^verbatim>\<open>filepath.Clean\<close> and \<^verbatim>\<open>filepath.Join\<close> of two elements, on Unix.\<close>

fun clean_parts :: "bool \<Rightarrow> string list \<Rightarrow> string list \<Rightarrow> string list" where
  "clean_parts rooted out [] = rev out"
| "clean_parts rooted out (p # ps) =
     (if p = '''' \<or> p = ''.'' then clean_parts rooted out ps
      else if p = ''..'' then
        (case out of
           q # qs \<Rightarrow> if q = ''..'' then clean_parts rooted (''..'' # out) ps else clean_parts rooted qs ps
         | [] \<Rightarrow> if rooted then clean_parts rooted [] ps else clean_parts rooted [''..''] ps)
      else clean_parts rooted (p # out) ps)"

fun join_parts :: "string list \<Rightarrow> string" where
  "join_parts [] = ''''"
| "join_parts [p] = p"
| "join_parts (p # ps) = p @ ''/'' @ join_parts ps"

definition filepath_clean :: "string \<Rightarrow> string" where
  "filepath_clean path =
     (let rooted = has_prefix path ''/'';
          cleaned = (if rooted then ''/'' else '''') @ join_parts (clean_parts rooted [] (split_on (CHR ''/'') path))
      in if cleaned = '''' then ''.'' else cleaned)"

definition filepath_join :: "string \<Rightarrow> string \<Rightarrow> string" where
  "filepath_join a b =
     (if a \<noteq> '''' then filepath_clean (a @ ''/'' @ b) else if b \<noteq> '''' then filepath_clean b else '''')"

definition UnpackArgsFileName :: string where "UnpackArgsFileName = ''unpack-args''"
definition BundleArgsFileName :: string where "BundleArgsFileName = ''bundle-args''"
definition DeleteArgsFileName :: string where "DeleteArgsFileName = ''delete-args''"
definition StatsArgsFileName :: string where "StatsArgsFileName = ''stats-args''"
definition WriteMetadataArgsFileName :: string where "WriteMetadataArgsFileName = ''write-metadata-args''"

definition path_to :: "foot \<Rightarrow> string \<Rightarrow> string" where
  "path_to t filename = filepath_join (BaseDir t) filename"

section \<open>The log files\<close>

definition must :: "error option \<Rightarrow> 's \<Rightarrow> unit outcome \<times> 's" where
  "must err s = (case err of None \<Rightarrow> (Val (), s) | Some e \<Rightarrow> (Panic (error_text e), s))"

text \<open>\<^verbatim>\<open>os.Stat\<close> finds the file; opening and decoding it; writing it.\<close>

definition ft_exists :: "foot_env \<Rightarrow> string \<Rightarrow> foot_world \<Rightarrow> bool \<times> foot_world" where
  "ft_exists X path w = (ft_fault X OpStat (ft_tick w) = None \<and> ft_files w path \<noteq> None, ft_advance w)"

definition ft_open :: "foot_env \<Rightarrow> string \<Rightarrow> foot_world \<Rightarrow> stored res \<times> foot_world" where
  "ft_open X path w =
     ((case ft_fault X OpOpen (ft_tick w) of
         Some e \<Rightarrow> Inl e
       | None \<Rightarrow>
           (case ft_files w path of
              None \<Rightarrow> Inl (path_error ''open'' path ''no such file or directory'')
            | Some f \<Rightarrow> Inr f)),
      ft_advance w)"

definition ft_decode :: "foot_env \<Rightarrow> stored \<Rightarrow> foot_world \<Rightarrow> json list res \<times> foot_world" where
  "ft_decode X f w =
     ((case ft_fault X OpRead (ft_tick w) of
         Some e \<Rightarrow> Inl e
       | None \<Rightarrow> (case f of Calls xs \<Rightarrow> Inr (map reloaded xs) | Undecodable e \<Rightarrow> Inl e)),
      ft_advance w)"

definition ft_write_file :: "foot_env \<Rightarrow> string \<Rightarrow> json list \<Rightarrow> foot_world \<Rightarrow> error option \<times> foot_world" where
  "ft_write_file X path xs w =
     (case ft_fault X OpWrite (ft_tick w) of
        Some e \<Rightarrow> (Some e, ft_advance w)
      | None \<Rightarrow> (None, (ft_advance w)\<lparr>ft_files := (ft_files w)(path \<mapsto> Calls xs)\<rparr>))"

definition must_res :: "'a res \<times> 's \<Rightarrow> 'a outcome \<times> 's" where
  "must_res r = (case r of (Inl e, s) \<Rightarrow> (Panic (error_text e), s) | (Inr x, s) \<Rightarrow> (Val x, s))"

definition load_object :: "foot_env \<Rightarrow> string \<Rightarrow> foot_world \<Rightarrow> json list outcome \<times> foot_world" where
  "load_object X pathname w =
     seq (must_res (ft_open X pathname w)) (\<lambda>file w. must_res (ft_decode X file w))"

definition save_object :: "foot_env \<Rightarrow> json \<Rightarrow> string \<Rightarrow> foot_world \<Rightarrow> unit outcome \<times> foot_world" where
  "save_object X currentCall pathname w =
     (case ft_exists X pathname w of (found, w) \<Rightarrow>
        seq (if found then seq (load_object X pathname w) (\<lambda>xs w. (Val (xs @ [currentCall]), w))
             else (Val [currentCall], w))
          (\<lambda>obj w. case ft_write_file X pathname (map marshalled obj) w of (err, w) \<Rightarrow> must err w))"

section \<open>The driver\<close>

text \<open>The error of an operation whose environment variable is set, or the rest of it.\<close>

definition bundle_runtime_spec :: runtime_spec where
  "bundle_runtime_spec = \<lparr>sp_Process = None, sp_rest = ''foot-rootfs-path''\<rparr>"

definition returned_volume_stats :: volume_stats where
  "returned_volume_stats = \<lparr>DiskUsage = \<lparr>TotalBytesUsed = 1234, ExclusiveBytesUsed = 12\<rparr>\<rparr>"

text \<open>\<^verbatim>\<open>Unpack\<close> reads the whole layer before it saves the call.\<close>

definition foot_unpacked :: "foot_env \<Rightarrow> foot \<Rightarrow> string \<Rightarrow> string list \<Rightarrow> foot_world \<Rightarrow> read_result \<Rightarrow>
    (int64 res outcome \<times> foot_world) client" where
  "foot_unpacked X t layerID parentIDs w r =
     (case r of
        (contents, Some e) \<Rightarrow> Return (Panic (error_text e), w)
      | (contents, None) \<Rightarrow>
          Return
            (seq (save_object X
                    (json_of_unpack \<lparr>ua_ID = layerID, ua_ParentIDs = parentIDs, ua_LayerTarContents = contents\<rparr>)
                    (path_to t UnpackArgsFileName) w)
               (\<lambda>_ w. (Val (Inr (of_nat (length contents))), w))))"

definition foot_unpack :: "foot_env \<Rightarrow> foot \<Rightarrow> foot_world unpack" where
  "foot_unpack X t layerID parentIDs w =
     (if lookup_env ''FOOT_UNPACK_ERROR'' w then Return (Val (Inl (ErrNew ''unpack-err'')), w)
      else client_read_all (ft_fuel X) (ft_grow X) (foot_unpacked X t layerID parentIDs w))"

definition foot_bundle :: "foot_env \<Rightarrow> foot \<Rightarrow> string \<Rightarrow> string list \<Rightarrow> int64 \<Rightarrow> foot_world \<Rightarrow>
    runtime_spec res outcome \<times> foot_world" where
  "foot_bundle X t bundleID layerIDs diskLimit w =
     (if lookup_env ''FOOT_BUNDLE_ERROR'' w then (Val (Inl (ErrNew ''bundle-err'')), w)
      else
        seq (save_object X (json_of_bundle \<lparr>ba_ID = bundleID, ba_LayerIDs = layerIDs, ba_DiskLimit = diskLimit\<rparr>)
               (path_to t BundleArgsFileName) w)
          (\<lambda>_ w. (Val (Inr bundle_runtime_spec), w)))"

definition foot_delete :: "foot_env \<Rightarrow> foot \<Rightarrow> string \<Rightarrow> foot_world \<Rightarrow> error option outcome \<times> foot_world" where
  "foot_delete X t bundleID w =
     (if lookup_env ''FOOT_BUNDLE_ERROR'' w then (Val (Some (ErrNew ''delete-err'')), w)
      else
        seq (save_object X (json_of_delete \<lparr>da_BundleID = bundleID\<rparr>) (path_to t DeleteArgsFileName) w)
          (\<lambda>_ w. (Val None, w)))"

definition foot_stats :: "foot_env \<Rightarrow> foot \<Rightarrow> string \<Rightarrow> foot_world \<Rightarrow> volume_stats res outcome \<times> foot_world" where
  "foot_stats X t bundleID w =
     (if lookup_env ''FOOT_STATS_ERROR'' w then (Val (Inl (ErrNew ''stats-err'')), w)
      else
        seq (save_object X (json_of_stats \<lparr>sa_ID = bundleID\<rparr>) (path_to t StatsArgsFileName) w)
          (\<lambda>_ w. (Val (Inr returned_volume_stats), w)))"

definition foot_write_metadata :: "foot_env \<Rightarrow> foot \<Rightarrow> string \<Rightarrow> image_metadata \<Rightarrow> foot_world \<Rightarrow>
    error option outcome \<times> foot_world" where
  "foot_write_metadata X t bundleID volumeData w =
     (if lookup_env ''FOOT_WRITE_METADATA_ERROR'' w then (Val (Some (ErrNew ''write-metadata-err'')), w)
      else
        seq (save_object X (json_of_write_metadata \<lparr>wa_ID = bundleID, wa_VolumeData = volumeData\<rparr>)
               (path_to t WriteMetadataArgsFileName) w)
          (\<lambda>_ w. (Val None, w)))"

definition foot_driver :: "foot_env \<Rightarrow> foot \<Rightarrow> foot_world driver" where
  "foot_driver X t =
     \<lparr>Unpack = foot_unpack X t, Bundle = foot_bundle X t, Delete = foot_delete X t,
      Stats = foot_stats X t, WriteMetadata = foot_write_metadata X t\<rparr>"

text \<open>
  \<^verbatim>\<open>main\<close>: the program with this driver, whose store is the global flag
  \<^verbatim>\<open>driver-store\<close>; what the framework reads from the arguments for it is \<open>store\<close>.
\<close>

definition foot_main :: "'z env \<Rightarrow> cli_env \<Rightarrow> foot_env \<Rightarrow> (string list \<Rightarrow> string) \<Rightarrow> string list \<Rightarrow>
    world \<times> foot_world \<Rightarrow> (nat \<times> string list) outcome \<times> (world \<times> foot_world)" where
  "foot_main E C X store argv = run E C (foot_driver X \<lparr>BaseDir = store argv\<rparr>) argv"

section \<open>Saving calls\<close>

text \<open>
  A save that returns has appended the call to the calls that were there, as decoding gives them
  back, and has written them all; no other file changes.
\<close>

definition logged_calls :: "string \<Rightarrow> foot_world \<Rightarrow> json list" where
  "logged_calls path w = (case ft_files w path of Some (Calls xs) \<Rightarrow> xs | _ \<Rightarrow> [])"

lemma save_object_Val:
  assumes "save_object X call path w = (Val u, w')" "\<forall>t. ft_fault X OpStat t = None"
  shows "ft_files w' = (ft_files w)(path \<mapsto> Calls (map marshalled (map reloaded (logged_calls path w) @ [call])))"
    "ft_vars w' = ft_vars w"
proof -
  have "ft_files w' = (ft_files w)(path \<mapsto> Calls (map marshalled (map reloaded (logged_calls path w) @ [call]))) \<and>
    ft_vars w' = ft_vars w"
  proof (cases "ft_files w path")
    case None
    with assms show ?thesis
      by (auto simp: save_object_def ft_exists_def ft_write_file_def must_def logged_calls_def
          split: option.splits)
  next
    case (Some f)
    with assms show ?thesis
      by (auto simp: save_object_def ft_exists_def ft_write_file_def must_def logged_calls_def load_object_def
          must_res_def ft_open_def ft_decode_def call_returns split: option.splits sum.splits stored.splits if_splits)
  qed
  then show "ft_files w' = (ft_files w)(path \<mapsto> Calls (map marshalled (map reloaded (logged_calls path w) @ [call])))"
    "ft_vars w' = ft_vars w" by simp_all
qed

text \<open>Where nothing fails and the file holds calls, saving returns.\<close>

definition no_faults :: "foot_env \<Rightarrow> bool" where
  "no_faults X \<longleftrightarrow> ft_fault X = (\<lambda>_ _. None)"

definition decodable :: "string \<Rightarrow> foot_world \<Rightarrow> bool" where
  "decodable path w = (case ft_files w path of Some (Undecodable e) \<Rightarrow> False | _ \<Rightarrow> True)"

lemma save_object_returns:
  assumes "no_faults X" "decodable path w"
  shows "\<exists>w'. save_object X call path w = (Val (), w')"
  using assms
  by (auto simp: no_faults_def decodable_def save_object_def ft_exists_def ft_write_file_def must_def
      load_object_def must_res_def ft_open_def ft_decode_def split: option.splits stored.splits)

section \<open>Every operation has its own log\<close>

definition plain_name :: "string \<Rightarrow> bool" where
  "plain_name n \<longleftrightarrow> n \<noteq> '''' \<and> n \<noteq> ''.'' \<and> n \<noteq> ''..'' \<and> CHR ''/'' \<notin> set n"

lemma split_on_last: "c \<notin> set n \<Longrightarrow> split_on c (a @ c # n) = split_on c a @ [n]"
proof (induction a)
  case Nil
  then show ?case by (simp add: split_on_no_sep)
next
  case (Cons x a)
  then show ?case by (cases "split_on c a") auto
qed

lemma clean_parts_last: "plain_name n \<Longrightarrow> clean_parts rooted out (ps @ [n]) = clean_parts rooted out ps @ [n]"
  by (induction rooted out ps rule: clean_parts.induct) (auto simp: plain_name_def split: list.splits)

lemma join_parts_last: "join_parts (ps @ [n]) = (if ps = [] then n else join_parts ps @ ''/'' @ n)"
proof (induction ps)
  case (Cons p ps)
  then show ?case by (cases ps) auto
qed simp

lemma path_to_last:
  assumes "plain_name n"
  shows "path_to t n =
    (if BaseDir t = '''' then n
     else let r = has_prefix (BaseDir t @ ''/'') ''/''; ps = clean_parts r [] (split_on (CHR ''/'') (BaseDir t))
          in (if r then ''/'' else '''') @ (if ps = [] then '''' else join_parts ps @ ''/'') @ n)"
proof (cases "BaseDir t = ''''")
  case True
  moreover have "hd n \<noteq> CHR ''/''" using assms by (cases n) (auto simp: plain_name_def)
  ultimately show ?thesis
    using assms
    by (auto simp: path_to_def filepath_join_def filepath_clean_def plain_name_def split_on_no_sep has_prefix_def
        take_Suc)
next
  case False
  have "has_prefix (BaseDir t @ ''/'' @ n) ''/'' = has_prefix (BaseDir t @ ''/'') ''/''"
    using False by (cases "BaseDir t") (simp_all add: has_prefix_def)
  with False assms show ?thesis
    using split_on_last [of "CHR ''/''" n "BaseDir t"] clean_parts_last [OF assms]
    by (simp add: path_to_def filepath_join_def filepath_clean_def Let_def join_parts_last plain_name_def)
qed

lemma path_to_inject: "plain_name m \<Longrightarrow> plain_name n \<Longrightarrow> path_to t m = path_to t n \<longleftrightarrow> m = n"
  by (auto simp: path_to_last Let_def split: if_splits)

text \<open>The calls of a driver, the log each belongs to and the operation that makes it.\<close>

datatype foot_call =
    UnpackCall unpack_args
  | BundleCall bundle_args
  | DeleteCall delete_args
  | StatsCall stats_args
  | WriteMetadataCall write_metadata_args

primrec json_of_call :: "foot_call \<Rightarrow> json" where
  "json_of_call (UnpackCall a) = json_of_unpack a"
| "json_of_call (BundleCall a) = json_of_bundle a"
| "json_of_call (DeleteCall a) = json_of_delete a"
| "json_of_call (StatsCall a) = json_of_stats a"
| "json_of_call (WriteMetadataCall a) = json_of_write_metadata a"

primrec log_of_call :: "foot_call \<Rightarrow> string" where
  "log_of_call (UnpackCall a) = UnpackArgsFileName"
| "log_of_call (BundleCall a) = BundleArgsFileName"
| "log_of_call (DeleteCall a) = DeleteArgsFileName"
| "log_of_call (StatsCall a) = StatsArgsFileName"
| "log_of_call (WriteMetadataCall a) = WriteMetadataArgsFileName"

text \<open>
  One call of a driver's method.  The layer that \<^verbatim>\<open>Unpack\<close> reads is a stream that arrives in
  pieces; the other methods read nothing.
\<close>

definition perform :: "foot_env \<Rightarrow> foot \<Rightarrow> foot_call \<times> blob_stream \<Rightarrow> foot_world \<Rightarrow> unit res outcome \<times> foot_world" where
  "perform X t cs w =
     (let D = foot_driver X t; unless_error = (\<lambda>err w. (Val (case err of None \<Rightarrow> Inr () | Some e \<Rightarrow> Inl e), w))
      in case fst cs of
        UnpackCall a \<Rightarrow>
          (case fst (run_client stream_read (Unpack D (ua_ID a) (ua_ParentIDs a) w) (snd cs)) of
             Val rw \<Rightarrow> seq rw (\<lambda>r w. (Val (map_sum id (\<lambda>_. ()) r), w))
           | Panic m \<Rightarrow> (Panic m, w)
           | Diverges \<Rightarrow> (Diverges, w))
      | BundleCall a \<Rightarrow> seq (Bundle D (ba_ID a) (ba_LayerIDs a) (ba_DiskLimit a) w) (\<lambda>r w. (Val (map_sum id (\<lambda>_. ()) r), w))
      | DeleteCall a \<Rightarrow> seq (Delete D (da_BundleID a) w) unless_error
      | StatsCall a \<Rightarrow> seq (Stats D (sa_ID a) w) (\<lambda>r w. (Val (map_sum id (\<lambda>_. ()) r), w))
      | WriteMetadataCall a \<Rightarrow> seq (WriteMetadata D (wa_ID a) (wa_VolumeData a) w) unless_error)"

text \<open>A sequence of calls, up to the first that does not succeed.\<close>

primrec perform_all :: "foot_env \<Rightarrow> foot \<Rightarrow> (foot_call \<times> blob_stream) list \<Rightarrow> foot_world \<Rightarrow> unit res outcome \<times> foot_world" where
  "perform_all X t [] w = (Val (Inr ()), w)"
| "perform_all X t (c # cs) w = attempt (perform X t c w) (\<lambda>e. e) (\<lambda>_ w. perform_all X t cs w)"

text \<open>The stream of an unpacking delivers, in any pieces, the contents that its call is to record.\<close>

definition delivers :: "foot_env \<Rightarrow> foot_call \<times> blob_stream \<Rightarrow> bool" where
  "delivers X cs \<longleftrightarrow>
     (case fst cs of
        UnpackCall a \<Rightarrow>
          finite_body (snd cs) \<and> concat (bl_chunks (snd cs)) = ua_LayerTarContents a \<and> bl_final (snd cs) = ErrEOF \<and>
          (\<forall>k \<le> length (ua_LayerTarContents a). k + 1 + ft_grow X k < 2 ^ 63)
      | _ \<Rightarrow> True)"

lemma foot_driver_simps [simp]:
  "Unpack (foot_driver X t) = foot_unpack X t" "Bundle (foot_driver X t) = foot_bundle X t"
  "Delete (foot_driver X t) = foot_delete X t" "Stats (foot_driver X t) = foot_stats X t"
  "WriteMetadata (foot_driver X t) = foot_write_metadata X t"
  by (simp_all add: foot_driver_def)

lemma call_eta [simp]:
  "json_of_unpack \<lparr>ua_ID = ua_ID a, ua_ParentIDs = ua_ParentIDs a, ua_LayerTarContents = ua_LayerTarContents a\<rparr> =
     json_of_unpack a"
  "json_of_bundle \<lparr>ba_ID = ba_ID b, ba_LayerIDs = ba_LayerIDs b, ba_DiskLimit = ba_DiskLimit b\<rparr> = json_of_bundle b"
  "json_of_delete \<lparr>da_BundleID = da_BundleID d\<rparr> = json_of_delete d"
  "json_of_stats \<lparr>sa_ID = sa_ID e\<rparr> = json_of_stats e"
  "json_of_write_metadata \<lparr>wa_ID = wa_ID m, wa_VolumeData = wa_VolumeData m\<rparr> = json_of_write_metadata m"
  by (simp_all add: json_of_unpack_def json_of_bundle_def json_of_delete_def json_of_stats_def
      json_of_write_metadata_def)

text \<open>The bound on the reads matters to \<^verbatim>\<open>Unpack\<close> only.\<close>

lemma save_object_fuel [simp]: "save_object (X\<lparr>ft_fuel := fuel\<rparr>) = save_object X"
proof -
  have same: "ft_open (X\<lparr>ft_fuel := fuel\<rparr>) = ft_open X" "ft_decode (X\<lparr>ft_fuel := fuel\<rparr>) = ft_decode X"
    "ft_exists (X\<lparr>ft_fuel := fuel\<rparr>) = ft_exists X" "ft_write_file (X\<lparr>ft_fuel := fuel\<rparr>) = ft_write_file X"
    by (simp_all add: fun_eq_iff ft_open_def ft_decode_def ft_exists_def ft_write_file_def)
  have "load_object (X\<lparr>ft_fuel := fuel\<rparr>) = load_object X"
    by (intro ext) (simp add: load_object_def same)
  with same show ?thesis by (intro ext) (simp only: save_object_def)
qed

lemma foot_unpacked_fuel [simp]: "foot_unpacked (X\<lparr>ft_fuel := fuel\<rparr>) = foot_unpacked X"
  by (simp add: fun_eq_iff foot_unpacked_def)

text \<open>With enough reads, \<^verbatim>\<open>Unpack\<close> gets what the reader has to offer.\<close>

lemma foot_unpack_reads:
  assumes "io_read_all (ft_grow X) rd s = (Val (contents, None), s')" "''FOOT_UNPACK_ERROR'' \<notin> set (ft_vars w)"
  shows "\<exists>least. \<forall>fuel \<ge> least. run_client rd (foot_unpack (X\<lparr>ft_fuel := fuel\<rparr>) t layerID ps w) s =
    run_client rd (foot_unpacked X t layerID ps w (contents, None)) s'"
  using run_client_read_all [OF assms(1)] assms(2) by (simp add: foot_unpack_def lookup_env_def)

lemma perform_saves:
  assumes "ft_vars w = []" "save_object X (json_of_call (fst c)) (path_to t (log_of_call (fst c))) w = (Val (), w')"
    and "delivers X c"
  shows "\<exists>least. \<forall>fuel \<ge> least. perform (X\<lparr>ft_fuel := fuel\<rparr>) t c w = (Val (Inr ()), w')"
proof (cases "fst c")
  case (UnpackCall a)
  with assms(3) obtain s' where "io_read_all (ft_grow X) stream_read (snd c) = (Val (ua_LayerTarContents a, None), s')"
    using stream.read_all_ok [of "snd c" "ft_grow X"] by (auto simp: delivers_def eof_to_nil_def)
  from foot_unpack_reads [OF this, of w t "ua_ID a" "ua_ParentIDs a"] assms(1) obtain least where
    "\<forall>fuel \<ge> least. run_client stream_read (foot_unpack (X\<lparr>ft_fuel := fuel\<rparr>) t (ua_ID a) (ua_ParentIDs a) w) (snd c) =
      run_client stream_read (foot_unpacked X t (ua_ID a) (ua_ParentIDs a) w (ua_LayerTarContents a, None)) s'" by auto
  with UnpackCall assms(2) show ?thesis
    by (intro exI [of _ least]) (auto simp: perform_def foot_unpacked_def)
qed (use assms(1,2) in \<open>simp_all add: perform_def foot_bundle_def foot_delete_def foot_stats_def
      foot_write_metadata_def lookup_env_def\<close>)

lemmas log_names = UnpackArgsFileName_def BundleArgsFileName_def DeleteArgsFileName_def
  StatsArgsFileName_def WriteMetadataArgsFileName_def

lemma plain_log_name: "plain_name (log_of_call c)"
  by (cases c) (simp_all add: plain_name_def log_names)

text \<open>
  The state that the abstract log of calls stands for: every file holds the calls of its operation,
  in the form that \<^verbatim>\<open>json.Marshal\<close> gives them.
\<close>

definition recorded :: "foot_call \<Rightarrow> json" where
  "recorded c = marshalled (json_of_call c)"

definition logs :: "foot \<Rightarrow> foot_call list \<Rightarrow> foot_world \<Rightarrow> bool" where
  "logs t cs w \<longleftrightarrow>
     ft_vars w = [] \<and>
     (\<forall>c. decodable (path_to t (log_of_call c)) w \<and>
        logged_calls (path_to t (log_of_call c)) w =
          map recorded (filter (\<lambda>c'. log_of_call c' = log_of_call c) cs))"

text \<open>Saving a call appends it to the abstract log, where no earlier call of its operation is changed.\<close>

lemma save_logs_Val:
  assumes "save_object X (json_of_call c) (path_to t (log_of_call c)) w = (Val (), w')" "\<forall>n. ft_fault X OpStat n = None"
    and "logs t cs w" "\<forall>c' \<in> set cs. log_of_call c' = log_of_call c \<longrightarrow> exact_json (json_of_call c')"
  shows "logs t (cs @ [c]) w'"
proof -
  note saved = save_object_Val [OF assms(1,2)]
  have "map (\<lambda>j. marshalled (reloaded j)) (logged_calls (path_to t (log_of_call c)) w) =
      logged_calls (path_to t (log_of_call c)) w"
    using assms(3,4) by (auto simp: logs_def recorded_def marshalled_exact)
  then have f: "ft_files w' = (ft_files w)(path_to t (log_of_call c) \<mapsto>
      Calls (logged_calls (path_to t (log_of_call c)) w @ [recorded c]))"
    using saved(1) by (simp add: recorded_def comp_def)
  have "decodable (path_to t (log_of_call c')) w' \<and> logged_calls (path_to t (log_of_call c')) w' =
      map recorded (filter (\<lambda>d. log_of_call d = log_of_call c') (cs @ [c]))" for c'
    using assms(3) f path_to_inject [OF plain_log_name plain_log_name, of t c' c]
    by (cases "log_of_call c' = log_of_call c") (auto simp: logs_def decodable_def logged_calls_def)
  then show ?thesis using assms(3) saved(2) by (simp add: logs_def)
qed

lemma save_logs:
  assumes "no_faults X" "logs t cs w"
    and "\<forall>c' \<in> set cs. log_of_call c' = log_of_call c \<longrightarrow> exact_json (json_of_call c')"
  shows "\<exists>w'. save_object X (json_of_call c) (path_to t (log_of_call c)) w = (Val (), w') \<and> logs t (cs @ [c]) w'"
proof -
  have "decodable (path_to t (log_of_call c)) w" using assms(2) by (simp add: logs_def)
  then obtain w' where s: "save_object X (json_of_call c) (path_to t (log_of_call c)) w = (Val (), w')"
    using save_object_returns [OF assms(1)] by blast
  have "\<forall>t. ft_fault X OpStat t = None" using assms(1) by (simp add: no_faults_def)
  from save_logs_Val [OF s this assms(2,3)] s show ?thesis by blast
qed

lemma perform_logs:
  assumes "no_faults X" "logs t cs w" "list_all (exact_json \<circ> json_of_call) cs" "delivers X c"
  shows "\<exists>least w'. (\<forall>fuel \<ge> least. perform (X\<lparr>ft_fuel := fuel\<rparr>) t c w = (Val (Inr ()), w')) \<and> logs t (cs @ [fst c]) w'"
proof -
  have "\<forall>c' \<in> set cs. log_of_call c' = log_of_call (fst c) \<longrightarrow> exact_json (json_of_call c')"
    using assms(3) by (simp add: list_all_iff)
  from save_logs [OF assms(1,2) this] obtain w' where
    save: "save_object X (json_of_call (fst c)) (path_to t (log_of_call (fst c))) w = (Val (), w')" "logs t (cs @ [fst c]) w'"
    by blast
  have "ft_vars w = []" using assms(2) by (simp add: logs_def)
  from perform_saves [OF this save(1) assms(4)] save(2) show ?thesis by blast
qed

lemma perform_all_logs:
  assumes "no_faults X" "logs t earlier w" "list_all (exact_json \<circ> json_of_call) (earlier @ map fst cs)" "list_all (delivers X) cs"
  shows "\<exists>least w'. (\<forall>fuel \<ge> least. perform_all (X\<lparr>ft_fuel := fuel\<rparr>) t cs w = (Val (Inr ()), w')) \<and>
    logs t (earlier @ map fst cs) w'"
  using assms(2-4)
proof (induction cs arbitrary: earlier w)
  case (Cons c cs)
  obtain least1 w1 where first: "\<forall>fuel \<ge> least1. perform (X\<lparr>ft_fuel := fuel\<rparr>) t c w = (Val (Inr ()), w1)"
    and log1: "logs t (earlier @ [fst c]) w1"
    using perform_logs [OF assms(1) Cons.prems(1), of c] Cons.prems(2,3) by (auto simp: comp_def)
  obtain least2 w' where rest: "\<forall>fuel \<ge> least2. perform_all (X\<lparr>ft_fuel := fuel\<rparr>) t cs w1 = (Val (Inr ()), w')"
    and log: "logs t (earlier @ map fst (c # cs)) w'"
    using Cons.IH [OF log1] Cons.prems(2,3) by (auto simp: comp_def)
  have "perform_all (X\<lparr>ft_fuel := fuel\<rparr>) t (c # cs) w = (Val (Inr ()), w')" if "max least1 least2 \<le> fuel" for fuel
    using that first rest by simp
  with log show ?case by blast
qed auto

text \<open>
  C29: The log files are a faithful record.  Where no call of the operating system fails and no
  error is asked for, on a store that holds the logs of any earlier calls (of none, to begin with),
  any sequence of calls succeeds, each \<^verbatim>\<open>Unpack\<close> reading a stream that ends, in whatever pieces it
  arrives; and every log then holds exactly the earlier and the new calls of its operation, in
  their order, in the form that \<^verbatim>\<open>json.Marshal\<close> gives a call when it is made (bytes that are not
  valid UTF-8 are replaced in its strings).  The numbers of the calls must be at most \<open>2 ^ 53\<close>:
  a larger one may be rounded by the next call of the same operation.
\<close>

theorem foot_records_all_calls:
  assumes "no_faults X" "logs t earlier w" "list_all (exact_json \<circ> json_of_call) (earlier @ map fst cs)"
    and "list_all (delivers X) cs"
  shows "\<exists>least w'. (\<forall>fuel \<ge> least. perform_all (X\<lparr>ft_fuel := fuel\<rparr>) t cs w = (Val (Inr ()), w')) \<and>
    (\<forall>c. logged_calls (path_to t (log_of_call c)) w' =
       map (marshalled \<circ> json_of_call) (filter (\<lambda>c'. log_of_call c' = log_of_call c) (earlier @ map fst cs)))"
proof -
  obtain least w' where "\<forall>fuel \<ge> least. perform_all (X\<lparr>ft_fuel := fuel\<rparr>) t cs w = (Val (Inr ()), w')"
    and "logs t (earlier @ map fst cs) w'"
    using perform_all_logs [OF assms] by blast
  moreover have "map recorded xs = map (marshalled \<circ> json_of_call) xs" for xs by (simp add: recorded_def)
  ultimately show ?thesis unfolding logs_def by metis
qed

text \<open>Calls whose strings are ASCII are recorded as they are; contents always are, in base64.\<close>

lemma recorded_plain: "plain_json (json_of_call c) \<Longrightarrow> recorded c = json_of_call c"
  by (simp add: recorded_def marshalled_plain)

text \<open>A store under \<open>/store\<close>, nothing set, nothing failing.\<close>

definition calm_env :: foot_env where
  "calm_env = \<lparr>ft_fault = (\<lambda>_ _. None), ft_grow = (\<lambda>_. 0), ft_fuel = 100\<rparr>"

definition fresh_foot :: foot_world where
  "fresh_foot = \<lparr>ft_vars = [], ft_files = Map.empty, ft_tick = 0\<rparr>"

lemma calm_env_simps [simp]:
  "no_faults calm_env" "ft_fault calm_env op n = None" "ft_vars fresh_foot = []" "ft_files fresh_foot = Map.empty"
  "ft_grow calm_env k = 0"
  by (simp_all add: calm_env_def fresh_foot_def no_faults_def)

lemma logs_fresh [simp]: "logs t [] fresh_foot"
  by (simp add: logs_def decodable_def logged_calls_def)

text \<open>
  The instance: a layer that arrives in two pieces, and two bundles, one with a handle that is not
  valid UTF-8.
\<close>

theorem foot_records_all_calls_witness:
  "\<exists>fuel w'. perform_all (calm_env\<lparr>ft_fuel := fuel\<rparr>) \<lparr>BaseDir = ''/store/''\<rparr>
       [(UnpackCall \<lparr>ua_ID = ''c0'', ua_ParentIDs = [], ua_LayerTarContents = [1, 2, 3]\<rparr>,
           \<lparr>bl_chunks = [[1], [2, 3]], bl_rest = Nothing_more, bl_final = ErrEOF\<rparr>),
        (BundleCall \<lparr>ba_ID = [CHR 0xFF], ba_LayerIDs = [''c0''], ba_DiskLimit = 7\<rparr>, sample_stream []),
        (DeleteCall \<lparr>da_BundleID = ''a''\<rparr>, sample_stream []),
        (BundleCall \<lparr>ba_ID = ''b'', ba_LayerIDs = [''c0''], ba_DiskLimit = 8\<rparr>, sample_stream [])] fresh_foot =
       (Val (Inr ()), w') \<and>
     logged_calls ''/store/unpack-args'' w' =
       [json_of_unpack \<lparr>ua_ID = ''c0'', ua_ParentIDs = [], ua_LayerTarContents = [1, 2, 3]\<rparr>] \<and>
     logged_calls ''/store/bundle-args'' w' =
       [json_of_bundle \<lparr>ba_ID = [CHR 0xEF, CHR 0xBF, CHR 0xBD], ba_LayerIDs = [''c0''], ba_DiskLimit = 7\<rparr>,
        json_of_bundle \<lparr>ba_ID = ''b'', ba_LayerIDs = [''c0''], ba_DiskLimit = 8\<rparr>]"
proof -
  let ?t = "\<lparr>BaseDir = ''/store/''\<rparr>"
  let ?u = "UnpackCall \<lparr>ua_ID = ''c0'', ua_ParentIDs = [], ua_LayerTarContents = [1, 2, 3]\<rparr>"
  let ?a = "BundleCall \<lparr>ba_ID = [CHR 0xFF], ba_LayerIDs = [''c0''], ba_DiskLimit = 7\<rparr>"
  let ?b = "BundleCall \<lparr>ba_ID = ''b'', ba_LayerIDs = [''c0''], ba_DiskLimit = 8\<rparr>"
  let ?cs = "[(?u, \<lparr>bl_chunks = [[1], [2, 3]], bl_rest = Nothing_more, bl_final = ErrEOF\<rparr>), (?a, sample_stream []),
    (DeleteCall \<lparr>da_BundleID = ''a''\<rparr>, sample_stream []), (?b, sample_stream [])]"
  have exact: "list_all (exact_json \<circ> json_of_call) ([] @ map fst ?cs)"
    by (simp add: json_of_unpack_def json_of_bundle_def json_of_delete_def)
  have "list_all (delivers calm_env) ?cs" by (simp add: delivers_def finite_body_def)
  from foot_records_all_calls [OF calm_env_simps(1) logs_fresh exact this, of ?t] obtain fuel w' where
    run: "perform_all (calm_env\<lparr>ft_fuel := fuel\<rparr>) ?t ?cs fresh_foot = (Val (Inr ()), w')"
    and logs: "\<forall>c. logged_calls (path_to ?t (log_of_call c)) w' =
       map (marshalled \<circ> json_of_call) (filter (\<lambda>c'. log_of_call c' = log_of_call c) ([] @ map fst ?cs))" by blast
  have paths: "path_to ?t UnpackArgsFileName = ''/store/unpack-args''" "path_to ?t BundleArgsFileName = ''/store/bundle-args''"
    by code_simp+
  have ff: "to_utf8 [CHR 0xFF] = [CHR 0xEF, CHR 0xBF, CHR 0xBD]" by code_simp
  have "plain_json (json_of_call ?u)" "plain_json (json_of_call ?b)"
    by (simp add: json_of_unpack_def json_of_bundle_def base64_ascii del: base64.simps, simp add: ascii_def byte_of_def)+
  note plain = this [THEN marshalled_plain]
  have "marshalled (json_of_call ?a) =
      json_of_bundle \<lparr>ba_ID = [CHR 0xEF, CHR 0xBF, CHR 0xBD], ba_LayerIDs = [''c0''], ba_DiskLimit = 7\<rparr>"
    by (simp add: json_of_bundle_def ff to_utf8_ascii ascii_def byte_of_def)
  with plain run logs [rule_format, of ?u] logs [rule_format, of ?a] show ?thesis
    by (intro exI [of _ fuel] exI [of _ w']) (simp add: paths, simp add: log_names)
qed

section \<open>Two faults of the test driver\<close>

text \<open>
  Deleting fails when \<^verbatim>\<open>FOOT_BUNDLE_ERROR\<close> is set, the variable of another operation;
  no other variable makes it fail.
\<close>

lemma delete_obeys_bundle_variable:
  assumes "no_faults X" "decodable (path_to t DeleteArgsFileName) w"
  shows "\<exists>w'. foot_delete X t bundleID w =
    (Val (if ''FOOT_BUNDLE_ERROR'' \<in> set (ft_vars w) then Some (ErrNew ''delete-err'') else None), w')"
  using save_object_returns [OF assms, of "json_of_delete \<lparr>da_BundleID = bundleID\<rparr>"]
  by (auto simp: foot_delete_def lookup_env_def)

text \<open>
  A recorded disk limit above \<open>2 ^ 53\<close> is rounded by the next call of the same operation,
  which reloads the log into floating-point numbers: here \<open>2 ^ 53 + 1\<close> has become \<open>2 ^ 53\<close>.
\<close>

lemma large_limit_is_rounded_in_log:
  "\<exists>w'. perform_all calm_env t
       [(BundleCall \<lparr>ba_ID = ''a'', ba_LayerIDs = [], ba_DiskLimit = 9007199254740993\<rparr>, s),
        (BundleCall \<lparr>ba_ID = ''b'', ba_LayerIDs = [], ba_DiskLimit = 0\<rparr>, s)] fresh_foot = (Val (Inr ()), w') \<and>
     logged_calls (path_to t BundleArgsFileName) w' =
       [json_of_bundle \<lparr>ba_ID = ''a'', ba_LayerIDs = [], ba_DiskLimit = 9007199254740992\<rparr>,
        json_of_bundle \<lparr>ba_ID = ''b'', ba_LayerIDs = [], ba_DiskLimit = 0\<rparr>]"
proof -
  have "excess_bits 9007199254740993 = 1" by (simp add: excess_bits.simps)
  then have "float64 9007199254740993 = 9007199254740992" by (simp add: float64_def signed_def round_nat_def)
  moreover have "shortest_decimal 9007199254740992 = 9007199254740992" by (rule shortest_exact) simp
  moreover have "to_utf8 s = s" if "s \<in> {''a'', ''b'', ''ID'', ''LayerIDs'', ''DiskLimit''}" for s
    using that by (intro to_utf8_ascii) (auto simp: ascii_def byte_of_def)
  ultimately show ?thesis
    by (simp add: perform_def foot_bundle_def lookup_env_def save_object_def ft_exists_def load_object_def ft_open_def
        ft_decode_def must_res_def ft_write_file_def must_def logged_calls_def json_of_bundle_def)
qed

end
