(* ===== verification/Foot_Pulls.thy ===== *)
theory Foot_Pulls
  imports Foot
begin

text \<open>
  The whole chain from the registry to a driver that keeps what it reads: pulling an image with
  the driver of the integration tests.  What its log holds afterwards is what the registry's
  configuration promised, layer by layer.
\<close>

section \<open>A client that reads everything\<close>

text \<open>What \<^verbatim>\<open>io.ReadAll\<close> returns without an error from a file is what was left to read.\<close>

lemma os_read_unread:
  assumes "os_read E fd n w = (Val (bs, e), w')" "reads_files E"
  shows "e = None \<longrightarrow> unread fd w = bs @ unread fd w'" "e = Some ErrEOF \<longrightarrow> bs = [] \<and> unread fd w = []"
  using assms
  by (auto simp: os_read_def unread_def path_error_def reads_files_def split: option.splits if_splits)

lemma read_all_client_os:
  assumes "run_client (os_read E fd) (read_all_client fuel grow k cap buf) w = (Val x, w')" "reads_files E"
  shows "\<exists>b err w1. run_client (os_read E fd) (k (b, err)) w1 = (Val x, w') \<and> (err = None \<longrightarrow> b = buf @ unread fd w)"
  using assms(1)
proof (induction fuel arbitrary: cap buf w)
  case (Suc fuel)
  obtain bs e w1 where rd: "os_read E fd (cap - length buf) w = (Val (bs, e), w1)"
    using Suc.prems by (auto simp: call_returns)
  note step = os_read_unread [OF rd assms(2)]
  show ?case
  proof (cases e)
    case None
    with Suc.prems rd obtain cap' where
      "run_client (os_read E fd) (read_all_client fuel grow k cap' (buf @ bs)) w1 = (Val x, w')"
      by (auto simp: Let_def)
    from Suc.IH [OF this] step(1) None show ?thesis by auto
  next
    case (Some err)
    with Suc.prems rd have "run_client (os_read E fd) (k (buf @ bs, eof_to_nil err)) w1 = (Val x, w')"
      by (simp add: Let_def)
    moreover have "eof_to_nil err = None \<longrightarrow> buf @ bs = buf @ unread fd w"
      using step(2) Some by (simp add: eof_to_nil_def)
    ultimately show ?thesis by (intro exI [of _ "buf @ bs"] exI [of _ "eof_to_nil err"] exI [of _ w1]) simp
  qed
qed simp

section \<open>Unpacking one layer\<close>

lemma foot_unpacked_Val:
  assumes "run_client rd (foot_unpacked X t li ps fw r) s = (Val (Val (Inr n), fw'), s')"
  shows "s' = s \<and> (\<exists>contents. r = (contents, None) \<and> n = of_nat (length contents) \<and>
    save_object X (json_of_unpack \<lparr>ua_ID = li, ua_ParentIDs = ps, ua_LayerTarContents = contents\<rparr>)
      (path_to t UnpackArgsFileName) fw = (Val (), fw'))"
  using assms by (auto simp: foot_unpacked_def call_returns split: prod.splits option.splits)

lemma client_read_all_first:
  "fuel \<noteq> 0 \<Longrightarrow> \<exists>k'. client_read_all fuel grow k = Read_then 512 k' \<and>
     (\<forall>e. k' ([], Some e) = k ([], eof_to_nil e))"
  by (cases fuel) (simp_all add: client_read_all_def)

text \<open>
  When \<^verbatim>\<open>Unpack\<close> returns a size, the layer's stream was opened, and the call was saved with
  everything it had to offer.
\<close>

lemma foot_unpack_run:
  assumes run: "run_client (ondemand_read (open_layer (registry_fetcher E) li) (ReadStream (registry_fetcher E)))
      (foot_unpack X t layerID ps fw) (None, (s, w)) = (Val (Val (Inr n), fw'), dw)"
    and "reads_files E"
  obtains h sz s1 w1 w2 where
    "StreamBlob (registry_fetcher E) li (s, w) = (Val (Inr (h, sz)), (s1, w1))" "dw = (Some h, (s1, w2))"
    "n = of_nat (length (unread (br_reader h) w1))"
    "save_object X (json_of_unpack \<lparr>ua_ID = layerID, ua_ParentIDs = ps, ua_LayerTarContents = unread (br_reader h) w1\<rparr>)
      (path_to t UnpackArgsFileName) fw = (Val (), fw')"
proof -
  let ?k = "foot_unpacked X t layerID ps fw" and ?F = "registry_fetcher E"
  let ?c = "client_read_all (ft_fuel X) (ft_grow X) ?k"
  have c: "foot_unpack X t layerID ps fw = ?c" "ft_fuel X \<noteq> 0"
    using run by (cases "ft_fuel X"; auto simp: foot_unpack_def client_read_all_def split: if_splits)+
  obtain k' where k': "?c = Read_then 512 k'" "\<forall>e. k' ([], Some e) = ?k ([], eof_to_nil e)"
    using client_read_all_first [OF c(2)] by blast
  obtain x s1 w1 where o: "open_layer ?F li (s, w) = (x, (s1, w1))" by (rule prod_cases3)
  note first = run [unfolded c k', unfolded run_ondemand_first, unfolded o]
  show thesis
  proof (cases "\<exists>h. x = Val (Inr h)")
    case False
    then show thesis
      using first o k'(2)
      by (auto simp: open_layer_def call_returns eof_to_nil_def foot_unpacked_def
          split: outcome.splits sum.splits)
  next
    case True
    then obtain h where x: "x = Val (Inr h)" by blast
    with o obtain sz where stream: "StreamBlob ?F li (s, w) = (Val (Inr (h, sz)), (s1, w1))"
      by (auto simp: open_layer_def attempt_eq_Inr)
    have "run_client (ReadStream ?F h) ?c (s1, w1) =
        (case run_client (os_read E (br_reader h)) ?c w1 of (r, w) \<Rightarrow> (r, (s1, w)))"
      by (rule run_client_simulation) (simp add: blob_reader_read_def)
    with first x obtain w2 where w2: "run_client (os_read E (br_reader h)) ?c w1 = (Val (Val (Inr n), fw'), w2)"
      "dw = (Some h, (s1, w2))"
      by (auto simp: k'(1) [symmetric] split: prod.splits)
    from read_all_client_os [OF w2(1) [unfolded client_read_all_def] assms(2)] foot_unpacked_Val
    obtain contents where "contents = unread (br_reader h) w1" "n = of_nat (length contents)"
      "save_object X (json_of_unpack \<lparr>ua_ID = layerID, ua_ParentIDs = ps, ua_LayerTarContents = contents\<rparr>)
        (path_to t UnpackArgsFileName) fw = (Val (), fw')"
      by fastforce
    with stream w2(2) that show thesis by blast
  qed
qed

abbreviation registry_idle :: "'z env \<Rightarrow> world \<Rightarrow> ls_world \<Rightarrow> bool" where
  "registry_idle E \<equiv> layer_idle E (\<lambda>_. removes_files E) source_held"

lemma foot_build_layer:
  assumes b: "build_layer (registry_fetcher E) (foot_unpack X t) li ps ((s, w), fw) = (Val (Inr n), ((s', w'), fw'))"
    and idle: "registry_idle E w0 (s, w)" and "reads_files E"
  obtains content where "registry_idle E w0 (s', w')" "same_settings s s'"
    "\<not> skipOCILayerValidation s \<longrightarrow> hex_encode (sha256 content) = DiffID li"
    "remainingImageQuota s' = remainingImageQuota s - of_nat (length content)"
    "\<not> skipImageQuotaValidation s \<longrightarrow> 0 \<le> sint (remainingImageQuota s) \<longrightarrow>
      int (length content) \<le> sint (remainingImageQuota s)"
    "n = of_nat (length content)"
    "save_object X (json_of_unpack \<lparr>ua_ID = ChainID li, ua_ParentIDs = ps, ua_LayerTarContents = content\<rparr>)
      (path_to t UnpackArgsFileName) fw = (Val (), fw')"
proof -
  let ?F = "registry_fetcher E"
  obtain dw where run: "run_client (ondemand_read (open_layer ?F li) (ReadStream ?F))
      (foot_unpack X t (ChainID li) ps fw) (None, (s, w)) = (Val (Val (Inr n), fw'), dw)"
    and close: "(s', w') = snd (snd (ondemand_close (CloseStream ?F) dw))"
    using b by (auto simp: build_layer_Val)
  obtain h sz s1 w1 w2 where st: "StreamBlob ?F li (s, w) = (Val (Inr (h, sz)), (s1, w1))"
    and dw: "dw = (Some h, (s1, w2))" and n: "n = of_nat (length (unread (br_reader h) w1))"
    and save: "save_object X (json_of_unpack \<lparr>ua_ID = ChainID li, ua_ParentIDs = ps,
      ua_LayerTarContents = unread (br_reader h) w1\<rparr>) (path_to t UnpackArgsFileName) fw = (Val (), fw')"
    by (rule foot_unpack_run [OF run assms(3)])
  have "s' = s1" using close dw by (auto simp: ondemand_close_def split: prod.splits)
  moreover have "wf_world w" using idle by (auto simp: layer_idle_def intro: quiet_wf)
  note content = stream_blob_content [OF st this]
  moreover have "registry_idle E w0 (s', w')" by (rule registry.fetch.build_layer_idle [OF idle b])
  ultimately show thesis using n save that by blast
qed

text \<open>The calls of a driver for a stack of layers, each on top of the ones before.\<close>

fun unpack_calls :: "string list \<Rightarrow> (string \<times> bytes) list \<Rightarrow> foot_call list" where
  "unpack_calls parents [] = []"
| "unpack_calls parents ((layerID, content) # rest) =
     UnpackCall \<lparr>ua_ID = layerID, ua_ParentIDs = parents, ua_LayerTarContents = content\<rparr> #
     unpack_calls (parents @ [layerID]) rest"

lemma unpack_calls_log: "c \<in> set (unpack_calls ps xs) \<Longrightarrow> log_of_call c = UnpackArgsFileName"
  by (induction ps xs rule: unpack_calls.induct) auto

text \<open>Recorded contents are never changed, so the log of layers needs no bound on numbers.\<close>

lemma exact_unpack [simp]: "exact_json (json_of_unpack a)"
  by (simp add: json_of_unpack_def list_all_iff)

lemma unpack_log_exact:
  "log_of_call c = UnpackArgsFileName \<Longrightarrow> exact_json (json_of_call c)"
  by (cases c) (simp_all add: log_names)

text \<open>Calls that are saved one after the other, and the logs after them.\<close>

primrec saves :: "foot_env \<Rightarrow> foot \<Rightarrow> foot_call list \<Rightarrow> foot_world \<Rightarrow> foot_world \<Rightarrow> bool" where
  "saves X t [] fw fw' \<longleftrightarrow> fw' = fw"
| "saves X t (c # cs) fw fw' \<longleftrightarrow>
     (\<exists>fw1. save_object X (json_of_call c) (path_to t (log_of_call c)) fw = (Val (), fw1) \<and> saves X t cs fw1 fw')"

lemma saves_logged:
  assumes "saves X t cs fw fw'" "\<forall>n. ft_fault X OpStat n = None" "\<forall>c \<in> set cs. log_of_call c = name"
    and "logged_calls (path_to t name) fw = map recorded earlier" "list_all (exact_json \<circ> json_of_call) (earlier @ cs)"
  shows "logged_calls (path_to t name) fw' = map recorded (earlier @ cs)"
  using assms
proof (induction cs arbitrary: fw earlier)
  case (Cons c cs)
  obtain fw1 where save: "save_object X (json_of_call c) (path_to t name) fw = (Val (), fw1)" and rest: "saves X t cs fw1 fw'"
    using Cons.prems(1,3) by auto
  have "map (\<lambda>j. marshalled (reloaded j)) (logged_calls (path_to t name) fw) = map recorded earlier"
    using Cons.prems(4,5) by (auto simp: recorded_def list_all_iff marshalled_exact)
  then have "logged_calls (path_to t name) fw1 = map recorded (earlier @ [c])"
    using save_object_Val(1) [OF save Cons.prems(2)] by (simp add: logged_calls_def recorded_def comp_def)
  from Cons.IH [OF rest Cons.prems(2) _ this] Cons.prems(3,5) show ?case by (simp add: comp_def)
qed simp

lemma saves_logs:
  assumes "saves X t cs' fw fw'" "\<forall>n. ft_fault X OpStat n = None" "logs t cs fw"
    and "list_all (exact_json \<circ> json_of_call) (cs @ cs')"
  shows "logs t (cs @ cs') fw'"
  using assms
proof (induction cs' arbitrary: cs fw)
  case (Cons c cs')
  obtain fw1 where save: "save_object X (json_of_call c) (path_to t (log_of_call c)) fw = (Val (), fw1)"
    and rest: "saves X t cs' fw1 fw'"
    using Cons.prems(1) by auto
  have "logs t (cs @ [c]) fw1"
    using save_logs_Val [OF save Cons.prems(2,3)] Cons.prems(4) by (simp add: list_all_iff)
  from Cons.IH [OF rest Cons.prems(2) this] Cons.prems(4) show ?case by simp
qed simp

lemma foot_build_layers:
  assumes "build_layers_from (registry_fetcher E) (foot_unpack X t) below tot lis ((s, w), fw) =
      (Val (Inr m), ((s', w'), fw'))"
    and "registry_idle E w0 (s, w)" "reads_files E"
  shows "\<exists>contents. length contents = length lis \<and>
    (\<not> skipOCILayerValidation s \<longrightarrow> map (\<lambda>c. hex_encode (sha256 c)) contents = map DiffID lis) \<and>
    (\<not> skipImageQuotaValidation s \<longrightarrow> 0 \<le> sint (remainingImageQuota s) \<longrightarrow>
       int (sum_list (map length contents)) \<le> sint (remainingImageQuota s)) \<and>
    m = tot + of_nat (sum_list (map length contents)) \<and>
    saves X t (unpack_calls (chain_ids below) (zip (chain_ids lis) contents)) fw fw'"
  using assms
proof (induction lis arbitrary: below tot s w fw)
  case (Cons li lis)
  let ?F = "registry_fetcher E"
  obtain n s1 w1 fw1 where b: "build_layer ?F (foot_unpack X t) li (chain_ids below) ((s, w), fw) =
      (Val (Inr n), ((s1, w1), fw1))"
    and rest: "build_layers_from ?F (foot_unpack X t) (below @ [li]) (tot + n) lis ((s1, w1), fw1) =
      (Val (Inr m), ((s', w'), fw'))"
    using Cons.prems(1) by (auto simp: attempt_eq_Inr)
  obtain content where idle: "registry_idle E w0 (s1, w1)" and same: "same_settings s s1"
    and hash: "\<not> skipOCILayerValidation s \<longrightarrow> hex_encode (sha256 content) = DiffID li"
    and left: "remainingImageQuota s1 = remainingImageQuota s - of_nat (length content)"
    and quota: "\<not> skipImageQuotaValidation s \<longrightarrow> 0 \<le> sint (remainingImageQuota s) \<longrightarrow>
      int (length content) \<le> sint (remainingImageQuota s)"
    and n: "n = of_nat (length content)"
    and save: "save_object X (json_of_unpack \<lparr>ua_ID = ChainID li, ua_ParentIDs = chain_ids below,
      ua_LayerTarContents = content\<rparr>) (path_to t UnpackArgsFileName) fw = (Val (), fw1)"
    by (rule foot_build_layer [OF b Cons.prems(2,3)])
  from Cons.IH [OF rest idle Cons.prems(3)] obtain contents where cs:
    "length contents = length lis"
    "\<not> skipOCILayerValidation s1 \<longrightarrow> map (\<lambda>c. hex_encode (sha256 c)) contents = map DiffID lis"
    "\<not> skipImageQuotaValidation s1 \<longrightarrow> 0 \<le> sint (remainingImageQuota s1) \<longrightarrow>
       int (sum_list (map length contents)) \<le> sint (remainingImageQuota s1)"
    "m = tot + n + of_nat (sum_list (map length contents))"
    "saves X t (unpack_calls (chain_ids (below @ [li])) (zip (chain_ids lis) contents)) fw1 fw'"
    by auto
  have "int (length content + sum_list (map length contents)) \<le> sint (remainingImageQuota s)"
    if enforced: "\<not> skipImageQuotaValidation s" "0 \<le> sint (remainingImageQuota s)"
  proof -
    have len: "int (length content) \<le> sint (remainingImageQuota s)" using quota enforced by blast
    then have "sint (remainingImageQuota s1) = sint (remainingImageQuota s) - int (length content)"
      using left by (simp add: sint_quota_left)
    with cs(3) same enforced len show ?thesis by (simp add: same_settings_iff)
  qed
  with cs hash same n save show ?case
    by (intro exI [of _ "content # contents"]) (simp add: same_settings_iff chain_ids_def)
qed (simp add: chain_ids_def)

section \<open>Pulling an image\<close>

lemma registry_pull_verified:
  assumes "pull (registry_fetcher E) (foot_unpack X t) spec ((s, w), fw) = (Val (Inr img), ((s', w'), fw'))"
    and "wf_world w" "imageSource s = None" "\<not> skipOCILayerValidation s"
    and "removes_files E" "opens_files E" "reads_files E"
  shows "\<exists>info contents. fst (ImageInfo (registry_fetcher E) (s, w)) = Val (Inr info) \<and>
    pi_Config img = ii_Config info \<and> ChainIDs img = map ChainID (LayerInfos info) \<and>
    map (\<lambda>c. hex_encode (sha256 c)) contents = map DiffID (LayerInfos info) \<and>
    saves X t (unpack_calls [] (zip (ChainIDs img) contents)) fw fw' \<and>
    pi_Size img = of_nat (sum_list (map length contents)) \<and>
    (\<not> skipImageQuotaValidation s \<and> 0 \<le> sint (remainingImageQuota s) \<longrightarrow>
       int (sum_list (map length contents)) \<le> sint (remainingImageQuota s))"
proof -
  let ?F = "registry_fetcher E"
  obtain info sw1 where info: "ImageInfo ?F (s, w) = (Val (Inr info), sw1)"
    and b: "build_layers_from ?F (foot_unpack X t) [] 0 (LayerInfos info) (sw1, fw) =
      (Val (Inr (pi_Size img)), ((s', w'), fw'))"
    and ids: "ChainIDs img = chain_ids (LayerInfos info)" "pi_Config img = ii_Config info"
    by (rule pull_Inr [OF assms(1), unfolded build_layers_def])
  obtain s1 w1 where sw1: "sw1 = (s1, w1)" by fastforce
  have "registry_idle E w (s, w)"
    using assms(2,3,5,6) by (intro layer_idle_fresh)
  then have idle: "registry_idle E w (s1, w1)"
    by (rule registry.fetch.image_info_idle) (use info sw1 in simp)
  obtain x s2 w2 where m: "src_Manifest (layer_source_methods E) (s, w) = (Val x, (s2, w2))"
    using info by (auto simp: lf_image_info_def call_returns)
  have "s1 = s2" using lf_image_info_after [OF m, of E "Inr info" s1 w1] info sw1 by simp
  moreover have step: "source_step (s, w) (s2, w2)" using m by (simp add: Manifest_step)
  ultimately have s1: "same_settings s s1" "remainingImageQuota s1 = remainingImageQuota s"
    using source_step_settings [OF step] source_step_blob_frame [OF step] by simp_all
  obtain contents where cs: "length contents = length (LayerInfos info)"
    "\<not> skipOCILayerValidation s1 \<longrightarrow> map (\<lambda>c. hex_encode (sha256 c)) contents = map DiffID (LayerInfos info)"
    "\<not> skipImageQuotaValidation s1 \<longrightarrow> 0 \<le> sint (remainingImageQuota s1) \<longrightarrow>
       int (sum_list (map length contents)) \<le> sint (remainingImageQuota s1)"
    "pi_Size img = of_nat (sum_list (map length contents))"
    "saves X t (unpack_calls [] (zip (chain_ids (LayerInfos info)) contents)) fw fw'"
    using foot_build_layers [OF b [unfolded sw1] idle assms(7)] by (auto simp: chain_ids_def)
  with cs info ids assms(4) s1 show ?thesis
    by (intro exI [of _ info] exI [of _ contents]) (simp add: same_settings_iff chain_ids_def)
qed

text \<open>
  After a pull from a registry that succeeds, the log of the test driver holds one call for
  each layer, the lowest first, with the layers below it as parents, and with contents whose
  SHA-256 digest is the layer's diff ID in the image's configuration; the size of the image is
  that of these contents, and together they are within the disk limit where it counts the image.
\<close>

lemma foot_records_verified_layers:
  assumes "pull (registry_fetcher E) (foot_unpack X t) spec ((s, w), fw) = (Val (Inr img), ((s', w'), fw'))"
    and "wf_world w" "imageSource s = None" "\<not> skipOCILayerValidation s"
    and "removes_files E" "opens_files E" "reads_files E" "\<forall>n. ft_fault X OpStat n = None"
    and "ft_files fw (path_to t UnpackArgsFileName) = None"
  shows "\<exists>info contents. fst (ImageInfo (registry_fetcher E) (s, w)) = Val (Inr info) \<and>
    ChainIDs img = map ChainID (LayerInfos info) \<and>
    map (\<lambda>c. hex_encode (sha256 c)) contents = map DiffID (LayerInfos info) \<and>
    logged_calls (path_to t UnpackArgsFileName) fw' =
      map recorded (unpack_calls [] (zip (ChainIDs img) contents)) \<and>
    pi_Size img = of_nat (sum_list (map length contents)) \<and>
    (\<not> skipImageQuotaValidation s \<and> 0 \<le> sint (remainingImageQuota s) \<longrightarrow>
       int (sum_list (map length contents)) \<le> sint (remainingImageQuota s))"
proof -
  obtain info contents where r: "fst (ImageInfo (registry_fetcher E) (s, w)) = Val (Inr info)"
    "ChainIDs img = map ChainID (LayerInfos info)" "map (\<lambda>c. hex_encode (sha256 c)) contents = map DiffID (LayerInfos info)"
    "saves X t (unpack_calls [] (zip (ChainIDs img) contents)) fw fw'" "pi_Size img = of_nat (sum_list (map length contents))"
    "\<not> skipImageQuotaValidation s \<and> 0 \<le> sint (remainingImageQuota s) \<longrightarrow>
       int (sum_list (map length contents)) \<le> sint (remainingImageQuota s)"
    using registry_pull_verified [OF assms(1-7)] by blast
  have "logged_calls (path_to t UnpackArgsFileName) fw = map recorded []" using assms(9) by (simp add: logged_calls_def)
  from saves_logged [OF r(4) assms(8) _ this] have
    "logged_calls (path_to t UnpackArgsFileName) fw' =
      map recorded (unpack_calls [] (zip (ChainIDs img) contents))"
    using unpack_calls_log unpack_log_exact by (fastforce simp: list_all_iff)
  with r show ?thesis by blast
qed

section \<open>Unpacking succeeds\<close>

text \<open>
  Where a fetcher opens a stream whose bytes can all be read, the on-demand reader gives these
  bytes, and the driver records them.
\<close>

lemma io_read_all_first:
  assumes "io_read_all grow rd s' = (Val v, t)" "rd 512 s = rd 512 s'"
  shows "io_read_all grow rd s = (Val v, t)"
proof -
  have "read_all_round grow rd \<lparr>ra_cap = 512, ra_buf = [], ra_src = s\<rparr> =
      read_all_round grow rd \<lparr>ra_cap = 512, ra_buf = [], ra_src = s'\<rparr>"
    using assms(2)
    by (auto simp: read_all_round_def Let_def split: prod.splits outcome.splits option.splits)
  with assms(1) show ?thesis by (simp add: io_read_all_def loop.simps split: option.splits)
qed

lemma ondemand_reads_all:
  assumes "StreamBlob F li w = (Val (Inr (h, sz)), w1)"
    and "io_read_all grow (ReadStream F h) w1 = (Val (content, None), w2)"
  shows "io_read_all grow (ondemand_read (open_layer F li) (ReadStream F)) (None, w) = (Val (content, None), (Some h, w2))"
proof -
  let ?rd = "ondemand_read (open_layer F li) (ReadStream F)"
  from io_read_all_simulation [OF assms(2), of ?rd "\<lambda>w. (Some h, w)"]
  have "io_read_all grow ?rd (Some h, w1) = (Val (content, None), (Some h, w2))"
    by (simp add: ondemand_read_open split: prod.splits)
  then show ?thesis
    by (rule io_read_all_first) (use assms(1) in \<open>simp add: ondemand_read_def open_layer_def\<close>)
qed

lemma foot_build_layer_succeeds:
  assumes "StreamBlob F li w = (Val (Inr (h, sz)), w1)"
    and "io_read_all (ft_grow X) (ReadStream F h) w1 = (Val (content, None), w2)"
    and "no_faults X" "''FOOT_UNPACK_ERROR'' \<notin> set (ft_vars fw)" "decodable (path_to t UnpackArgsFileName) fw"
  shows "\<exists>least fw'. (\<forall>fuel \<ge> least.
      build_layer F (foot_unpack (X\<lparr>ft_fuel := fuel\<rparr>) t) li ps (w, fw) =
        (Val (Inr (of_nat (length content))), (snd (CloseStream F h w2), fw'))) \<and>
    save_object X (json_of_unpack \<lparr>ua_ID = ChainID li, ua_ParentIDs = ps, ua_LayerTarContents = content\<rparr>)
      (path_to t UnpackArgsFileName) fw = (Val (), fw')"
proof -
  let ?rd = "ondemand_read (open_layer F li) (ReadStream F)" and ?k = "foot_unpacked X t (ChainID li) ps fw"
  note all = ondemand_reads_all [OF assms(1,2)]
  obtain least where least: "\<forall>fuel \<ge> least.
      run_client ?rd (foot_unpack (X\<lparr>ft_fuel := fuel\<rparr>) t (ChainID li) ps fw) (None, w) =
      run_client ?rd (?k (content, None)) (Some h, w2)"
    using foot_unpack_reads [OF all assms(4)] by blast
  obtain fw' where save: "save_object X (json_of_unpack \<lparr>ua_ID = ChainID li, ua_ParentIDs = ps, ua_LayerTarContents = content\<rparr>)
      (path_to t UnpackArgsFileName) fw = (Val (), fw')"
    using save_object_returns [OF assms(3,5)] by blast
  then have k: "run_client ?rd (?k (content, None)) (Some h, w2) =
      (Val (Val (Inr (of_nat (length content))), fw'), (Some h, w2))"
    by (simp add: foot_unpacked_def)
  have close: "snd (snd (ondemand_close (CloseStream F) (Some h, w2))) = snd (CloseStream F h w2)"
    by (cases "CloseStream F h w2") (simp add: ondemand_close_def)
  have "build_layer F (foot_unpack (X\<lparr>ft_fuel := fuel\<rparr>) t) li ps (w, fw) =
      (Val (Inr (of_nat (length content))), (snd (CloseStream F h w2), fw'))"
    if "least \<le> fuel" for fuel
    using that least k close by (simp add: build_layer_def)
  with save show ?thesis by blast
qed

text \<open>The stream of a layer from a registry can be read to its end.\<close>

lemma registry_stream_reads_all:
  assumes "StreamBlob (registry_fetcher E) li (s, w) = (Val (Inr (h, sz)), (s1, w1))" "wf_world w" "reads_files E"
    and "\<forall>k \<le> length (unread (br_reader h) w1). k + 1 + grow k < 2 ^ 63"
  shows "\<exists>w2. io_read_all grow (ReadStream (registry_fetcher E) h) (s1, w1) = (Val (unread (br_reader h) w1, None), (s1, w2))"
proof -
  obtain w2 where "io_read_all grow (os_read E (br_reader h)) w1 = (Val (unread (br_reader h) w1, None), w2)"
    using os_file.read_all_ok [of E "br_reader h" w1 grow] stream_blob_content(5) [OF assms(1,2)] assms(3,4)
    by (auto simp: eof_to_nil_def)
  from io_read_all_simulation [OF this, of "ReadStream (registry_fetcher E) h" "\<lambda>w. (s1, w)"]
  show ?thesis by (auto simp: blob_reader_read_def split: prod.splits)
qed

lemma registry_build_layer_succeeds:
  assumes "StreamBlob (registry_fetcher E) li (s, w) = (Val (Inr (h, sz)), (s1, w1))" "wf_world w" "reads_files E"
    and "no_faults X" "''FOOT_UNPACK_ERROR'' \<notin> set (ft_vars fw)" "decodable (path_to t UnpackArgsFileName) fw"
    and "\<forall>k \<le> length (unread (br_reader h) w1). k + 1 + ft_grow X k < 2 ^ 63"
  shows "\<exists>least w' fw'. (\<forall>fuel \<ge> least.
      build_layer (registry_fetcher E) (foot_unpack (X\<lparr>ft_fuel := fuel\<rparr>) t) li ps ((s, w), fw) =
        (Val (Inr (of_nat (length (unread (br_reader h) w1)))), ((s1, w'), fw'))) \<and>
    save_object X (json_of_unpack \<lparr>ua_ID = ChainID li, ua_ParentIDs = ps, ua_LayerTarContents = unread (br_reader h) w1\<rparr>)
      (path_to t UnpackArgsFileName) fw = (Val (), fw')"
proof -
  obtain w2 where "io_read_all (ft_grow X) (ReadStream (registry_fetcher E) h) (s1, w1) =
      (Val (unread (br_reader h) w1, None), (s1, w2))"
    using registry_stream_reads_all [OF assms(1-3,7)] by blast
  from foot_build_layer_succeeds [OF assms(1) this assms(4-6), of ps] show ?thesis
    by (cases "blob_reader_close E h w2") auto
qed

end
