(* ===== verification/Published_Images.thy ===== *)
theory Published_Images
  imports Pulling
begin

text \<open>
  Registries that publish an image: they offer a manifest, of either schema, a configuration and
  blobs that fit together, and are out only briefly, so that three attempts are enough.
\<close>

section \<open>Outages\<close>

text \<open>
  A registry that is out only briefly: of any four calls in a row it misses at most two.  Four,
  because the three attempts at an image make up to four calls (its source is opened only once).
\<close>

definition brief :: "(nat \<Rightarrow> bool) \<Rightarrow> bool" where
  "brief out \<longleftrightarrow> (\<forall>t. length (filter out [t, t + 1, t + 2, t + 3]) \<le> 2)"

text \<open>A call that is answered with \<open>v\<close>, except during an outage.\<close>

definition answers :: "(nat \<Rightarrow> bool) \<Rightarrow> (nat \<Rightarrow> 'a res) \<Rightarrow> 'a \<Rightarrow> bool" where
  "answers out f v \<longleftrightarrow> (\<forall>t. f t = Inr v \<or> out t \<and> (\<exists>e. f t = Inl e))"

lemma answers_cases:
  assumes "answers out f v"
  obtains "f t = Inr v" | e where "out t" "f t = Inl e"
  using assms by (auto simp: answers_def)

lemma brief_three:
  assumes "brief out"
  shows "\<not> (out t \<and> out (Suc t) \<and> out (Suc (Suc t)))"
proof -
  from assms have "length (filter out [t, t + 1, t + 2, t + 3]) \<le> 2" unfolding brief_def ..
  then show ?thesis by (auto split: if_splits)
qed

lemma brief_four:
  assumes "brief out"
  shows "\<not> (out (Suc t) \<and> out (Suc (Suc t)) \<and> out (Suc (Suc (Suc t))))"
    "\<not> (out t \<and> out (Suc (Suc t)) \<and> out (Suc (Suc (Suc t))))"
    "\<not> (out t \<and> out (Suc t) \<and> out (Suc (Suc (Suc t))))"
proof -
  from assms have "length (filter out [t, t + 1, t + 2, t + 3]) \<le> 2" unfolding brief_def ..
  then show "\<not> (out (Suc t) \<and> out (Suc (Suc t)) \<and> out (Suc (Suc (Suc t))))"
    "\<not> (out t \<and> out (Suc (Suc t)) \<and> out (Suc (Suc (Suc t))))"
    "\<not> (out t \<and> out (Suc t) \<and> out (Suc (Suc (Suc t))))"
    by (auto simp: eval_nat_numeral split: if_splits)
qed

lemma blob_answered:
  assumes "answers out (\<lambda>t. get_blob E t src info) b" "brief out"
  shows "first_success (blob_answers E src info t) = Inr b"
  using assms(1) [unfolded answers_def, rule_format, of t] assms(1) [unfolded answers_def, rule_format, of "Suc t"]
    assms(1) [unfolded answers_def, rule_format, of "Suc (Suc t)"] brief_three [OF assms(2), of t]
  by (auto simp: blob_answers_3)

section \<open>The manifest\<close>

text \<open>What a blob decompresses to when it is read on its own.\<close>

definition inflates :: "'z env \<Rightarrow> blob_stream \<Rightarrow> bytes \<Rightarrow> bool" where
  "inflates E blob content \<longleftrightarrow>
     (\<exists>z blob' s. gzip_new_reader E stream_read blob = (Val (Inr z), blob') \<and>
        io_read_all (read_all_grow E) (gzip_read E stream_read) (blob', z) = (Val (content, None), s))"

text \<open>A blob of a schema 1 manifest, whose content gives the diff ID.\<close>

definition offers_v1_blob :: "'z env \<Rightarrow> (nat \<Rightarrow> bool) \<Rightarrow> string \<Rightarrow> blob_info \<Rightarrow> bytes \<Rightarrow> bool" where
  "offers_v1_blob E out ref info content \<longleftrightarrow>
     (\<exists>blob n. answers out (\<lambda>t. get_blob E t ref info) (blob, n) \<and> inflates E blob content)"

text \<open>
  The registry has the manifest \<open>raw\<close>, which converts to \<open>img\<close> if its schema is 1 (with the digests
  of the contents as its diff IDs) and is \<open>img\<close> otherwise, and the configuration of \<open>img\<close>.  Calls that
  the program retries may meet an outage.
\<close>

definition offers_manifest :: "'z env \<Rightarrow> (nat \<Rightarrow> bool) \<Rightarrow> string \<Rightarrow> image \<Rightarrow> image \<Rightarrow> bytes list \<Rightarrow> bool" where
  "offers_manifest E out ref raw img contents \<longleftrightarrow>
     (\<forall>t. \<exists>mimetype. image_manifest_type E t raw = Inr mimetype \<and>
        (if schema1 mimetype then
           list_all2 (offers_v1_blob E out ref) (im_LayerInfos raw) contents \<and>
           (\<forall>t. image_updated E t raw
              \<lparr>mu_MIMEType = DockerV2Schema2MediaType, mu_DiffIDs = map sha256_digest contents,
               mu_LayerInfos = im_LayerInfos raw\<rparr> = Inr img)
         else img = raw))"

definition offers :: "'z env \<Rightarrow> (nat \<Rightarrow> bool) \<Rightarrow> system_context \<Rightarrow> string \<Rightarrow> image \<Rightarrow> image_config \<Rightarrow> bytes list \<Rightarrow> bool" where
  "offers E out ctx ref img config contents \<longleftrightarrow>
     (\<forall>t. new_image_source E t ref ctx = None \<or> out t) \<and>
     (\<exists>raw. answers out (\<lambda>t. from_unparsed_image E t ref ctx) raw \<and>
        offers_manifest E out ref raw img contents) \<and>
     (\<forall>t. image_config_blob E t img = None \<or> out t) \<and> (\<forall>t. image_oci_config E t img = Inr config)"

text \<open>Attempts at the image once its source is open, and the attempt that opens it.\<close>

lemma image_fetched_open:
  assumes "answers out (\<lambda>t. from_unparsed_image E t ref (systemContext s)) img" "imageSource s = Some ref"
    and "\<exists>i < n. \<not> out (tick w + i)"
  shows "\<exists>w'. retry n (get_image_attempt E) err (s, w) = (Val (Inr img), (s, w'))"
  using assms(3)
proof (induction n arbitrary: err w)
  case (Suc n)
  have att: "get_image_attempt E (s, w) = (Val (from_unparsed_image E (tick w) ref (systemContext s)), (s, advance w))"
    using assms(2) by (simp add: get_image_attempt_def get_image_source_def)
  from assms(1) show ?case
  proof (rule answers_cases [of _ _ _ "tick w"])
    fix e assume e: "out (tick w)" "from_unparsed_image E (tick w) ref (systemContext s) = Inl e"
    with Suc.prems have "\<exists>i < n. \<not> out (tick (advance w) + i)"
      by (auto simp: advance_def less_Suc_eq_0_disj)
    from Suc.IH [OF this, of e] att e show ?thesis by simp
  qed (simp add: att)
qed simp

lemma image_fetched_opening:
  assumes "answers out (\<lambda>t. from_unparsed_image E t ref (systemContext s)) img" "imageSource s = None"
    and "reference E s = Val (Inr ref)" "new_image_source E (tick w) ref (systemContext s) = None"
    and "\<exists>i \<le> n. \<not> out (Suc (tick w) + i)"
  shows "\<exists>w'. retry (Suc n) (get_image_attempt E) err (s, w) = (Val (Inr img), (s\<lparr>imageSource := Some ref\<rparr>, w'))"
proof -
  let ?s = "s\<lparr>imageSource := Some ref\<rparr>" and ?w = "(advance w)\<lparr>open_sources := Suc (open_sources w)\<rparr>"
  have att: "get_image_attempt E (s, w) = get_image_attempt E (?s, ?w)"
    using assms(2-4) by (simp add: get_image_attempt_def get_image_source_def create_image_source_def on_world_def)
  have "answers out (\<lambda>t. from_unparsed_image E t ref (systemContext ?s)) img" "\<exists>i < Suc n. \<not> out (tick ?w + i)"
    using assms(1,5) by (auto simp: less_Suc_eq_le advance_def)
  from image_fetched_open [OF this(1) _ this(2)] show ?thesis by (simp add: att)
qed

text \<open>Three attempts at the image are enough: they fail at three calls out of four in a row.\<close>

lemma image_fetched:
  assumes "reference E s = Val (Inr ref)" "imageSource s = None" "brief out"
    and open_ok: "\<forall>t. new_image_source E t ref (systemContext s) = None \<or> out t"
    and image: "answers out (\<lambda>t. from_unparsed_image E t ref (systemContext s)) img"
  shows "\<exists>w'. get_image_with_retries E (s, w) = (Val (Inr img), (s\<lparr>imageSource := Some ref\<rparr>, w'))"
proof -
  note first_open = image_fetched_opening [OF image assms(2,1)]
  have skip: "retry (Suc n) (get_image_attempt E) err (s, v) = retry n (get_image_attempt E) (ErrWrap ''creating image source'' e) (s, advance v)"
    if "new_image_source E (tick v) ref (systemContext s) = Some e" for n err v e
    using that assms(1,2) by (simp add: get_image_attempt_def get_image_source_def create_image_source_def on_world_def)
  let ?t = "tick w" and ?retry = "\<lambda>n err v. retry n (get_image_attempt E) err (s, v)"
  let ?ok = "\<lambda>r. \<exists>w'. r = (Val (Inr img), (s\<lparr>imageSource := Some ref\<rparr>, w'))"
  have "?ok (?retry (Suc (Suc (Suc 0))) no_error w)"
  proof (cases "new_image_source E ?t ref (systemContext s)")
    case None
    have "\<exists>i \<le> 2. \<not> out (Suc ?t + i)"
      using brief_four(1) [OF assms(3), of ?t] by (auto intro: exI [of _ 0] exI [of _ 1] exI [of _ 2])
    with first_open None show ?thesis by (simp add: numeral_2_eq_2 del: retry.simps)
  next
    case (Some e)
    have out0: "out ?t" using Some open_ok [rule_format, of ?t] by auto
    show ?thesis
    proof (cases "new_image_source E (Suc ?t) ref (systemContext s)")
      case None
      have "\<exists>i \<le> 1. \<not> out (Suc (Suc ?t) + i)"
        using brief_four(2) [OF assms(3), of ?t] out0 by (auto intro: exI [of _ 0] exI [of _ 1])
      with first_open [of "advance w" 1] None skip [OF Some] show ?thesis by (simp add: advance_def del: retry.simps)
    next
      case (Some e')
      then have "out (Suc ?t)" using open_ok [rule_format, of "Suc ?t"] by auto
      with brief_three [OF assms(3), of ?t] brief_four(3) [OF assms(3), of ?t] out0 open_ok
      have "\<not> out (Suc (Suc (Suc ?t)))" "new_image_source E (Suc (Suc ?t)) ref (systemContext s) = None" by auto
      with first_open [of "advance (advance w)" 0] skip [OF \<open>new_image_source E ?t _ _ = Some e\<close>]
        skip [of "advance w" e'] Some show ?thesis by (simp add: advance_def del: retry.simps)
    qed
  qed
  then show ?thesis by (auto simp: get_image_with_retries_def MAX_DOCKER_RETRIES_Suc simp del: retry.simps)
qed

lemma config_fetched:
  assumes "brief out" "\<forall>t. image_config_blob E t img = None \<or> out t"
  shows "\<exists>w'. retry MAX_DOCKER_RETRIES (config_blob_attempt E img) no_error (s, w) = (Val (Inr img), (s, w'))"
  using brief_three [OF assms(1), of "tick w"] assms(2) [rule_format, of "tick w"]
    assms(2) [rule_format, of "Suc (tick w)"] assms(2) [rule_format, of "Suc (Suc (tick w))"]
  by (auto simp: MAX_DOCKER_RETRIES_Suc config_blob_attempt_def advance_def split: option.splits)

lemma v1_diff_id_offered:
  assumes "offers_v1_blob E out src layer content" "brief out"
  shows "\<exists>w'. v1_diff_id E layer src w = (Val (Inr (sha256_digest content)), w')"
proof -
  obtain blob n where gb: "answers out (\<lambda>t. get_blob E t src layer) (blob, n)" and inf: "inflates E blob content"
    using assms(1) by (auto simp: offers_v1_blob_def)
  have "v1_diff_id_of_blob E blob = Val (Inr (sha256_digest content))"
    using inf by (auto simp: inflates_def v1_diff_id_of_blob_def new_digest_from_hex_def new_digest_from_encoded_def
        sha256_digest_def)
  with blob_answered [OF gb assms(2)] show ?thesis
    by (simp add: v1_diff_id_def blob_retries)
qed

lemma v1_diff_ids_offered:
  assumes "list_all2 (offers_v1_blob E out src) layers contents" "brief out"
  shows "\<exists>w'. v1_diff_ids E src layers ids w = (Val (Inr (ids @ map sha256_digest contents)), w')"
  using assms(1)
proof (induction layers contents arbitrary: ids w rule: list_all2_induct)
  case (Cons layer layers content contents)
  obtain w1 where "v1_diff_id E layer src w = (Val (Inr (sha256_digest content)), w1)"
    using v1_diff_id_offered [OF Cons.hyps(1) assms(2)] by blast
  with Cons.IH [of "ids @ [sha256_digest content]" w1] show ?case by auto
qed simp

lemma image_converted:
  assumes "offers_manifest E out ref raw img contents" "brief out" "imageSource s = Some ref"
  shows "\<exists>w'. convert_image E raw (s, w) = (Val (Inr img), (s, w'))"
proof -
  obtain mimetype where m: "image_manifest_type E (tick w) raw = Inr mimetype"
    and conv: "if schema1 mimetype then
        list_all2 (offers_v1_blob E out ref) (im_LayerInfos raw) contents \<and>
        (\<forall>t. image_updated E t raw \<lparr>mu_MIMEType = DockerV2Schema2MediaType, mu_DiffIDs = map sha256_digest contents,
           mu_LayerInfos = im_LayerInfos raw\<rparr> = Inr img)
      else img = raw"
    using assms(1) unfolding offers_manifest_def by blast
  show ?thesis
  proof (cases "schema1 mimetype")
    case False
    with m conv show ?thesis by (simp add: convert_image_def schema1_def)
  next
    case True
    with conv obtain w1 where
      "v1_diff_ids E ref (im_LayerInfos raw) [] (advance w) = (Val (Inr (map sha256_digest contents)), w1)"
      using v1_diff_ids_offered [OF _ assms(2), of E ref _ contents "[]"] by fastforce
    with m conv True assms(3) show ?thesis
      by (auto simp: convert_image_def schema1_def get_image_source_def on_world_def)
  qed
qed

lemma offered_manifest:
  assumes "reference E s = Val (Inr ref)" "offers E out (systemContext s) ref img config contents" "brief out"
    and "imageSource s = None" "create_layer_infos img config = Val lis"
  shows "\<exists>w'. lf_image_info E (layer_source_methods E) (s, w) =
      (Val (Inr \<lparr>LayerInfos = lis, ii_Config = config\<rparr>), (s\<lparr>imageSource := Some ref\<rparr>, w'))"
proof -
  let ?s = "s\<lparr>imageSource := Some ref\<rparr>"
  obtain raw where open_ok: "\<forall>t. new_image_source E t ref (systemContext s) = None \<or> out t"
    and image: "answers out (\<lambda>t. from_unparsed_image E t ref (systemContext s)) raw"
    and conv: "offers_manifest E out ref raw img contents"
    and conf: "\<forall>t. image_config_blob E t img = None \<or> out t" "\<forall>t. image_oci_config E t img = Inr config"
    using assms(2) by (auto simp: offers_def)
  obtain w1 where w1: "get_image_with_retries E (s, w) = (Val (Inr raw), (?s, w1))"
    using image_fetched [OF assms(1,4,3) open_ok image] by blast
  obtain w2 where w2: "convert_image E raw (?s, w1) = (Val (Inr img), (?s, w2))"
    using image_converted [OF conv assms(3), of ?s] by auto
  obtain w3 where w3: "retry MAX_DOCKER_RETRIES (config_blob_attempt E img) no_error (?s, w2) = (Val (Inr img), (?s, w3))"
    using config_fetched [OF assms(3) conf(1)] by blast
  from w1 w2 w3 assms(5) conf(2) show ?thesis
    by (simp add: lf_image_info_def Manifest_def)
qed

section \<open>The blobs\<close>

text \<open>
  A blob that the registry has for an entry of the manifest, and its content: the digest of the
  entry is that of the blob, and the size is right, or unknown; requests may meet an outage.
\<close>

definition offers_blob :: "'z env \<Rightarrow> (nat \<Rightarrow> bool) \<Rightarrow> string \<Rightarrow> blob_info \<Rightarrow> blob_stream \<times> bytes \<Rightarrow> bool" where
  "offers_blob E out ref info bc \<longleftrightarrow>
     (case bc of (blob, content) \<Rightarrow>
        bi_Digest info = sha256_digest (concat (bl_chunks blob)) \<and>
        (\<exists>n. (bi_Size info = n \<or> bi_Size info = - 1) \<and>
           answers out (\<lambda>t. get_blob E t ref \<lparr>bi_Digest = sha256_digest (concat (bl_chunks blob)), bi_Size = 0,
              bi_URLs = bi_URLs info, bi_MediaType = ''''\<rparr>) (blob, n)) \<and>
        (\<forall>li. MediaType li = bi_MediaType info \<longrightarrow> layer_yields E li blob content ErrEOF))"

definition publishes :: "'z env \<Rightarrow> (nat \<Rightarrow> bool) \<Rightarrow> string \<Rightarrow> image \<Rightarrow> image_config \<Rightarrow> (blob_stream \<times> bytes) list \<Rightarrow> bool" where
  "publishes E out ref img config blobs \<longleftrightarrow>
     list_all2 (offers_blob E out ref) (im_LayerInfos img) blobs \<and>
     ic_DiffIDs config = map (\<lambda>bc. sha256_digest (snd bc)) blobs"

section \<open>The layers of the image\<close>

text \<open>The chain IDs of a stack of contents.\<close>

definition stack_ids :: "bytes list \<Rightarrow> string list" where
  "stack_ids contents =
     map (\<lambda>k. stack_id (map (\<lambda>c. hex_encode (sha256 c)) (take (Suc k) contents))) [0..<length contents]"

text \<open>A layer info of a published blob.\<close>

definition layer_offered :: "'z env \<Rightarrow> (nat \<Rightarrow> bool) \<Rightarrow> string \<Rightarrow> layer_info \<Rightarrow> blob_stream \<times> bytes \<Rightarrow> bool" where
  "layer_offered E out ref li bc \<longleftrightarrow>
     (case bc of (blob, content) \<Rightarrow>
        BlobID li = sha256_digest (concat (bl_chunks blob)) \<and> DiffID li = hex_encode (sha256 content) \<and>
        (\<exists>n. (Size li = n \<or> Size li = - 1) \<and> answers out (\<lambda>t. get_blob E t ref (blob_request li)) (blob, n)) \<and>
        layer_yields E li blob content ErrEOF)"

lemma chain_ids_Nil: "chain_ids [] = []"
  by (simp add: chain_ids_def)

lemma published_layers:
  assumes "publishes E out ref img config blobs"
  shows "\<exists>lis. create_layer_infos img config = Val lis \<and> list_all2 (layer_offered E out ref) lis blobs \<and>
    chain_ids lis = stack_ids (map snd blobs) \<and> map Size lis = map bi_Size (im_LayerInfos img)"
proof -
  have blobs: "list_all2 (offers_blob E out ref) (im_LayerInfos img) blobs"
    and diffs: "ic_DiffIDs config = map (\<lambda>bc. sha256_digest (snd bc)) blobs"
    using assms by (simp_all add: publishes_def)
  have len: "length (im_LayerInfos img) = length blobs" using blobs by (rule list_all2_lengthD)
  have colons: "\<forall>k < length (im_LayerInfos img). CHR '':'' \<in> set (ic_DiffIDs config ! (0 + k))"
    using len by (simp add: diffs)
  obtain lis where lis: "create_layer_infos img config = Val lis"
    using create_layer_infos_from_returns [OF _ colons] len by (auto simp: diffs create_layer_infos_def)
  note spec = layer_infos_spec [OF lis]
  have hexes: "map hex_part (ic_DiffIDs config) = map (\<lambda>c. hex_encode (sha256 c)) (map snd blobs)"
    by (auto simp: diffs)
  have "layer_offered E out ref (lis ! k) (blobs ! k)" if "k < length blobs" for k
  proof -
    obtain blob content where bc: "blobs ! k = (blob, content)" by fastforce
    have "offers_blob E out ref (im_LayerInfos img ! k) (blobs ! k)"
      using blobs that len by (simp add: list_all2_conv_all_nth)
    moreover have "DiffID (lis ! k) = hex_encode (sha256 content)" "BlobID (lis ! k) = bi_Digest (im_LayerInfos img ! k)"
      "Size (lis ! k) = bi_Size (im_LayerInfos img ! k)" "URLs (lis ! k) = bi_URLs (im_LayerInfos img ! k)"
      "MediaType (lis ! k) = bi_MediaType (im_LayerInfos img ! k)"
      using spec that len bc by (auto simp: layer_info_of_def diffs)
    ultimately show ?thesis by (simp add: bc layer_offered_def offers_blob_def blob_request_def)
  qed
  then have "list_all2 (layer_offered E out ref) lis blobs"
    using spec len by (simp add: list_all2_conv_all_nth)
  moreover have "chain_ids lis = stack_ids (map snd blobs)"
    using layer_chain_ids [OF lis] spec len by (simp add: chain_ids_def stack_ids_def hexes take_map)
  moreover have "map Size lis = map bi_Size (im_LayerInfos img)"
    using spec by (auto simp: layer_info_of_def intro!: nth_equalityI)
  ultimately show ?thesis using lis by blast
qed

end
