(* ===== verification/Complete_Pulls.thy ===== *)
theory Complete_Pulls
  imports Foot_Pulls Published_Images
begin

text \<open>
  Valid images are pulled: where the files and the driver do not fail, and the registry, which
  publishes the image, is out only briefly, pulling it with the driver of the integration tests
  succeeds, for images of any number of layers, compressed or not, of either schema, and the
  driver gets exactly what was published.
\<close>

section \<open>Building the layers\<close>

text \<open>The files of the system work, and the names of temporary files are not taken.\<close>

definition calm_files :: "'z env \<Rightarrow> world \<Rightarrow> bool" where
  "calm_files E w \<longleftrightarrow> (\<forall>op t. os_fault E op t = None) \<and> (\<forall>t pattern. fs w (temp_name E t pattern) = None)"

lemma calm_files_simps:
  "calm_files E w \<Longrightarrow> removes_files E" "calm_files E w \<Longrightarrow> opens_files E" "calm_files E w \<Longrightarrow> reads_files E"
  by (simp_all add: calm_files_def removes_files_def opens_files_def reads_files_def)

lemma sha256_digest_chars: "CHR ''/'' \<notin> set (sha256_digest bs)"
  using hex64_chars [OF hex64_hash [of bs]] by (simp add: sha256_digest_def)

lemma offered_layer_streams:
  assumes "layer_offered E out ref li (blob, content)" "imageSource s = Some ref" "calm_files E w" "wf_world w"
    and "within_quota s content" "brief out"
  shows "\<exists>h n w'. StreamBlob (registry_fetcher E) li (s, w) =
      (Val (Inr (h, n)), (s\<lparr>remainingImageQuota := remainingImageQuota s - of_nat (length content)\<rparr>, w')) \<and>
    unread (br_reader h) w' = content"
proof -
  let ?s = "s\<lparr>remainingImageQuota := remainingImageQuota s - of_nat (length content)\<rparr>"
  obtain n where n: "Size li = n \<or> Size li = - 1" "answers out (\<lambda>t. get_blob E t ref (blob_request li)) (blob, n)"
    using assms(1) by (auto simp: layer_offered_def)
  have li: "BlobID li = sha256_digest (concat (bl_chunks blob))" "DiffID li = hex_encode (sha256 content)"
    "layer_yields E li blob content ErrEOF"
    using assms(1) by (simp_all add: layer_offered_def)
  have "first_success (blob_replies E s li w) = Inr (blob, n)"
    using blob_answered [OF n(2) assms(6)] assms(2) by (simp add: blob_replies_def)
  then have "served E s li w blob n"
    using n li assms(2,3) sha256_digest_chars
    by (auto simp: served_def validate_layer_size_def is_v1_image_def calm_files_def temp_path_def)
  moreover have "digests_match li (concat (bl_chunks blob)) content"
    using li hex64_chars [OF hex64_hash [of "concat (bl_chunks blob)"]]
    by (simp add: digests_match_def sha256_digest_def split_on_no_sep)
  ultimately obtain w1 where b: "Blob E li (s, w) = (Val (Inr (temp_path E s li w, n)), (?s, w1))"
    and content: "file_bytes (temp_path E s li w) w1 = content"
    using Blob_accepts li(3) assms(5) by blast
  from Blob_spec [OF b assms(4)] obtain f where f: "fs w1 (temp_path E s li w) = Some f"
    by (auto simp: blob_delivered_def)
  obtain h w2 where h: "new_blob_reader E (temp_path E s li w) w1 = (Inr h, w2)"
    using new_blob_reader_opens [OF calm_files_simps(2) [OF assms(3)] f] by blast
  from new_blob_reader_unread(2) [OF this f] content f have "unread (br_reader h) w2 = content"
    by (simp add: file_bytes_def)
  with b h show ?thesis by (simp add: lf_stream_blob_def)
qed

lemma calm_files_quiet: "calm_files E w \<Longrightarrow> quiet w w' \<Longrightarrow> calm_files E w'"
  by (simp add: calm_files_def quiet_def)

lemma build_offered_layer:
  assumes "layer_offered E out ref li (blob, content)" "imageSource s = Some ref" "within_quota s content"
    and "registry_idle E w0 (s, w)" "calm_files E w0" "no_faults X" "logs t cs fw"
    and "\<forall>k \<le> length content. k + 1 + ft_grow X k < 2 ^ 63" "brief out"
  shows "\<exists>least w' fw'. (\<forall>fuel \<ge> least.
      build_layer (registry_fetcher E) (foot_unpack (X\<lparr>ft_fuel := fuel\<rparr>) t) li ps ((s, w), fw) =
        (Val (Inr (of_nat (length content))),
         ((s\<lparr>remainingImageQuota := remainingImageQuota s - of_nat (length content)\<rparr>, w'), fw'))) \<and>
    registry_idle E w0 (s\<lparr>remainingImageQuota := remainingImageQuota s - of_nat (length content)\<rparr>, w') \<and>
    logs t (cs @ [UnpackCall \<lparr>ua_ID = ChainID li, ua_ParentIDs = ps, ua_LayerTarContents = content\<rparr>]) fw'"
proof -
  let ?s = "s\<lparr>remainingImageQuota := remainingImageQuota s - of_nat (length content)\<rparr>"
  have w: "quiet w0 w" "wf_world w" using assms(4) by (auto simp: layer_idle_def intro: quiet_wf)
  note calm = calm_files_quiet [OF assms(5) w(1)]
  obtain h n w1 where st: "StreamBlob (registry_fetcher E) li (s, w) = (Val (Inr (h, n)), (?s, w1))"
    and content: "unread (br_reader h) w1 = content"
    using offered_layer_streams [OF assms(1,2) calm w(2) assms(3,9)] by blast
  let ?call = "UnpackCall \<lparr>ua_ID = ChainID li, ua_ParentIDs = ps, ua_LayerTarContents = content\<rparr>"
  have ready: "''FOOT_UNPACK_ERROR'' \<notin> set (ft_vars fw)" "decodable (path_to t UnpackArgsFileName) fw"
    using assms(7) by (simp_all add: logs_def) (metis log_of_call.simps(1))
  obtain least w' fw' where b: "\<forall>fuel \<ge> least.
      build_layer (registry_fetcher E) (foot_unpack (X\<lparr>ft_fuel := fuel\<rparr>) t) li ps ((s, w), fw) =
        (Val (Inr (of_nat (length content))), ((?s, w'), fw'))"
    and save: "save_object X (json_of_call ?call) (path_to t (log_of_call ?call)) fw = (Val (), fw')"
    using registry_build_layer_succeeds [OF st w(2) calm_files_simps(3) [OF calm] assms(6) ready, of ps] content assms(8)
    by auto
  have "registry_idle E w0 (?s, w')"
    by (rule registry.fetch.build_layer_idle [OF assms(4)]) (use b in blast)
  moreover have "logs t (cs @ [?call]) fw'"
    using save_logs [OF assms(6,7), of ?call] unpack_log_exact save by auto
  ultimately show ?thesis using b by blast
qed

text \<open>All layers of the image: enough fuel for each is enough for all of them.\<close>

lemma within_quota_left:
  assumes "within_quota s (content @ rest)"
  shows "within_quota s content"
    "within_quota (s\<lparr>remainingImageQuota := remainingImageQuota s - of_nat (length content)\<rparr>) rest"
  using assms sint_quota_left [of content "remainingImageQuota s"]
  by (auto simp: within_quota_def should_enforce_image_quota_validation_def)

lemma build_offered_layers:
  assumes "list_all2 (layer_offered E out ref) lis blobs" "imageSource s = Some ref"
    and "within_quota s (concat (map snd blobs))"
    and "registry_idle E w0 (s, w)" "calm_files E w0" "no_faults X" "logs t cs fw"
    and "\<forall>bc \<in> set blobs. \<forall>k \<le> length (snd bc). k + 1 + ft_grow X k < 2 ^ 63"
    and "brief out"
  shows "\<exists>least sw' fw'. (\<forall>fuel \<ge> least.
      build_layers_from (registry_fetcher E) (foot_unpack (X\<lparr>ft_fuel := fuel\<rparr>) t) below tot lis ((s, w), fw) =
        (Val (Inr (tot + of_nat (length (concat (map snd blobs))))), (sw', fw'))) \<and>
    logs t (cs @ unpack_calls (chain_ids below) (zip (chain_ids lis) (map snd blobs))) fw'"
  using assms
proof (induction lis blobs arbitrary: below tot s w fw cs rule: list_all2_induct)
  case Nil
  then show ?case by (auto simp: chain_ids_Nil)
next
  case (Cons li lis bc blobs)
  let ?F = "registry_fetcher E"
  obtain blob content where bc: "bc = (blob, content)" by (rule prod.exhaust)
  let ?s = "s\<lparr>remainingImageQuota := remainingImageQuota s - of_nat (length content)\<rparr>"
  let ?cs = "cs @ [UnpackCall \<lparr>ua_ID = ChainID li, ua_ParentIDs = chain_ids below, ua_LayerTarContents = content\<rparr>]"
  have quota: "within_quota s content" "within_quota ?s (concat (map snd blobs))"
    using Cons.prems(2) within_quota_left [of s content "concat (map snd blobs)"] by (simp_all add: bc)
  obtain least1 w1 fw1 where b: "\<forall>fuel \<ge> least1.
      build_layer ?F (foot_unpack (X\<lparr>ft_fuel := fuel\<rparr>) t) li (chain_ids below) ((s, w), fw) =
        (Val (Inr (of_nat (length content))), ((?s, w1), fw1))"
    and idle: "registry_idle E w0 (?s, w1)" and log: "logs t ?cs fw1"
    using build_offered_layer [OF Cons.hyps(1) [unfolded bc] Cons.prems(1) quota(1) Cons.prems(3-6), of "chain_ids below"]
      Cons.prems(7,8) by (auto simp: bc)
  have "imageSource ?s = Some ref" using Cons.prems(1) by simp
  from Cons.IH [OF this quota(2) idle Cons.prems(4,5) log, of "below @ [li]" "tot + of_nat (length content)"] Cons.prems(7,8)
  obtain least2 sw' fw' where rest: "\<forall>fuel \<ge> least2.
      build_layers_from ?F (foot_unpack (X\<lparr>ft_fuel := fuel\<rparr>) t) (below @ [li]) (tot + of_nat (length content)) lis ((?s, w1), fw1) =
        (Val (Inr (tot + of_nat (length content) + of_nat (length (concat (map snd blobs))))), (sw', fw'))"
    and log': "logs t (?cs @ unpack_calls (chain_ids (below @ [li])) (zip (chain_ids lis) (map snd blobs))) fw'" by auto
  have "\<forall>fuel \<ge> max least1 least2.
      build_layers_from ?F (foot_unpack (X\<lparr>ft_fuel := fuel\<rparr>) t) below tot (li # lis) ((s, w), fw) =
        (Val (Inr (tot + of_nat (length (concat (map snd (bc # blobs)))))), (sw', fw'))"
    using b rest by (simp add: bc add.assoc)
  moreover have "logs t (cs @ unpack_calls (chain_ids below) (zip (chain_ids (li # lis)) (map snd (bc # blobs)))) fw'"
    using log' by (simp add: bc chain_ids_def)
  ultimately show ?case by blast
qed

section \<open>Pulling the image\<close>

lemma sum_sizes: "layers_size lis = sum_list (map Size lis)"
proof -
  have "fold (\<lambda>li tot. tot + Size li) lis a = a + sum_list (map Size lis)" for a
    by (induction lis arbitrary: a) simp_all
  then show ?thesis by (simp add: layers_size_def)
qed

text \<open>The manifest is within the disk limit, or there is none for the image.\<close>

definition within_limit :: "image_spec \<Rightarrow> image \<Rightarrow> bool" where
  "within_limit spec img \<longleftrightarrow>
     ExcludeImageFromQuota spec \<or> DiskLimit spec = 0 \<or>
     sint (sum_list (map bi_Size (im_LayerInfos img))) \<le> sint (DiskLimit spec)"

text \<open>
  A published image is pulled with the test driver: the result has the published configuration, the
  chain IDs of the stack of contents and their total length.
\<close>

lemma published_image_pulled:
  assumes "reference E s = Val (Inr ref)" "offers E out (systemContext s) ref img config (map snd blobs)" "publishes E out ref img config blobs"
    and "imageSource s = None" "calm_files E w" "wf_world w" "within_quota s (concat (map snd blobs))"
    and "within_limit spec img" "no_faults X" "logs t cs fw"
    and "\<forall>bc \<in> set blobs. \<forall>k \<le> length (snd bc). k + 1 + ft_grow X k < 2 ^ 63"
    and "brief out"
  shows "\<exists>least sw' fw'. (\<forall>fuel \<ge> least.
      pull (registry_fetcher E) (foot_unpack (X\<lparr>ft_fuel := fuel\<rparr>) t) spec ((s, w), fw) =
        (Val (Inr \<lparr>pi_Config = config, ChainIDs = stack_ids (map snd blobs),
           pi_Size = of_nat (length (concat (map snd blobs)))\<rparr>), (sw', fw'))) \<and>
    logs t (cs @ unpack_calls [] (zip (stack_ids (map snd blobs)) (map snd blobs))) fw'"
proof -
  let ?F = "registry_fetcher E" and ?s = "s\<lparr>imageSource := Some ref\<rparr>"
  obtain lis where lis: "create_layer_infos img config = Val lis" "list_all2 (layer_offered E out ref) lis blobs"
    "chain_ids lis = stack_ids (map snd blobs)" "map Size lis = map bi_Size (im_LayerInfos img)"
    using published_layers [OF assms(3)] by blast
  obtain w1 where info: "ImageInfo ?F (s, w) = (Val (Inr \<lparr>LayerInfos = lis, ii_Config = config\<rparr>), (?s, w1))"
    using offered_manifest [OF assms(1,2,12,4) lis(1)] by auto
  have "registry_idle E w (s, w)"
    using assms(4-6) by (intro layer_idle_fresh) (simp_all add: calm_files_simps)
  then have idle: "registry_idle E w (?s, w1)"
    by (rule registry.fetch.image_info_idle) (rule info)
  have "within_quota ?s (concat (map snd blobs))" "imageSource ?s = Some ref"
    using assms(7) by (simp_all add: within_quota_def should_enforce_image_quota_validation_def)
  from build_offered_layers [OF lis(2) this(2,1) idle assms(5,9-12), of "[]" 0]
  obtain least sw' fw' where b: "\<forall>fuel \<ge> least.
      build_layers_from ?F (foot_unpack (X\<lparr>ft_fuel := fuel\<rparr>) t) [] 0 lis ((?s, w1), fw) =
        (Val (Inr (of_nat (length (concat (map snd blobs))))), (sw', fw'))"
    and log: "logs t (cs @ unpack_calls [] (zip (stack_ids (map snd blobs)) (map snd blobs))) fw'"
    using that by (auto simp: lis(3) chain_ids_Nil)
  have "quota_exceeded lis spec = None"
    using assms(8) by (auto simp: quota_exceeded_def sum_sizes lis(4) within_limit_def)
  with b info lis(3) have "\<forall>fuel \<ge> least.
      pull ?F (foot_unpack (X\<lparr>ft_fuel := fuel\<rparr>) t) spec ((s, w), fw) =
        (Val (Inr \<lparr>pi_Config = config, ChainIDs = stack_ids (map snd blobs),
           pi_Size = of_nat (length (concat (map snd blobs)))\<rparr>), (sw', fw'))"
    by (simp add: pull_def build_layers_def)
  with log show ?thesis by blast
qed

section \<open>An image of two layers\<close>

text \<open>
  For the concrete instances: two layers, the upper one compressed, told apart by their URLs, from a registry
  that misses two calls out of four, under a manifest of the given type.
\<close>

definition two_layer_image :: image where
  "two_layer_image =
     \<lparr>im_LayerInfos =
        [\<lparr>bi_Digest = sha256_digest [1, 2], bi_Size = 2, bi_URLs = [],
          bi_MediaType = ''application/vnd.oci.image.layer.v1.tar''\<rparr>,
         \<lparr>bi_Digest = sha256_digest [3], bi_Size = - 1, bi_URLs = [''u''], bi_MediaType = ''''\<rparr>], im_id = 0\<rparr>"

definition two_layer_config :: image_config where
  "two_layer_config = \<lparr>ic_DiffIDs = [sha256_digest [1, 2], sha256_digest [3]], ic_Env = [], ic_rest = ''''\<rparr>"

definition missed :: "nat \<Rightarrow> bool" where
  "missed t \<longleftrightarrow> t mod 4 < 2"

definition two_layer_env :: "string \<Rightarrow> unit env" where
  "two_layer_env mimetype =
     (sample_env two_layer_image two_layer_config (Inl ErrEOF))
       \<lparr>new_image_source := \<lambda>t _ _. if missed t then Some ErrEOF else None,
        from_unparsed_image := \<lambda>t _ _. if missed t then Inl ErrEOF else Inr two_layer_image,
        image_manifest_type := \<lambda>_ _. Inr mimetype,
        image_config_blob := \<lambda>t _. if missed t then Some ErrEOF else None,
        get_blob := \<lambda>t src info.
          if missed t then Inl ErrEOF
          else Inr (if bi_URLs info = [] then (sample_stream [1, 2], 2) else (sample_stream [3], 1))\<rparr>"

lemma missed_brief: "brief missed"
proof -
  have "length (filter missed [t, t + 1, t + 2, t + 3]) \<le> 2" for t
  proof -
    have "t mod 4 < 4" by simp
    then consider "t mod 4 = 0" | "t mod 4 = 1" | "t mod 4 = 2" | "t mod 4 = 3" by linarith
    then show ?thesis by cases (simp_all add: missed_def mod_Suc numeral_3_eq_3)
  qed
  then show ?thesis by (simp add: brief_def)
qed

lemma two_layer_passes: "passes (two_layer_env mimetype)"
  by (simp add: passes_def two_layer_env_def sample_env_def)

lemma two_layer_blobs:
  "get_blob (two_layer_env mimetype) t src info =
     (if missed t then Inl ErrEOF
      else Inr (if bi_URLs info = [] then (sample_stream [1, 2], 2) else (sample_stream [3], 1)))"
  by (simp add: two_layer_env_def)

text \<open>A decoder that passes its input on.\<close>

lemma passing_inflates:
  assumes "passes E" "\<And>k. read_all_grow E k = 0" "length content < 2 ^ 62"
  shows "inflates E (sample_stream content) content"
proof -
  have start: "gzip_new_reader E stream_read (sample_stream content) = (Val (Inr ()), sample_stream content)"
    using assms(1) by (simp add: gzip_new_reader_def passes_def)
  have "\<exists>s'. io_read_all (read_all_grow E) stream_read (sample_stream content) =
      (Val (content, eof_to_nil ErrEOF), s')"
    using stream.read_all_ok [of "sample_stream content" "read_all_grow E"] assms(2,3)
    by (auto simp: sample_stream_def finite_body_def)
  then obtain s' where "io_read_all (read_all_grow E) stream_read (sample_stream content) = (Val (content, None), s')"
    by (auto simp: eof_to_nil_def)
  moreover have "gzip_read E stream_read n (s, ()) = (case stream_read n s of (r, t) \<Rightarrow> (r, (t, ())))" for n s
    using fits_bufferD [OF fits_buffer_stream, of n s]
    by (cases "stream_read n s"; cases "fst (stream_read n s)") (auto simp: passing_gzip_read [OF assms(1)])
  ultimately have "io_read_all (read_all_grow E) (gzip_read E stream_read) (sample_stream content, ()) =
      (Val (content, None), (s', ()))"
    by (rule io_read_all_simulation [where g = "\<lambda>s. (s, ())"])
  with start show ?thesis unfolding inflates_def by blast
qed

lemma two_layer_offers:
  "reference (two_layer_env mimetype) (sample_source limit) = Val (Inr ''//image'')"
  "offers (two_layer_env mimetype) missed ctx ref two_layer_image two_layer_config
     (map snd [(sample_stream [1, 2], [1, 2]), (sample_stream [3], [3])])"
proof -
  have "inflates (two_layer_env mimetype) (sample_stream content) content" if "length content < 2 ^ 62" for content
    using passing_inflates [OF two_layer_passes _ that] by (simp add: two_layer_env_def sample_env_def)
  from this [of "[1, 2]"] this [of "[3]"]
  have "list_all2 (offers_v1_blob (two_layer_env mimetype) missed ref) (im_LayerInfos two_layer_image) [[1, 2], [3]]"
    by (auto simp: two_layer_image_def offers_v1_blob_def answers_def two_layer_blobs)
  then show "offers (two_layer_env mimetype) missed ctx ref two_layer_image two_layer_config
      (map snd [(sample_stream [1, 2], [1, 2]), (sample_stream [3], [3])])"
    by (auto simp: offers_def offers_manifest_def answers_def two_layer_env_def sample_env_def)
qed (simp add: two_layer_env_def sample_env_def reference_def sample_source_def new_layer_source_def
      sample_url_def empty_url_def generate_ref_string_def)

lemma two_layer_publishes:
  "publishes (two_layer_env mimetype) missed ref two_layer_image two_layer_config
     [(sample_stream [1, 2], [1, 2]), (sample_stream [3], [3])]"
proof -
  note gzip = passing_decodes [OF two_layer_passes, of _ "[3]"]
  have plain: "\<not> is_gzip_layer li" if "MediaType li = ''application/vnd.oci.image.layer.v1.tar''" for li
    using that by (simp add: is_gzip_layer_def has_prefix_def)
  have "layer_yields (two_layer_env mimetype) li (sample_stream [1, 2]) [1, 2] ErrEOF"
    if "MediaType li = ''application/vnd.oci.image.layer.v1.tar''" for li
    using plain [OF that] by (simp add: layer_yields_def sample_stream_def finite_body_def)
  moreover have "layer_yields (two_layer_env mimetype) li (sample_stream [3]) [3] ErrEOF" if "MediaType li = ''''" for li
    using gzip that by (simp add: layer_yields_def is_gzip_layer_def)
  ultimately show ?thesis
    by (auto simp: publishes_def two_layer_image_def two_layer_config_def offers_blob_def two_layer_blobs answers_def)
qed

lemma two_layer_calm:
  "fs w = Map.empty \<Longrightarrow> calm_files (two_layer_env mimetype) w"
  "\<forall>bc \<in> set [(sample_stream [1, 2], [1, 2]), (sample_stream [3], [3])].
     \<forall>k \<le> length (snd bc). k + 1 + ft_grow calm_env k < 2 ^ 63"
  by (simp_all add: calm_files_def two_layer_env_def sample_env_def calm_env_def)

end
