(* ===== verification/Cli_Reports.thy ===== *)
theory Cli_Reports
  imports Groot_Cli
begin

text \<open>
  What the commands report: for any driver, what a \<open>create\<close> command has done when its exit status
  is 0, and what \<open>delete\<close> and \<open>stats\<close> print of the driver's answer.
\<close>

section \<open>A creation that succeeds\<close>

lemma exit_with_0: "exit_with C r = (0, out) \<longleftrightarrow> (\<exists>out'. r = (out', None) \<and> out = printed C out')"
  by (auto simp: exit_with_def split: prod.splits option.splits if_splits)

lemma run_Invoke:
  assumes "run E C D argv (w, d) = (Val x, wd')" "parse_args C argv = Dispatch path (Invoke c ctx)" "fst x = 0"
  obtains conf logger w1 out where "before E (yaml_unmarshal C) path w = (Val (Inr (conf, logger)), w1)"
    "run_action E C D conf c ctx (w1, d) = (Val (out, None), wd')" "snd x = printed C out"
proof -
  from assms(1,2) obtain r w1 where b: "before E (yaml_unmarshal C) path w = (Val r, w1)"
    by (auto simp: run_def call_returns)
  show thesis
  proof (cases r)
    case (Inl e)
    with assms b show thesis by (auto simp: run_def exit_with_def split: if_splits)
  next
    case (Inr cl)
    obtain conf logger where "cl = (conf, logger)" by fastforce
    with assms b Inr that show thesis
      by (cases x) (auto simp: run_def call_returns exit_with_0)
  qed
qed

lemma with_fetcher_create:
  assumes "with_fetcher F D (create_body C D ctx) (w, d) = (Val (out, None), (w', d'))"
  obtains spec json w1 where "create (pull F (Unpack D)) D (ctx_Args ctx ! 1) (ctx_Int64 ctx ''disk-limit-size-bytes'')
       (ctx_Bool ctx ''exclude-image-from-quota'') (w, d) = (Val (spec, None), (w1, d'))"
    "json_spec C spec = Inr json" "out = [json @ newline]" "stdout_fault C = None"
proof -
  obtain r w1 d1 where b: "create_body C D ctx (pull F (Unpack D)) (w, d) = (r, (w1, d1))" by (rule prod_cases3)
  with assms have b: "create_body C D ctx (pull F (Unpack D)) (w, d) = (Val (out, None), (w1, d'))"
    by (cases r) (auto simp: with_fetcher_def closing_def)
  then show thesis
    by (auto simp: create_body_def call_returns json_encode_def intro: that split: option.splits sum.splits)
qed

text \<open>
  The pull of a command, with the limit of its flags, from the fetcher of its image; the world and
  the driver are those before it, and \<open>d'\<close> is the driver after it.
\<close>

definition flag_spec :: "cli_context \<Rightarrow> image_spec" where
  "flag_spec ctx =
     \<lparr>DiskLimit = ctx_Int64 ctx ''disk-limit-size-bytes'', ExcludeImageFromQuota = ctx_Bool ctx ''exclude-image-from-quota''\<rparr>"

definition command_pulls :: "'z env \<Rightarrow> config \<Rightarrow> cli_context \<Rightarrow> 'd unpack \<Rightarrow> world \<times> 'd \<Rightarrow> pulled_image \<Rightarrow> 'd \<Rightarrow> bool" where
  "command_pulls E conf ctx unpack wd img d' \<longleftrightarrow>
     (case context_fetcher conf ctx of
        Inl e \<Rightarrow> False
      | Inr (RegistryImage s) \<Rightarrow>
          (\<exists>sw'. pull (registry_fetcher E) unpack (flag_spec ctx) ((s, fst wd), snd wd) = (Val (Inr img), (sw', d')))
      | Inr (LocalImage path) \<Rightarrow>
          (\<exists>w'. pull (file_fetcher E path) unpack (flag_spec ctx) wd = (Val (Inr img), (w', d'))))"

text \<open>The quota for the bundle of an image of this size.\<close>

definition quota_left :: "cli_context \<Rightarrow> int64 \<Rightarrow> int64 \<Rightarrow> bool" where
  "quota_left ctx imageSize quota \<longleftrightarrow>
     (let limit = ctx_Int64 ctx ''disk-limit-size-bytes''
      in 0 \<le> sint limit \<and>
        (if limit = 0 \<or> ctx_Bool ctx ''exclude-image-from-quota'' then quota = limit
         else quota = limit - imageSize \<and> 0 < sint quota))"

text \<open>What has happened when an action on a fetcher has created a bundle.\<close>

lemma with_fetcher_created:
  assumes "with_fetcher F D (create_body C D ctx) (w, d) = (Val (out, None), (w', d'))"
  shows "\<exists>img w1 d1 quota bundle d2 json.
    pull F (Unpack D) (flag_spec ctx) (w, d) = (Val (Inr img), (w1, d1)) \<and> quota_left ctx (pi_Size img) quota \<and>
    Bundle D (ctx_Args ctx ! 1) (ChainIDs img) quota d1 = (Val (Inr bundle), d2) \<and>
    WriteMetadata D (ctx_Args ctx ! 1) \<lparr>im_Size = pi_Size img\<rparr> d2 = (Val None, d') \<and>
    json_spec C (add_env (ic_Env (pi_Config img)) bundle) = Inr json \<and> printed C out = [json @ newline]"
proof (rule with_fetcher_create [OF assms])
  fix spec json w1
  assume c: "create (pull F (Unpack D)) D (ctx_Args ctx ! 1) (ctx_Int64 ctx ''disk-limit-size-bytes'')
      (ctx_Bool ctx ''exclude-image-from-quota'') (w, d) = (Val (spec, None), (w1, d'))"
    and json: "json_spec C spec = Inr json" "out = [json @ newline]" "stdout_fault C = None"
  from json have "printed C out = [json @ newline]" by simp
  with create_success [OF c] json(1) show ?thesis unfolding flag_spec_def quota_left_def Let_def by blast
qed

text \<open>
  C21: A \<open>create\<close> command that exits with status 0 has pulled the image from the fetcher that the
  configuration and the arguments choose, with the limit of its flags; it has asked the driver to
  bundle exactly the volumes of the image under the handle that was given, with the quota that is
  left (positive, if the image counts), and to record the image's size; and it has printed exactly
  one line, the driver's specification with the image's environment added, in JSON.
\<close>

theorem create_command_prints_spec:
  assumes "run E C D argv (w, d) = (Val (0, out), (w', d'))"
    and "parse_args C argv = Dispatch path (Invoke CreateCommand ctx)"
  shows "\<exists>conf logger w1 img d1 quota bundle d2 json.
    before E (yaml_unmarshal C) path w = (Val (Inr (conf, logger)), w1) \<and> length (ctx_Args ctx) = 2 \<and>
    command_pulls E conf ctx (Unpack D) (w1, d) img d1 \<and> quota_left ctx (pi_Size img) quota \<and>
    Bundle D (ctx_Args ctx ! 1) (ChainIDs img) quota d1 = (Val (Inr bundle), d2) \<and>
    WriteMetadata D (ctx_Args ctx ! 1) \<lparr>im_Size = pi_Size img\<rparr> d2 = (Val None, d') \<and>
    json_spec C (add_env (ic_Env (pi_Config img)) bundle) = Inr json \<and> out = [json @ newline]"
proof -
  obtain conf logger w1 out' where b: "before E (yaml_unmarshal C) path w = (Val (Inr (conf, logger)), w1)"
    and r: "run_action E C D conf CreateCommand ctx (w1, d) = (Val (out', None), (w', d'))"
    and out: "out = printed C out'"
    by (rule run_Invoke [OF assms]) simp_all
  have args: "length (ctx_Args ctx) = 2"
    using r by (auto simp: run_action_def create_action_def validate_args_def split: if_splits)
  show ?thesis
  proof (cases "context_fetcher conf ctx")
    case (Inl e)
    with r args show ?thesis by (auto simp: run_action_def create_action_def validate_args_def)
  next
    case (Inr f)
    show ?thesis
    proof (cases f)
      case (RegistryImage s)
      with Inr r args obtain s' where
        "with_fetcher (registry_fetcher E) D (create_body C D ctx) ((s, w1), d) = (Val (out', None), ((s', w'), d'))"
        by (auto simp: run_action_def create_action_def validate_args_def with_source_Val)
      from with_fetcher_created [OF this] b args out Inr RegistryImage show ?thesis
        by (auto simp: command_pulls_def) blast
    next
      case (LocalImage p)
      with Inr r args have
        "with_fetcher (file_fetcher E p) D (create_body C D ctx) (w1, d) = (Val (out', None), (w', d'))"
        by (simp add: run_action_def create_action_def validate_args_def)
      from with_fetcher_created [OF this] b args out Inr LocalImage show ?thesis
        by (auto simp: command_pulls_def) blast
    qed
  qed
qed

theorem create_command_prints_spec_witness:
  "\<exists>conf img d1 quota bundle d2. context_fetcher conf (sample_ctx [''/image.tar'', ''h'']) = Inr (LocalImage ''/image.tar'') \<and>
     command_pulls (honest_env []) conf (sample_ctx [''/image.tar'', ''h'']) four_bytes (file_world [1, 2, 3], 0) img d1 \<and>
     Bundle (counting_driver None) ''h'' (ChainIDs img) quota d1 = (Val (Inr bundle), d2) \<and> d2 = 2"
proof -
  let ?ctx = "sample_ctx [''/image.tar'', ''h'']"
  obtain w' where r: "run (honest_env []) (sample_cli (Dispatch '''' (Invoke CreateCommand ?ctx)))
      (counting_driver None) [] (file_world [1, 2, 3], 0) = (Val (0, [''h'' @ newline]), (w', 3))"
    using sample_create by blast
  from create_command_prints_spec [OF r, of "''''" ?ctx]
  obtain conf logger w1 img d1 quota sp d2 where c:
    "before (honest_env []) (\<lambda>_. Inr) '''' (file_world [1, 2, 3]) = (Val (Inr (conf, logger)), w1)"
    "command_pulls (honest_env []) conf ?ctx four_bytes (w1, 0) img d1"
    "Bundle (counting_driver None) ''h'' (ChainIDs img) quota d1 = (Val (Inr sp), d2)"
    "WriteMetadata (counting_driver None) ''h'' \<lparr>im_Size = pi_Size img\<rparr> d2 = (Val None, 3)"
    by (auto simp: sample_cli_def counting_driver_def)
  have "plain_path ''/image.tar''" by code_simp
  then have "context_fetcher conf ?ctx = Inr (LocalImage ''/image.tar'')"
    using url_string_plain [of "''/image.tar''"]
    by (simp add: context_fetcher_def create_fetcher_def url_parse_plain new_file_fetcher_def empty_url_def)
  with c show ?thesis by (auto simp: counting_driver_def)
qed

section \<open>Deleting and reporting the usage\<close>

text \<open>
  A command that fails with an error: it has been printed, unless it is silent, as far as anything
  can be printed.
\<close>

definition failure :: "cli_env \<Rightarrow> error \<Rightarrow> nat \<times> string list" where
  "failure C e = (1, printed C (if is_silent e then [] else [error_text e @ newline]))"

text \<open>
  C20: The commands that only use the driver.  \<open>delete\<close> and \<open>stats\<close> on one handle make exactly
  one call of the driver and touch nothing else once the configuration has been read.  The exit
  status is 0 when the call succeeds, with nothing printed by \<open>delete\<close> and the two numbers in one
  line of JSON by \<open>stats\<close>; otherwise it is 1 and the error is printed.  \<open>stats\<close> fails too when the
  standard output cannot be written; then nothing is printed at all.  A panic of the driver is one
  of the program.
\<close>

theorem driver_commands_report:
  assumes "parse_args C argv = Dispatch path (Invoke c ctx)" "ctx_Args ctx = [handle]"
    and "before E (yaml_unmarshal C) path w = (Val (Inr (conf, logger)), w1)"
  shows "(c = DeleteCommand \<and> Delete D handle d = (r, d') \<longrightarrow>
      run E C D argv (w, d) =
        ((case r of Val None \<Rightarrow> Val (0, []) | Val (Some e) \<Rightarrow> Val (failure C e) | Panic m \<Rightarrow> Panic m | Diverges \<Rightarrow> Diverges),
         (w1, d'))) \<and>
    (c = StatsCommand \<and> Stats D handle d = (q, d'') \<longrightarrow>
      run E C D argv (w, d) =
        ((case q of
            Val (Inr stats) \<Rightarrow>
              Val (case stdout_fault C of Some e \<Rightarrow> (1, [])
                 | None \<Rightarrow> (0, [''{\"disk_usage\":{\"total_bytes_used\":'' @ show_int64 (TotalBytesUsed (DiskUsage stats)) @
                     '',\"exclusive_bytes_used\":'' @ show_int64 (ExclusiveBytesUsed (DiskUsage stats)) @ ''}}'' @ newline]))
          | Val (Inl e) \<Rightarrow> Val (failure C e) | Panic m \<Rightarrow> Panic m | Diverges \<Rightarrow> Diverges),
         (w1, d'')))"
  using assms
  by (simp add: run_def run_action_def delete_action_def stats_action_def validate_args_def groot_delete_def
      groot_stats_def exit_with_def failure_def json_encode_def json_stats_def printed_def split: outcome.split option.split sum.split)

theorem driver_commands_report_witness:
  "run (honest_env []) (sample_cli (Dispatch '''' (Invoke DeleteCommand (sample_ctx [''h''])))) (counting_driver None) []
     (sample_world, 0) = (Val (0, []), (sample_world, 1)) \<and>
   run (honest_env []) (sample_cli (Dispatch '''' (Invoke StatsCommand (sample_ctx [''h''])))) (counting_driver None) []
     (sample_world, 0) =
     (Val (0, [''{\"disk_usage\":{\"total_bytes_used\":1,\"exclusive_bytes_used\":1}}'' @ newline]), (sample_world, 1))"
proof -
  have driver: "Delete (counting_driver None) ''h'' 0 = (Val None, 1)"
    "Stats (counting_driver None) ''h'' 0 = (Val (Inr \<lparr>DiskUsage = \<lparr>TotalBytesUsed = 1, ExclusiveBytesUsed = 1\<rparr>\<rparr>), 1)"
    by (simp_all add: counting_driver_def)
  have one: "show_int64 1 = ''1''" by code_simp
  show ?thesis
    using driver_commands_report [of "sample_cli (Dispatch '''' (Invoke DeleteCommand (sample_ctx [''h''])))" "[]" "''''"
        DeleteCommand "sample_ctx [''h'']" "''h''" "honest_env []" sample_world _ _ _ "counting_driver None" 0]
      driver_commands_report [of "sample_cli (Dispatch '''' (Invoke StatsCommand (sample_ctx [''h''])))" "[]" "''''"
        StatsCommand "sample_ctx [''h'']" "''h''" "honest_env []" sample_world _ _ _ "counting_driver None" 0] driver
    by (simp add: one)
qed

section \<open>A registry that cannot be reached\<close>

text \<open>The commands that fetch an image, with the arguments they need.\<close>

definition fetches :: "command \<Rightarrow> cli_context \<Rightarrow> bool" where
  "fetches c ctx \<longleftrightarrow>
     (case c of
        CreateCommand \<Rightarrow> length (ctx_Args ctx) = 2 \<and> 0 \<le> sint (ctx_Int64 ctx ''disk-limit-size-bytes'')
      | PullCommand \<Rightarrow> length (ctx_Args ctx) = 1
      | _ \<Rightarrow> False)"

text \<open>Three attempts at a source that does not open.\<close>

lemma image_unreachable:
  assumes "reference E s = Val (Inr ref)" "imageSource s = None"
    and "\<forall>i < MAX_DOCKER_RETRIES. new_image_source E (tick w + i) ref (systemContext s) = Some (errs i)"
  shows "ImageInfo (registry_fetcher E) (s, w) =
    (Val (Inl (ErrWrap ''fetching image reference'' (ErrWrap ''creating image'' (ErrWrap ''creating image source'' (errs 2))))),
     (s, w\<lparr>tick := tick w + MAX_DOCKER_RETRIES\<rparr>))"
proof -
  have "new_image_source E (tick w) ref (systemContext s) = Some (errs 0)"
    "new_image_source E (Suc (tick w)) ref (systemContext s) = Some (errs 1)"
    "new_image_source E (Suc (Suc (tick w))) ref (systemContext s) = Some (errs 2)"
    using assms(3) [rule_format, of 0] assms(3) [rule_format, of 1] assms(3) [rule_format, of 2]
    by (simp_all add: MAX_DOCKER_RETRIES_def)
  with assms(1,2) show ?thesis
    by (simp add: lf_image_info_def Manifest_def get_image_with_retries_def MAX_DOCKER_RETRIES_Suc get_image_attempt_def
        get_image_source_def create_image_source_def on_world_def advance_def)
qed

text \<open>
  C19: An unreachable registry.  When a \<open>create\<close> or a \<open>pull\<close> command meets a registry that cannot
  be opened, the program asks it exactly three times, prints the error of the last attempt in one
  line that says what it was doing (on a standard output that can be written), and exits with status 1; the driver is never called, and in the
  outside world nothing has changed but the time.
\<close>

theorem unreachable_registry_is_reported:
  assumes "parse_args C argv = Dispatch path (Invoke c ctx)" "fetches c ctx"
    and "before E (yaml_unmarshal C) path w = (Val (Inr (conf, logger)), w1)"
    and "context_fetcher conf ctx = Inr (RegistryImage s)" "reference E s = Val (Inr ref)"
    and "\<forall>i < MAX_DOCKER_RETRIES. new_image_source E (tick w1 + i) ref (systemContext s) = Some (errs i)"
  shows "run E C D argv (w, d) =
    (Val (1, printed C [''pulling image: fetching list of layer infos: fetching image reference: creating image: creating image source: '' @
       error_text (errs 2) @ newline]), (w1\<lparr>tick := tick w1 + MAX_DOCKER_RETRIES\<rparr>, d))"
proof -
  have s: "imageSource s = None" using context_fetcher_fresh [OF assms(4)] ..
  let ?w = "w1\<lparr>tick := tick w1 + MAX_DOCKER_RETRIES\<rparr>"
  let ?e = "ErrWrap ''fetching list of layer infos'' (ErrWrap ''fetching image reference'' (ErrWrap ''creating image''
     (ErrWrap ''creating image source'' (errs 2))))"
  have pull: "pull (registry_fetcher E) unpack spec ((s, w1), d) = (Val (Inl ?e), ((s, ?w), d))" for unpack spec
    using image_unreachable [OF assms(5) s assms(6)] by (simp add: pull_def)
  have close: "CloseFetcher (registry_fetcher E) (s, ?w) = (None, (s, ?w))"
    using s by (simp add: close_source_def)
  have "run_action E C D conf c ctx (w1, d) = (Val ([], Some (ErrWrap ''pulling image'' ?e)), (?w, d))"
    using assms(2,4) pull close
    by (cases c) (simp_all add: fetches_def run_action_def create_action_def pull_action_def validate_args_def with_source_def
        with_fetcher_def create_body_def pull_body_def create_def groot_pull_def closing_def)
  with assms(1,3) show ?thesis by (simp add: run_def exit_with_def is_silent_def)
qed

theorem unreachable_registry_is_reported_witness:
  "\<exists>errs. run ((honest_env [])\<lparr>new_image_source := \<lambda>t _ _. Some (errs t)\<rparr>)
      (sample_cli (Dispatch '''' (Invoke CreateCommand (sample_ctx [''docker://reg/img'', ''h''])))) (counting_driver None) []
      (sample_world, 0) =
    (Val (1, [''pulling image: fetching list of layer infos: fetching image reference: creating image: creating image source: EOF'' @
       newline]), (sample_world\<lparr>tick := 3\<rparr>, 0)) \<and> errs 0 \<noteq> errs 2"
proof -
  let ?errs = "\<lambda>t. if t = 2 then ErrEOF else ErrNew ''later''"
  let ?E = "(honest_env [])\<lparr>new_image_source := \<lambda>t _ _. Some (?errs t)\<rparr>"
  let ?conf = "\<lparr>LogLevel = ''info'', InsecureRegistries = []\<rparr>" and ?ctx = "sample_ctx [''docker://reg/img'', ''h'']"
  have "case url_parse ''docker://reg/img'' of Inl e \<Rightarrow> False | Inr u \<Rightarrow> Scheme u = ''docker''" by code_simp
  then obtain s where s: "context_fetcher ?conf ?ctx = Inr (RegistryImage s)" "Scheme (imageURL s) = ''docker''"
    by (auto simp: context_fetcher_def create_fetcher_def new_layer_source_def split: sum.splits)
  have ref: "reference ?E s = Val (Inr (generate_ref_string ?E (imageURL s)))" using s(2) by (simp add: reference_def)
  have ready: "parse_args (sample_cli (Dispatch '''' (Invoke CreateCommand ?ctx))) [] = Dispatch '''' (Invoke CreateCommand ?ctx)"
    "fetches CreateCommand ?ctx"
    "before ?E (yaml_unmarshal (sample_cli (Dispatch '''' (Invoke CreateCommand ?ctx)))) '''' sample_world =
      (Val (Inr (?conf, INFO)), sample_world)"
    "\<forall>i < MAX_DOCKER_RETRIES. new_image_source ?E (tick sample_world + i) (generate_ref_string ?E (imageURL s)) (systemContext s) =
      Some (?errs i)"
    by (simp_all add: fetches_def ctx_Int64_def)
  from unreachable_registry_is_reported [OF ready(1-3) s(1) ref ready(4), of "counting_driver None" 0]
  show ?thesis by (intro exI [of _ ?errs]) (simp add: MAX_DOCKER_RETRIES_def)
qed

end
