(* ===== verification/Complete_Runs.thy ===== *)
theory Complete_Runs
  imports Complete_Pulls Cli_Reports
begin

text \<open>
  The whole program on a valid image: from the command line of the binary with the test driver
  to its exit status, for an image that a registry publishes under a \<open>docker\<close> URL.
\<close>

section \<open>The reference of a Docker image\<close>

text \<open>What the image library is asked for: the URL without its scheme.\<close>

definition image_reference :: "string \<Rightarrow> string \<Rightarrow> string" where
  "image_reference host path = ''/'' @ (if host \<noteq> '''' then ''/'' @ host else '''') @ path"

text \<open>What it is given: credentials, and whether to verify the certificate of the registry.\<close>

definition registry_context :: "config \<Rightarrow> cli_context \<Rightarrow> string \<Rightarrow> system_context" where
  "registry_context conf ctx host =
     \<lparr>sc_DockerInsecureSkipTLSVerify = Some (host \<in> set (InsecureRegistries conf)),
      sc_DockerAuthConfig = Some (ctx_String ctx ''username'', ctx_String ctx ''password'')\<rparr>"

lemma docker_fetcher:
  assumes "plain_host host" "plain_image_path path" "ctx_Args ctx ! 0 = ''docker://'' @ host @ path"
  shows "\<exists>s. context_fetcher conf ctx = Inr (RegistryImage s) \<and> imageSource s = None \<and>
    generate_ref_string E (imageURL s) = image_reference host path \<and> Scheme (imageURL s) = ''docker'' \<and>
    systemContext s = registry_context conf ctx host \<and>
    remainingImageQuota s = ctx_Int64 ctx ''disk-limit-size-bytes'' \<and>
    (skipImageQuotaValidation s \<longleftrightarrow>
       ctx_Bool ctx ''exclude-image-from-quota'' \<or> ctx_Int64 ctx ''disk-limit-size-bytes'' = 0)"
  using url_parse_docker [OF assms(1,2)] assms(3)
  by (simp add: context_fetcher_def create_fetcher_def docker_context_def new_layer_source_def skip_tls_validation_iff
      should_skip_image_quota_validation_def registry_context_def generate_ref_string_def image_reference_def)

text \<open>
  C17: A \<open>docker\<close> URL made of a host name, with a port or without, and a path of characters that
  need no escaping survives parsing: its fetcher asks the image library for exactly the host and
  the path that were given, with the credentials of the command line.
\<close>

theorem docker_url_reaches_registry:
  assumes "plain_host host" "plain_image_path path" "ctx_Args ctx ! 0 = ''docker://'' @ host @ path"
    and "transport E ''docker'' = Some parse"
  shows "\<exists>s. context_fetcher conf ctx = Inr (RegistryImage s) \<and> systemContext s = registry_context conf ctx host \<and>
    reference E s = Val (wrap_res ''parsing url failed'' (parse (image_reference host path)))"
proof -
  obtain s where "context_fetcher conf ctx = Inr (RegistryImage s)" "Scheme (imageURL s) = ''docker''"
    "generate_ref_string E (imageURL s) = image_reference host path" "systemContext s = registry_context conf ctx host"
    using docker_fetcher [OF assms(1-3), of conf E] by blast
  with assms(4) show ?thesis by (auto simp: reference_def wrap_res_def split: sum.splits)
qed

theorem docker_url_reaches_registry_witness:
  "\<exists>s. context_fetcher \<lparr>LogLevel = ''info'', InsecureRegistries = []\<rparr>
       (sample_ctx [''docker://registry.example:5000/cloudfoundry/image:tag'', ''h'']) = Inr (RegistryImage s) \<and>
     reference (honest_env []) s = Val (Inr ''//registry.example:5000/cloudfoundry/image:tag'')"
proof -
  have plain: "plain_host ''registry.example:5000''" "plain_image_path ''/cloudfoundry/image:tag''" by code_simp+
  from docker_url_reaches_registry [OF plain, of "sample_ctx [''docker://registry.example:5000/cloudfoundry/image:tag'', ''h'']"
      "honest_env []" Inr]
  show ?thesis by (auto simp: image_reference_def wrap_res_def)
qed

section \<open>The calls after the pull\<close>

lemma foot_fuel [simp]:
  "foot_bundle (X\<lparr>ft_fuel := fuel\<rparr>) = foot_bundle X" "foot_write_metadata (X\<lparr>ft_fuel := fuel\<rparr>) = foot_write_metadata X"
  by (simp_all add: fun_eq_iff foot_bundle_def foot_write_metadata_def save_object_fuel)

lemma logs_vars: "logs t cs fw \<Longrightarrow> ft_vars fw = []"
  by (simp add: logs_def)

lemma foot_bundle_logs:
  assumes "no_faults X" "logs t cs fw" "\<forall>c \<in> set cs. log_of_call c = BundleArgsFileName \<longrightarrow> exact_json (json_of_call c)"
  shows "\<exists>fw'. foot_bundle X t handle ids quota fw = (Val (Inr bundle_runtime_spec), fw') \<and>
    logs t (cs @ [BundleCall \<lparr>ba_ID = handle, ba_LayerIDs = ids, ba_DiskLimit = quota\<rparr>]) fw'"
proof -
  let ?c = "BundleCall \<lparr>ba_ID = handle, ba_LayerIDs = ids, ba_DiskLimit = quota\<rparr>"
  obtain fw' where "save_object X (json_of_call ?c) (path_to t (log_of_call ?c)) fw = (Val (), fw')" "logs t (cs @ [?c]) fw'"
    using save_logs [OF assms(1,2), of ?c] assms(3) by auto
  then show ?thesis using logs_vars [OF assms(2)] by (simp add: foot_bundle_def lookup_env_def)
qed

lemma foot_write_metadata_logs:
  assumes "no_faults X" "logs t cs fw"
    and "\<forall>c \<in> set cs. log_of_call c = WriteMetadataArgsFileName \<longrightarrow> exact_json (json_of_call c)"
  shows "\<exists>fw'. foot_write_metadata X t handle meta fw = (Val None, fw') \<and>
    logs t (cs @ [WriteMetadataCall \<lparr>wa_ID = handle, wa_VolumeData = meta\<rparr>]) fw'"
proof -
  let ?c = "WriteMetadataCall \<lparr>wa_ID = handle, wa_VolumeData = meta\<rparr>"
  obtain fw' where "save_object X (json_of_call ?c) (path_to t (log_of_call ?c)) fw = (Val (), fw')" "logs t (cs @ [?c]) fw'"
    using save_logs [OF assms(1,2), of ?c] assms(3) by auto
  then show ?thesis using logs_vars [OF assms(2)] by (simp add: foot_write_metadata_def lookup_env_def)
qed

text \<open>The calls of a creation from layers with these identities and contents.\<close>

definition create_calls :: "string \<Rightarrow> int64 \<Rightarrow> (string \<times> bytes) list \<Rightarrow> foot_call list" where
  "create_calls handle quota layers =
     unpack_calls [] layers @
     [BundleCall \<lparr>ba_ID = handle, ba_LayerIDs = map fst layers, ba_DiskLimit = quota\<rparr>,
      WriteMetadataCall \<lparr>wa_ID = handle, wa_VolumeData = \<lparr>im_Size = of_nat (length (concat (map snd layers)))\<rparr>\<rparr>]"

text \<open>The disk limit leaves something for the bundle, or does not count the image.\<close>

definition limit_of_bundle :: "int64 \<Rightarrow> bool \<Rightarrow> bytes list \<Rightarrow> int64" where
  "limit_of_bundle limit exclude contents =
     (if limit = 0 \<or> exclude then limit else limit - of_nat (length (concat contents)))"

definition fits_limit :: "int64 \<Rightarrow> bool \<Rightarrow> image \<Rightarrow> bytes list \<Rightarrow> bool" where
  "fits_limit limit exclude img contents \<longleftrightarrow>
     0 \<le> sint limit \<and>
     (limit = 0 \<or> exclude \<or>
      int (length (concat contents)) < sint limit \<and>
      sint (sum_list (map bi_Size (im_LayerInfos img))) \<le> sint limit)"

lemma bundle_quota_left:
  assumes "limit = 0 \<or> exclude \<or> int (length (concat contents)) < sint limit"
  shows "bundle_quota limit exclude (of_nat (length (concat contents))) = Inr (limit_of_bundle limit exclude contents)"
  using assms sint_quota_left [of "concat contents" limit] by (auto simp: bundle_quota_def limit_of_bundle_def)

lemma create_with_foot:
  assumes p: "\<forall>fuel \<ge> least. pull F (foot_unpack (X\<lparr>ft_fuel := fuel\<rparr>) t)
      \<lparr>DiskLimit = limit, ExcludeImageFromQuota = exclude\<rparr> (w, fw) =
        (Val (Inr \<lparr>pi_Config = config, ChainIDs = map fst layers, pi_Size = of_nat (length (concat (map snd layers)))\<rparr>),
         (w', fw1))"
    and "logs t (cs @ unpack_calls [] layers) fw1" "no_faults X" "list_all (exact_json \<circ> json_of_call) cs"
    and "0 \<le> sint limit" "limit = 0 \<or> exclude \<or> int (length (concat (map snd layers))) < sint limit"
  shows "\<exists>fw'. (\<forall>fuel \<ge> least. create (pull F (Unpack (foot_driver (X\<lparr>ft_fuel := fuel\<rparr>) t)))
      (foot_driver (X\<lparr>ft_fuel := fuel\<rparr>) t) handle limit exclude (w, fw) =
        (Val (add_env (ic_Env config) bundle_runtime_spec, None), (w', fw'))) \<and>
    logs t (cs @ create_calls handle (limit_of_bundle limit exclude (map snd layers)) layers) fw'"
proof -
  let ?us = "unpack_calls [] layers" and ?quota = "limit_of_bundle limit exclude (map snd layers)"
  have exact: "exact_json (json_of_call c)" if "c \<in> set (cs @ ?us)" for c
    using that assms(4) unpack_calls_log [of c] unpack_log_exact [of c] by (auto simp: list_all_iff)
  obtain fw2 where b: "foot_bundle X t handle (map fst layers) ?quota fw1 = (Val (Inr bundle_runtime_spec), fw2)"
    and log2: "logs t ((cs @ ?us) @ [BundleCall \<lparr>ba_ID = handle, ba_LayerIDs = map fst layers, ba_DiskLimit = ?quota\<rparr>]) fw2"
    using foot_bundle_logs [OF assms(3,2)] exact by blast
  obtain fw3 where m: "foot_write_metadata X t handle \<lparr>im_Size = of_nat (length (concat (map snd layers)))\<rparr> fw2 = (Val None, fw3)"
    and log3: "logs t (cs @ create_calls handle ?quota layers) fw3"
    using foot_write_metadata_logs [OF assms(3) log2] exact by (fastforce simp: create_calls_def log_names)
  with p b m bundle_quota_left [OF assms(6)] log3 assms(5) show ?thesis
    by (intro exI [of _ fw3]) (simp add: create_def)
qed

text \<open>The layers of a stack of contents.\<close>

definition stack_layers :: "bytes list \<Rightarrow> (string \<times> bytes) list" where
  "stack_layers contents = zip (stack_ids contents) contents"

lemma stack_layers_simps [simp]:
  "map fst (stack_layers contents) = stack_ids contents" "map snd (stack_layers contents) = contents"
  by (simp_all add: stack_layers_def stack_ids_def)

section \<open>Creating from a registry\<close>

lemma docker_image_created:
  assumes "parse_args C argv = Dispatch configPath (Invoke CreateCommand ctx)"
    and "ctx_Args ctx = [''docker://'' @ host @ path, handle]" "plain_host host" "plain_image_path path"
    and "before E (yaml_unmarshal C) configPath w = (Val (Inr (conf, logger)), w1)"
    and "transport E ''docker'' = Some parse" "parse (image_reference host path) = Inr ref"
    and "offers E out (registry_context conf ctx host) ref img config (map snd blobs)"
    and "publishes E out ref img config blobs" "brief out"
    and "fits_limit (ctx_Int64 ctx ''disk-limit-size-bytes'') (ctx_Bool ctx ''exclude-image-from-quota'') img (map snd blobs)"
    and "calm_files E w" "wf_world w"
    and "json_spec C (add_env (ic_Env config) bundle_runtime_spec) = Inr json" "stdout_fault C = None"
    and "no_faults X" "logs \<lparr>BaseDir = store argv\<rparr> cs fw" "list_all (exact_json \<circ> json_of_call) cs"
    and "\<forall>bc \<in> set blobs. \<forall>k \<le> length (snd bc). k + 1 + ft_grow X k < 2 ^ 63"
  shows "\<exists>least w' fw'. (\<forall>fuel \<ge> least.
      foot_main E C (X\<lparr>ft_fuel := fuel\<rparr>) store argv (w, fw) = (Val (0, [json @ newline]), (w', fw'))) \<and>
    logs \<lparr>BaseDir = store argv\<rparr>
      (cs @ create_calls handle (limit_of_bundle (ctx_Int64 ctx ''disk-limit-size-bytes'')
         (ctx_Bool ctx ''exclude-image-from-quota'') (map snd blobs)) (stack_layers (map snd blobs))) fw'"
proof -
  let ?limit = "ctx_Int64 ctx ''disk-limit-size-bytes''" and ?exclude = "ctx_Bool ctx ''exclude-image-from-quota''"
  let ?t = "\<lparr>BaseDir = store argv\<rparr>" and ?F = "registry_fetcher E" and ?contents = "map snd blobs"
  obtain s where s: "context_fetcher conf ctx = Inr (RegistryImage s)" "imageSource s = None"
    "systemContext s = registry_context conf ctx host" "remainingImageQuota s = ?limit"
    "skipImageQuotaValidation s \<longleftrightarrow> ?exclude \<or> ?limit = 0"
    "generate_ref_string E (imageURL s) = image_reference host path" "Scheme (imageURL s) = ''docker''"
    using docker_fetcher [OF assms(3,4), of ctx conf E] assms(2) by auto
  have ref: "reference E s = Val (Inr ref)" using s(6,7) assms(6,7) by (simp add: reference_def)
  have offer: "offers E out (systemContext s) ref img config ?contents" using assms(8) s(3) by simp
  have w1: "quiet w w1" using before_no_trace [OF assms(5,13)] by (simp add: no_trace_def)
  note calm = calm_files_quiet [OF assms(12) w1] and wf = quiet_wf [OF w1 assms(13)]
  have quota: "within_quota s (concat ?contents)"
    using s(4,5) assms(11) by (auto simp: within_quota_def should_enforce_image_quota_validation_def fits_limit_def)
  have fits: "0 \<le> sint ?limit" "?limit = 0 \<or> ?exclude \<or> int (length (concat ?contents)) < sint ?limit"
    "within_limit \<lparr>DiskLimit = ?limit, ExcludeImageFromQuota = ?exclude\<rparr> img"
    using assms(11) by (auto simp: fits_limit_def within_limit_def)
  obtain least sw' fw1 where p: "\<forall>fuel \<ge> least.
      pull ?F (foot_unpack (X\<lparr>ft_fuel := fuel\<rparr>) ?t) \<lparr>DiskLimit = ?limit, ExcludeImageFromQuota = ?exclude\<rparr> ((s, w1), fw) =
        (Val (Inr \<lparr>pi_Config = config, ChainIDs = stack_ids ?contents, pi_Size = of_nat (length (concat ?contents))\<rparr>),
         (sw', fw1))"
    and log1: "logs ?t (cs @ unpack_calls [] (stack_layers ?contents)) fw1"
    using published_image_pulled [OF ref offer assms(9) s(2) calm wf quota fits(3) assms(16,17,19,10)]
    by (auto simp: stack_layers_def)
  obtain fw' where c: "\<forall>fuel \<ge> least. create (pull ?F (Unpack (foot_driver (X\<lparr>ft_fuel := fuel\<rparr>) ?t)))
      (foot_driver (X\<lparr>ft_fuel := fuel\<rparr>) ?t) handle ?limit ?exclude ((s, w1), fw) =
        (Val (add_env (ic_Env config) bundle_runtime_spec, None), (sw', fw'))"
    and log: "logs ?t (cs @ create_calls handle (limit_of_bundle ?limit ?exclude ?contents) (stack_layers ?contents)) fw'"
    using create_with_foot [where layers = "stack_layers ?contents", unfolded stack_layers_simps, OF p log1 assms(16,18) fits(1,2)]
    by blast
  let ?w' = "snd (snd (CloseFetcher ?F sw'))"
  have "foot_main E C (X\<lparr>ft_fuel := fuel\<rparr>) store argv (w, fw) = (Val (0, [json @ newline]), (?w', fw'))"
    if "least \<le> fuel" for fuel
    using that c s(1) assms(1,2,5,14,15)
    by (simp add: foot_main_def run_def run_action_def create_action_def validate_args_def with_source_def with_fetcher_def
        create_body_def json_encode_def closing_def exit_with_def)
  with log show ?thesis by blast
qed

text \<open>
  C1: The program succeeds on valid input.  For the \<open>create\<close> command with a \<open>docker\<close> URL of a host
  and a path in which nothing is escaped, when the configuration can be read, the registry publishes an image under the reference of the URL
  that fits the disk limit and is out only briefly, and files and driver do not fail, the binary
  with the test driver exits with status 0, with enough fuel for its reads, and prints exactly the specification of the bundle with the
  environment of the image; the driver's logs have grown by one unpacking for each layer with its
  content, the bundle of all of them with what is left of the limit, and the size of the image.
  (The earlier calls in the logs have numbers that \<^verbatim>\<open>json\<close> reads back exactly.)
\<close>

theorem docker_image_is_created:
  assumes "parse_args C argv = Dispatch configPath (Invoke CreateCommand ctx)"
    and "ctx_Args ctx = [''docker://'' @ host @ path, handle]" "plain_host host" "plain_image_path path"
    and "before E (yaml_unmarshal C) configPath w = (Val (Inr (conf, logger)), w1)"
    and "transport E ''docker'' = Some parse" "parse (image_reference host path) = Inr ref"
    and "offers E out (registry_context conf ctx host) ref img config (map snd blobs)"
    and "publishes E out ref img config blobs" "brief out"
    and "fits_limit (ctx_Int64 ctx ''disk-limit-size-bytes'') (ctx_Bool ctx ''exclude-image-from-quota'') img (map snd blobs)"
    and "calm_files E w" "wf_world w"
    and "json_spec C (add_env (ic_Env config) bundle_runtime_spec) = Inr json" "stdout_fault C = None"
    and "no_faults X" "logs \<lparr>BaseDir = store argv\<rparr> cs fw" "list_all (exact_json \<circ> json_of_call) cs"
    and "\<forall>bc \<in> set blobs. \<forall>k \<le> length (snd bc). k + 1 + ft_grow X k < 2 ^ 63"
  shows "\<exists>least w' fw'. (\<forall>fuel \<ge> least.
      foot_main E C (X\<lparr>ft_fuel := fuel\<rparr>) store argv (w, fw) = (Val (0, [json @ newline]), (w', fw'))) \<and>
    logs \<lparr>BaseDir = store argv\<rparr>
      (cs @ create_calls handle (limit_of_bundle (ctx_Int64 ctx ''disk-limit-size-bytes'')
         (ctx_Bool ctx ''exclude-image-from-quota'') (map snd blobs)) (stack_layers (map snd blobs))) fw'"
  using assms by (rule docker_image_created)

text \<open>The instance: the image of two layers, with a disk limit of five bytes.\<close>

definition limited_ctx :: "string list \<Rightarrow> cli_context" where
  "limited_ctx args = \<lparr>ctx_Args = args, ctx_Flags = [(''disk-limit-size-bytes'', Int64Flag 5)]\<rparr>"

lemma limited_ctx_simps [simp]:
  "ctx_Args (limited_ctx args) = args" "ctx_Int64 (limited_ctx args) ''disk-limit-size-bytes'' = 5"
  "\<not> ctx_Bool (limited_ctx args) name"
  by (simp_all add: limited_ctx_def ctx_Int64_def ctx_Bool_def)

definition limited_cli :: cli_env where
  "limited_cli = sample_cli (Dispatch '''' (Invoke CreateCommand (limited_ctx [''docker://'' @ ''registry'' @ ''/image'', ''h''])))"

lemma limited_ready:
  "parse_args limited_cli [] =
     Dispatch '''' (Invoke CreateCommand (limited_ctx [''docker://'' @ ''registry'' @ ''/image'', ''h'']))"
  "ctx_Args (limited_ctx [''docker://'' @ ''registry'' @ ''/image'', ''h'']) = [''docker://'' @ ''registry'' @ ''/image'', ''h'']"
  "plain_host ''registry''" "plain_image_path ''/image''"
  "before (two_layer_env mimetype) (yaml_unmarshal limited_cli) '''' sample_world =
     (Val (Inr (\<lparr>LogLevel = ''info'', InsecureRegistries = []\<rparr>, INFO)), sample_world)"
  "transport (two_layer_env mimetype) ''docker'' = Some Inr"
  "(Inr (image_reference ''registry'' ''/image'') :: string res) = Inr (image_reference ''registry'' ''/image'')"
proof -
  show "plain_host ''registry''" "plain_image_path ''/image''" by code_simp+
qed (simp_all add: limited_cli_def two_layer_env_def sample_env_def)

lemma limited_fits:
  "fits_limit (ctx_Int64 (limited_ctx args) ''disk-limit-size-bytes'')
     (ctx_Bool (limited_ctx args) ''exclude-image-from-quota'') two_layer_image
     (map snd [(sample_stream [1, 2], [1, 2]), (sample_stream [3], [3])])"
  "calm_files (two_layer_env mimetype) sample_world" "wf_world sample_world"
  "json_spec limited_cli (add_env (ic_Env two_layer_config) bundle_runtime_spec) = Inr ''foot-rootfs-path''"
  "stdout_fault limited_cli = None" "no_faults calm_env" "logs t [] fresh_foot" "list_all (exact_json \<circ> json_of_call) []"
  by (simp_all add: fits_limit_def two_layer_image_def limited_cli_def add_env_def two_layer_config_def
      bundle_runtime_spec_def two_layer_calm)

lemma limited_calls:
  "create_calls ''h'' (limit_of_bundle (ctx_Int64 (limited_ctx args) ''disk-limit-size-bytes'')
     (ctx_Bool (limited_ctx args) ''exclude-image-from-quota'') [[1, 2], [3]]) (stack_layers [[1, 2], [3]]) =
   unpack_calls [] (stack_layers [[1, 2], [3]]) @
     [BundleCall \<lparr>ba_ID = ''h'', ba_LayerIDs = stack_ids [[1, 2], [3]], ba_DiskLimit = 2\<rparr>,
      WriteMetadataCall \<lparr>wa_ID = ''h'', wa_VolumeData = \<lparr>im_Size = 3\<rparr>\<rparr>]"
  by (simp add: create_calls_def limit_of_bundle_def)

lemma limited_run:
  "\<exists>fuel w' fw'. foot_main (two_layer_env mimetype) limited_cli (calm_env\<lparr>ft_fuel := fuel\<rparr>) (\<lambda>_. ''/store'') []
     (sample_world, fresh_foot) = (Val (0, [''foot-rootfs-path'' @ newline]), (w', fw'))"
  using docker_image_created [OF limited_ready two_layer_offers(2) two_layer_publishes missed_brief limited_fits two_layer_calm(2)]
    order_refl by blast

theorem docker_image_is_created_witness:
  "\<exists>fuel w' fw'. foot_main (two_layer_env DockerV2Schema2MediaType) limited_cli (calm_env\<lparr>ft_fuel := fuel\<rparr>) (\<lambda>_. ''/store'') []
       (sample_world, fresh_foot) = (Val (0, [''foot-rootfs-path'' @ newline]), (w', fw')) \<and>
     logs \<lparr>BaseDir = ''/store''\<rparr>
       (unpack_calls [] (stack_layers [[1, 2], [3]]) @
        [BundleCall \<lparr>ba_ID = ''h'', ba_LayerIDs = stack_ids [[1, 2], [3]], ba_DiskLimit = 2\<rparr>,
         WriteMetadataCall \<lparr>wa_ID = ''h'', wa_VolumeData = \<lparr>im_Size = 3\<rparr>\<rparr>]) fw'"
proof -
  let ?store = "\<lambda>_ :: string list. ''/store''" and ?ctx = "limited_ctx [''docker://'' @ ''registry'' @ ''/image'', ''h'']"
  from docker_image_is_created [OF limited_ready two_layer_offers(2) two_layer_publishes missed_brief limited_fits two_layer_calm(2), of DockerV2Schema2MediaType ?store]
  obtain least w' fw' where
    run: "\<forall>fuel \<ge> least. foot_main (two_layer_env DockerV2Schema2MediaType) limited_cli (calm_env\<lparr>ft_fuel := fuel\<rparr>) ?store [] (sample_world, fresh_foot) =
      (Val (0, [''foot-rootfs-path'' @ newline]), (w', fw'))"
    and logs: "logs \<lparr>BaseDir = ''/store''\<rparr> ([] @ create_calls ''h''
      (limit_of_bundle (ctx_Int64 ?ctx ''disk-limit-size-bytes'') (ctx_Bool ?ctx ''exclude-image-from-quota'') [[1, 2], [3]])
      (stack_layers [[1, 2], [3]])) fw'" by auto
  show ?thesis using run logs [unfolded limited_calls append_Nil] order_refl by blast
qed

section \<open>Pulling from a registry\<close>

text \<open>
  C7: A valid image of any size is pulled.  For the \<open>pull\<close> command with the URL of an image in a
  registry or in a local layout (\<open>docker\<close> or \<open>oci\<close>), when the image is published under the reference
  of the URL, with a manifest of either schema, and the registry is out only briefly (any of its
  calls that the program retries may fail, but of four calls in a row at most two), and files and
  driver do not fail, the binary with the test driver exits with status 0 with enough fuel for its
  reads and prints nothing; the driver's logs have grown by one unpacking for each layer, the lowest
  first, with exactly its content, under the chain IDs of the stack of contents.
\<close>

theorem registry_image_is_pulled:
  assumes "parse_args C argv = Dispatch configPath (Invoke PullCommand ctx)" "declared_flags_only C"
    and "length (ctx_Args ctx) = 1"
    and "before E (yaml_unmarshal C) configPath w = (Val (Inr (conf, logger)), w1)"
    and "context_fetcher conf ctx = Inr (RegistryImage s)" "reference E s = Val (Inr ref)"
    and "offers E out (systemContext s) ref img config (map snd blobs)" "publishes E out ref img config blobs" "brief out"
    and "calm_files E w" "wf_world w" "no_faults X" "logs \<lparr>BaseDir = store argv\<rparr> cs fw"
    and "\<forall>bc \<in> set blobs. \<forall>k \<le> length (snd bc). k + 1 + ft_grow X k < 2 ^ 63"
  shows "\<exists>least w' fw'. (\<forall>fuel \<ge> least.
      foot_main E C (X\<lparr>ft_fuel := fuel\<rparr>) store argv (w, fw) = (Val (0, []), (w', fw'))) \<and>
    logs \<lparr>BaseDir = store argv\<rparr> (cs @ unpack_calls [] (stack_layers (map snd blobs))) fw'"
proof -
  let ?t = "\<lparr>BaseDir = store argv\<rparr>" and ?F = "registry_fetcher E"
  have w1: "quiet w w1" using before_no_trace [OF assms(4,11)] by (simp add: no_trace_def)
  note calm = calm_files_quiet [OF assms(10) w1] and wf = quiet_wf [OF w1 assms(11)]
  have s: "imageSource s = None" "within_quota s (concat (map snd blobs))"
    using context_fetcher_fresh [OF assms(5)] pull_command_has_no_limit [OF assms(2,1,5)]
    by (simp_all add: within_quota_def)
  have "within_limit \<lparr>DiskLimit = 0, ExcludeImageFromQuota = False\<rparr> img" by (simp add: within_limit_def)
  from published_image_pulled [OF assms(6-8) s(1) calm wf s(2) this assms(12-14,9)]
  obtain least sw' fw' where p: "\<forall>fuel \<ge> least.
      pull ?F (foot_unpack (X\<lparr>ft_fuel := fuel\<rparr>) ?t) \<lparr>DiskLimit = 0, ExcludeImageFromQuota = False\<rparr> ((s, w1), fw) =
        (Val (Inr \<lparr>pi_Config = config, ChainIDs = stack_ids (map snd blobs),
           pi_Size = of_nat (length (concat (map snd blobs)))\<rparr>), (sw', fw'))"
    and log: "logs ?t (cs @ unpack_calls [] (stack_layers (map snd blobs))) fw'"
    by (auto simp: stack_layers_def)
  let ?w' = "snd (snd (CloseFetcher ?F sw'))"
  have "foot_main E C (X\<lparr>ft_fuel := fuel\<rparr>) store argv (w, fw) = (Val (0, []), (?w', fw'))" if "least \<le> fuel" for fuel
    using that p assms(1,3,4,5)
    by (simp add: foot_main_def run_def run_action_def pull_action_def validate_args_def with_source_def with_fetcher_def
        pull_body_def groot_pull_def closing_def exit_with_def)
  with log show ?thesis by blast
qed

text \<open>
  The instance: the image of two layers, from a registry that misses two calls out of four, and
  under a manifest of schema 1.
\<close>

theorem registry_image_is_pulled_witness:
  "\<exists>fuel w' fw'. foot_main (two_layer_env DockerV2Schema1MediaType)
       (sample_cli (Dispatch '''' (Invoke PullCommand (sample_ctx [''docker://'' @ ''registry'' @ ''/image'']))))
       (calm_env\<lparr>ft_fuel := fuel\<rparr>) (\<lambda>_. ''/store'') [] (sample_world, fresh_foot) = (Val (0, []), (w', fw')) \<and>
     logs \<lparr>BaseDir = ''/store''\<rparr> (unpack_calls [] (stack_layers [[1, 2], [3]])) fw'"
proof -
  let ?E = "two_layer_env DockerV2Schema1MediaType" and ?conf = "\<lparr>LogLevel = ''info'', InsecureRegistries = []\<rparr>"
  let ?ctx = "sample_ctx [''docker://'' @ ''registry'' @ ''/image'']"
  let ?C = "sample_cli (Dispatch '''' (Invoke PullCommand ?ctx))" and ?store = "\<lambda>_ :: string list. ''/store''"
  have flags: "declared_flags_only ?C" by (simp add: declared_flags_only_def)
  have ready: "parse_args ?C [] = Dispatch '''' (Invoke PullCommand ?ctx)" "length (ctx_Args ?ctx) = 1"
    "before ?E (yaml_unmarshal ?C) '''' sample_world = (Val (Inr (?conf, INFO)), sample_world)"
    by simp_all
  obtain s where s: "context_fetcher ?conf ?ctx = Inr (RegistryImage s)"
    "generate_ref_string ?E (imageURL s) = image_reference ''registry'' ''/image''" "Scheme (imageURL s) = ''docker''"
    using docker_fetcher [OF limited_ready(3,4), of ?ctx ?conf ?E] by auto
  have ref: "reference ?E s = Val (Inr (image_reference ''registry'' ''/image''))"
    using s(2,3) by (simp add: reference_def two_layer_env_def sample_env_def)
  from registry_image_is_pulled [OF ready(1) flags ready(2,3) s(1) ref two_layer_offers(2) two_layer_publishes missed_brief
      limited_fits(2,3,6,7) two_layer_calm(2), of ?store]
  obtain least w' fw' where
    run: "\<forall>fuel \<ge> least. foot_main ?E ?C (calm_env\<lparr>ft_fuel := fuel\<rparr>) ?store [] (sample_world, fresh_foot) = (Val (0, []), (w', fw'))"
    and logs: "logs \<lparr>BaseDir = ''/store''\<rparr> (unpack_calls [] (stack_layers [[1, 2], [3]])) fw'" by auto
  then show ?thesis using order_refl by blast
qed

end
