(* ===== verification/Sound_Runs.thy ===== *)
theory Sound_Runs
  imports Complete_Runs
begin

text \<open>
  The whole program against any registry: what a creation that reports success has done, with
  the test driver, whatever the registry has answered.
\<close>

section \<open>The calls of the driver\<close>

lemma foot_bundle_Val:
  assumes "foot_bundle X t handle ids quota fw = (Val (Inr bundle), fw')"
  shows "bundle = bundle_runtime_spec \<and>
    save_object X (json_of_call (BundleCall \<lparr>ba_ID = handle, ba_LayerIDs = ids, ba_DiskLimit = quota\<rparr>))
      (path_to t BundleArgsFileName) fw = (Val (), fw')"
  using assms by (auto simp: foot_bundle_def call_returns split: if_splits)

lemma foot_write_metadata_Val:
  assumes "foot_write_metadata X t handle meta fw = (Val None, fw')"
  shows "save_object X (json_of_call (WriteMetadataCall \<lparr>wa_ID = handle, wa_VolumeData = meta\<rparr>))
    (path_to t WriteMetadataArgsFileName) fw = (Val (), fw')"
  using assms by (auto simp: foot_write_metadata_def call_returns split: if_splits)

text \<open>The chain IDs of contents that have the diff IDs of the configuration.\<close>

lemma chain_ids_of_contents:
  assumes "create_layer_infos img config = Val lis" "map (\<lambda>c. hex_encode (sha256 c)) contents = map DiffID lis"
  shows "map ChainID lis = stack_ids contents"
proof -
  note spec = layer_infos_spec [OF assms(1)]
  have len: "length contents = length lis" using assms(2) map_eq_imp_length_eq by blast
  have hex: "hex_part (ic_DiffIDs config ! j) = hex_encode (sha256 (contents ! j))" if "j < length lis" for j
  proof (rule hex_part_of_hex)
    have "DiffID (lis ! j) = hex_encode (sha256 (contents ! j))" using assms(2) len that by (metis nth_map)
    then show "digest_hex (ic_DiffIDs config ! j) = Val (hex_encode (sha256 (contents ! j)))"
      using spec that by (auto simp: layer_info_of_def)
  qed (simp add: hex64_chars)
  have "take (Suc k) (map hex_part (ic_DiffIDs config)) = map (\<lambda>c. hex_encode (sha256 c)) (take (Suc k) contents)"
    if "k < length lis" for k
    using spec len that hex by (intro nth_equalityI) auto
  then show ?thesis using layer_chain_ids [OF assms(1)] len by (simp add: stack_ids_def)
qed

lemma image_info_layers:
  assumes "fst (lf_image_info E src sw) = Val (Inr info)"
  shows "\<exists>img. create_layer_infos img (ii_Config info) = Val (LayerInfos info)"
  using assms
  by (auto simp: lf_image_info_def attempt_def obind_def split: prod.splits outcome.splits sum.splits)

section \<open>Creating from a registry\<close>

lemma registry_source_of_context:
  assumes "context_fetcher conf ctx = Inr (RegistryImage s)"
  shows "imageSource s = None" "\<not> skipOCILayerValidation s"
    "remainingImageQuota s = ctx_Int64 ctx ''disk-limit-size-bytes''"
    "skipImageQuotaValidation s \<longleftrightarrow> ctx_Bool ctx ''exclude-image-from-quota'' \<or> ctx_Int64 ctx ''disk-limit-size-bytes'' = 0"
  using assms
  by (auto simp: context_fetcher_def create_fetcher_def new_layer_source_def should_skip_image_quota_validation_def
      split: sum.splits if_splits)

lemma foot_create_sound:
  assumes "create (pull (registry_fetcher E) (foot_unpack X t)) (foot_driver X t) handle limit exclude ((s, w), fw) =
      (Val (spec, None), (sw', fw'))"
    and "wf_world w" "imageSource s = None" "\<not> skipOCILayerValidation s" "remainingImageQuota s = limit"
    and "skipImageQuotaValidation s \<longleftrightarrow> exclude \<or> limit = 0"
    and "removes_files E" "opens_files E" "reads_files E" "\<forall>n. ft_fault X OpStat n = None"
    and "logs t cs fw" "list_all (exact_json \<circ> json_of_call) cs"
  shows "\<exists>info contents. fst (ImageInfo (registry_fetcher E) (s, w)) = Val (Inr info) \<and>
    map (\<lambda>c. hex_encode (sha256 c)) contents = map DiffID (LayerInfos info) \<and>
    (limit = 0 \<or> exclude \<or> int (length (concat contents)) < sint limit) \<and>
    spec = add_env (ic_Env (ii_Config info)) bundle_runtime_spec \<and>
    logs t (cs @ create_calls handle (limit_of_bundle limit exclude contents) (stack_layers contents)) fw'"
proof -
  let ?F = "registry_fetcher E"
  obtain img d1 quota spec1 d2 where limit: "0 \<le> sint limit"
    and p: "pull ?F (foot_unpack X t) \<lparr>DiskLimit = limit, ExcludeImageFromQuota = exclude\<rparr> ((s, w), fw) =
      (Val (Inr img), (sw', d1))"
    and b: "foot_bundle X t handle (ChainIDs img) quota d1 = (Val (Inr spec1), d2)"
    and m: "foot_write_metadata X t handle \<lparr>im_Size = pi_Size img\<rparr> d2 = (Val None, fw')"
    and spec: "spec = add_env (ic_Env (pi_Config img)) spec1"
    and quota: "if limit = 0 \<or> exclude then quota = limit else quota = limit - pi_Size img \<and> 0 < sint quota"
    using create_success [OF assms(1)] by auto
  obtain s' w' where sw': "sw' = (s', w')" by fastforce
  obtain info contents where info: "fst (ImageInfo ?F (s, w)) = Val (Inr info)" "pi_Config img = ii_Config info"
    "ChainIDs img = map ChainID (LayerInfos info)"
    and hash: "map (\<lambda>c. hex_encode (sha256 c)) contents = map DiffID (LayerInfos info)"
    and saved: "saves X t (unpack_calls [] (zip (ChainIDs img) contents)) fw d1"
    and size: "pi_Size img = of_nat (length (concat contents))"
    and within: "\<not> skipImageQuotaValidation s \<and> 0 \<le> sint (remainingImageQuota s) \<longrightarrow>
       int (length (concat contents)) \<le> sint (remainingImageQuota s)"
    using registry_pull_verified [OF p [unfolded sw'] assms(2-4,7-9), folded length_concat] by blast
  have ids: "ChainIDs img = stack_ids contents"
    using image_info_layers info(1,3) chain_ids_of_contents hash by fastforce
  let ?us = "unpack_calls [] (stack_layers contents)"
  have "list_all (exact_json \<circ> json_of_call) ?us" by (auto simp: list_all_iff dest: unpack_calls_log unpack_log_exact)
  then have exact: "list_all (exact_json \<circ> json_of_call) (cs @ ?us)" using assms(12) by simp
  have l1: "logs t (cs @ ?us) d1" using saves_logs [OF saved [unfolded ids, folded stack_layers_def] assms(10,11) exact] .
  have l2: "logs t ((cs @ ?us) @ [BundleCall \<lparr>ba_ID = handle, ba_LayerIDs = ChainIDs img, ba_DiskLimit = quota\<rparr>]) d2"
    using foot_bundle_Val [OF b] exact by (intro save_logs_Val [OF _ assms(10) l1]) (auto simp: list_all_iff)
  have l3: "logs t (((cs @ ?us) @ [BundleCall \<lparr>ba_ID = handle, ba_LayerIDs = ChainIDs img, ba_DiskLimit = quota\<rparr>]) @
      [WriteMetadataCall \<lparr>wa_ID = handle, wa_VolumeData = \<lparr>im_Size = pi_Size img\<rparr>\<rparr>]) fw'"
    using foot_write_metadata_Val [OF m] exact
    by (intro save_logs_Val [OF _ assms(10) l2]) (auto simp: list_all_iff log_names)
  have "quota = limit_of_bundle limit exclude contents" using quota size by (simp add: limit_of_bundle_def split: if_splits)
  moreover have "int (length (concat contents)) < sint limit" if counted: "\<not> (limit = 0 \<or> exclude)"
  proof -
    have "int (length (concat contents)) \<le> sint limit" using within counted assms(5,6) limit by simp
    moreover from this have "sint quota = sint limit - int (length (concat contents))"
      using quota counted size sint_quota_left [of "concat contents" limit] by simp
    moreover have "0 < sint quota" using quota counted by (auto split: if_splits)
    ultimately show ?thesis by simp
  qed
  ultimately show ?thesis
    using info hash spec l3 ids size foot_bundle_Val [OF b]
    by (intro exI [of _ info] exI [of _ contents]) (auto simp: create_calls_def)
qed

text \<open>
  C2: A success is never reported for anything but the image.  Where opening, reading and
  removing files do not fail and the earlier calls in the driver's logs have numbers that
  \<^verbatim>\<open>json\<close> reads back exactly: whatever the registry answers, when the \<open>create\<close> command for an image in a registry exits with status 0, the driver's
  logs have grown by exactly one unpacking for each layer of the image's manifest, each on top of
  the ones before it and with contents that have the digest of the image's configuration, by one
  bundle of these layers with what is left of the disk limit, and by the record of their size;
  what was printed is the bundle's specification with the environment of that configuration, and
  an image that counts is smaller than the limit.
\<close>

theorem created_image_is_verified:
  assumes "foot_main E C X store argv (w, fw) = (Val (0, out), (w', fw'))"
    and "parse_args C argv = Dispatch configPath (Invoke CreateCommand ctx)"
    and "before E (yaml_unmarshal C) configPath w = (Val (Inr (conf, logger)), w1)"
    and "context_fetcher conf ctx = Inr (RegistryImage s)"
    and "wf_world w" "removes_files E" "opens_files E" "reads_files E" "\<forall>n. ft_fault X OpStat n = None"
    and "logs \<lparr>BaseDir = store argv\<rparr> cs fw" "list_all (exact_json \<circ> json_of_call) cs"
    and "limit = ctx_Int64 ctx ''disk-limit-size-bytes''" "exclude = ctx_Bool ctx ''exclude-image-from-quota''"
  shows "\<exists>info contents json. fst (ImageInfo (registry_fetcher E) (s, w1)) = Val (Inr info) \<and>
    map (\<lambda>c. hex_encode (sha256 c)) contents = map DiffID (LayerInfos info) \<and>
    (limit = 0 \<or> exclude \<or> int (length (concat contents)) < sint limit) \<and>
    json_spec C (add_env (ic_Env (ii_Config info)) bundle_runtime_spec) = Inr json \<and> out = [json @ newline] \<and>
    logs \<lparr>BaseDir = store argv\<rparr> (cs @ create_calls (ctx_Args ctx ! 1) (limit_of_bundle limit exclude contents) (stack_layers contents)) fw'"
proof -
  let ?t = "\<lparr>BaseDir = store argv\<rparr>" and ?F = "registry_fetcher E"
  let ?D = "foot_driver X \<lparr>BaseDir = store argv\<rparr>"
  obtain conf' logger' w1' out' where "before E (yaml_unmarshal C) configPath w = (Val (Inr (conf', logger')), w1')"
    and "run_action E C ?D conf' CreateCommand ctx (w1', fw) = (Val (out', None), (w', fw'))" and out: "out = printed C out'"
    by (rule run_Invoke [OF assms(1) [unfolded foot_main_def] assms(2)]) simp_all
  with assms(3) have "create_action E C ?D conf ctx (w1, fw) = (Val (out', None), (w', fw'))"
    by (simp add: run_action_def)
  then obtain s' where "with_fetcher ?F ?D (create_body C ?D ctx) ((s, w1), fw) = (Val (out', None), ((s', w'), fw'))"
    using assms(4) by (auto simp: create_action_def with_source_Val split: option.splits)
  then obtain spec json sw1 where c: "create (pull ?F (foot_unpack X ?t)) ?D (ctx_Args ctx ! 1) limit exclude ((s, w1), fw) =
      (Val (spec, None), (sw1, fw'))" "json_spec C spec = Inr json" "out = [json @ newline]"
    using assms(12,13) out by (auto elim: with_fetcher_create)
  have w1: "wf_world w1" using before_no_trace [OF assms(3,5)] quiet_wf assms(5) by (auto simp: no_trace_def)
  note src = registry_source_of_context [OF assms(4), folded assms(12,13)]
  from foot_create_sound [OF c(1) w1 src assms(6-11)] c(2,3) show ?thesis by blast
qed

text \<open>The instance: the image of two layers, created with a limit of five bytes.\<close>

theorem created_image_is_verified_witness:
  "\<exists>fuel w' fw' s info contents.
     foot_main (two_layer_env DockerV2Schema2MediaType) limited_cli (calm_env\<lparr>ft_fuel := fuel\<rparr>) (\<lambda>_. ''/store'') [] (sample_world, fresh_foot) =
       (Val (0, [''foot-rootfs-path'' @ newline]), (w', fw')) \<and>
     fst (ImageInfo (registry_fetcher (two_layer_env DockerV2Schema2MediaType)) (s, sample_world)) = Val (Inr info) \<and>
     map (\<lambda>c. hex_encode (sha256 c)) contents = map DiffID (LayerInfos info) \<and> length (concat contents) < 5 \<and>
     logs \<lparr>BaseDir = ''/store''\<rparr> (create_calls ''h'' (5 - of_nat (length (concat contents))) (stack_layers contents)) fw'"
proof -
  let ?ctx = "limited_ctx [''docker://'' @ ''registry'' @ ''/image'', ''h'']" and ?store = "\<lambda>_ :: string list. ''/store''"
  let ?t = "\<lparr>BaseDir = ''/store''\<rparr>"
  obtain fuel w' fw' where run: "foot_main (two_layer_env DockerV2Schema2MediaType) limited_cli (calm_env\<lparr>ft_fuel := fuel\<rparr>) ?store [] (sample_world, fresh_foot) =
      (Val (0, [''foot-rootfs-path'' @ newline]), (w', fw'))"
    using limited_run by blast
  obtain s where s: "context_fetcher \<lparr>LogLevel = ''info'', InsecureRegistries = []\<rparr> ?ctx = Inr (RegistryImage s)"
    using docker_fetcher [OF limited_ready(3,4), of ?ctx "\<lparr>LogLevel = ''info'', InsecureRegistries = []\<rparr>" "two_layer_env DockerV2Schema2MediaType"] by auto
  have "\<forall>n. ft_fault (calm_env\<lparr>ft_fuel := fuel\<rparr>) OpStat n = None" by simp
  from created_image_is_verified [OF run limited_ready(1,5) s limited_fits(3) calm_files_simps [OF limited_fits(2)] this
      limited_fits(7,8) refl refl]
  obtain info contents where r: "fst (ImageInfo (registry_fetcher (two_layer_env DockerV2Schema2MediaType)) (s, sample_world)) = Val (Inr info)"
    "map (\<lambda>c. hex_encode (sha256 c)) contents = map DiffID (LayerInfos info)" "length (concat contents) < 5"
    "logs ?t (create_calls ''h'' (limit_of_bundle 5 False contents) (stack_layers contents)) fw'"
    by auto
  then have "logs ?t (create_calls ''h'' (5 - of_nat (length (concat contents))) (stack_layers contents)) fw'"
    by (simp add: limit_of_bundle_def)
  with run r(1-3) show ?thesis by blast
qed

end
