(* ===== verification/Refused_Runs.thy ===== *)
theory Refused_Runs
  imports Complete_Runs
begin

text \<open>
  Images that are refused for their size: a \<open>create\<close> command whose image is larger than the disk
  limit according to its manifest.
\<close>

text \<open>The size of an image as its manifest has it, and the sum that the puller computes.\<close>

definition manifest_size :: "image \<Rightarrow> int" where
  "manifest_size img = sum_list (map (\<lambda>info. sint (bi_Size info)) (im_LayerInfos img))"

lemma manifest_sizes:
  assumes "create_layer_infos img config = Val lis" "\<forall>info \<in> set (im_LayerInfos img). 0 \<le> sint (bi_Size info)"
  shows "\<forall>li \<in> set lis. 0 \<le> sint (Size li)" "sum_list (map (\<lambda>li. sint (Size li)) lis) = manifest_size img"
proof -
  note spec = layer_infos_spec [OF assms(1)]
  have sizes: "map Size lis = map bi_Size (im_LayerInfos img)"
    using spec by (auto simp: layer_info_of_def intro!: nth_equalityI)
  show "\<forall>li \<in> set lis. 0 \<le> sint (Size li)"
    using sizes assms(2) by (metis (no_types, lifting) image_iff list.set_map)
  show "sum_list (map (\<lambda>li. sint (Size li)) lis) = manifest_size img"
    using arg_cong [OF sizes, of "\<lambda>xs. sum_list (map sint xs)"] by (simp add: manifest_size_def comp_def)
qed

text \<open>
  C28: An oversized image is refused.  When the \<open>create\<close> command has a disk limit that counts the
  image, and the manifest that the registry offers (it may be out briefly) promises more bytes than
  the limit, in sizes that are not negative and within 63 bits together, the program prints the
  error that names both numbers (on a standard output that can be written) and exits with status 1; the driver is never called.
\<close>

theorem oversized_image_is_refused:
  assumes "parse_args C argv = Dispatch path (Invoke CreateCommand ctx)" "length (ctx_Args ctx) = 2"
    and "before E (yaml_unmarshal C) path w = (Val (Inr (conf, logger)), w1)"
    and "context_fetcher conf ctx = Inr (RegistryImage s)" "reference E s = Val (Inr ref)"
    and "offers E out (systemContext s) ref img config contents" "brief out" "create_layer_infos img config = Val lis"
    and "\<forall>info \<in> set (im_LayerInfos img). 0 \<le> sint (bi_Size info)" "manifest_size img < 2 ^ 63"
    and "\<not> ctx_Bool ctx ''exclude-image-from-quota''" "0 < sint (ctx_Int64 ctx ''disk-limit-size-bytes'')"
    and "sint (ctx_Int64 ctx ''disk-limit-size-bytes'') < manifest_size img"
  shows "\<exists>w'. run E C D argv (w, d) =
    (Val (1, printed C [''pulling image: layers exceed disk quota '' @ show_int (manifest_size img) @ ''/'' @
       show_int64 (ctx_Int64 ctx ''disk-limit-size-bytes'') @ '' bytes'' @ newline]), (w', d))"
proof -
  let ?limit = "ctx_Int64 ctx ''disk-limit-size-bytes''" and ?s = "s\<lparr>imageSource := Some ref\<rparr>"
  let ?spec = "\<lparr>DiskLimit = ?limit, ExcludeImageFromQuota = False\<rparr>"
  let ?m = "''layers exceed disk quota '' @ show_int (manifest_size img) @ ''/'' @ show_int64 ?limit @ '' bytes''"
  have "imageSource s = None" using context_fetcher_fresh [OF assms(4)] ..
  then obtain w2 where info: "ImageInfo (registry_fetcher E) (s, w1) = (Val (Inr \<lparr>LayerInfos = lis, ii_Config = config\<rparr>), (?s, w2))"
    using offered_manifest [OF assms(5-7) _ assms(8)] by auto
  note sizes = manifest_sizes [OF assms(8,9)]
  have "?limit \<noteq> 0" using assms(12) by auto
  then have "pull (registry_fetcher E) (Unpack D) ?spec ((s, w1), d) = (Val (Inl (ErrNew ?m)), ((?s, w2), d))"
    using pull_rejects_large_manifest [OF info, of ?spec] layers_size_sum [of lis] sizes assms(10,13)
    by (simp add: show_int64_def)
  then have "run_action E C D conf CreateCommand ctx (w1, d) =
      (Val ([], Some (ErrWrap ''pulling image'' (ErrNew ?m))), (snd (snd (CloseFetcher (registry_fetcher E) (?s, w2))), d))"
    using assms(2,4,11,12) by (simp add: run_action_def create_action_def validate_args_def with_source_def with_fetcher_def
        create_body_def create_def closing_def)
  with assms(1,3) show ?thesis by (simp add: run_def exit_with_def is_silent_def)
qed

text \<open>The instance: a layer of six bytes, and a limit of five.\<close>

theorem oversized_image_is_refused_witness:
  "\<exists>w'. run (honest_env [1, 2, 3, 4, 5, 6]) limited_cli (counting_driver None) [] (sample_world, 0) =
     (Val (1, [''pulling image: layers exceed disk quota 6/5 bytes'' @ newline]), (w', 0))"
proof -
  let ?c = "[1, 2, 3, 4, 5, 6] :: bytes"
  let ?E = "honest_env ?c" and ?img = "sample_image ?c" and ?config = "sample_config ?c"
  let ?conf = "\<lparr>LogLevel = ''info'', InsecureRegistries = []\<rparr>"
  let ?ctx = "limited_ctx [''docker://'' @ ''registry'' @ ''/image'', ''h'']"
  obtain s where s: "context_fetcher ?conf ?ctx = Inr (RegistryImage s)" "Scheme (imageURL s) = ''docker''"
    "generate_ref_string ?E (imageURL s) = image_reference ''registry'' ''/image''"
    using docker_fetcher [OF limited_ready(3,4), of ?ctx ?conf ?E] by auto
  have before: "before ?E (yaml_unmarshal limited_cli) '''' sample_world = (Val (Inr (?conf, INFO)), sample_world)"
    by (simp add: limited_cli_def)
  have ref: "reference ?E s = Val (Inr (image_reference ''registry'' ''/image''))"
    using s(2,3) by (simp add: reference_def)
  have offer: "offers ?E (\<lambda>_. False) (systemContext s) (image_reference ''registry'' ''/image'') ?img ?config []"
    by (simp add: offers_def offers_manifest_def answers_def schema1_def DockerV2Schema2MediaType_def
        DockerV2Schema1MediaType_def DockerV2Schema1SignedMediaType_def)
  have size: "manifest_size ?img = 6" "\<forall>info \<in> set (im_LayerInfos ?img). 0 \<le> sint (bi_Size info)"
    by (simp_all add: manifest_size_def sample_image_def)
  have digits: "show_int 6 = ''6''" "show_int64 5 = ''5''" by code_simp+
  from oversized_image_is_refused [OF limited_ready(1) _ before s(1) ref offer _ sample_infos size(2), of "counting_driver None" 0]
  moreover have "stdout_fault limited_cli = None" by (simp add: limited_cli_def)
  ultimately show ?thesis by (simp add: size(1) digits brief_def)
qed

end
