(* ===== verification/Local_Runs.thy ===== *)
theory Local_Runs
  imports Complete_Runs
begin

text \<open>
  The whole program on a local tar file: from the command line of the binary with the test driver
  to its exit status.
\<close>

text \<open>The one layer of a local file.\<close>

definition file_layer :: "string \<Rightarrow> os_file \<Rightarrow> string \<times> bytes" where
  "file_layer p f = (generate_chain_id p (f_mtime f), f_content f)"

lemma local_image_pulled:
  assumes "fs w p = Some f" "\<not> f_isdir f" "\<forall>op t. os_fault E op t = None"
    and "\<forall>k \<le> length (f_content f). k + 1 + ft_grow X k < 2 ^ 63"
    and "ExcludeImageFromQuota spec \<or> DiskLimit spec = 0 \<or>
      sint (of_nat (length (f_content f)) :: int64) \<le> sint (DiskLimit spec)"
    and "no_faults X" "logs t cs fw"
  shows "\<exists>least w' fw'. (\<forall>fuel \<ge> least.
      pull (file_fetcher E p) (foot_unpack (X\<lparr>ft_fuel := fuel\<rparr>) t) spec (w, fw) =
        (Val (Inr \<lparr>pi_Config = empty_config, ChainIDs = [fst (file_layer p f)],
           pi_Size = of_nat (length (snd (file_layer p f)))\<rparr>), (w', fw'))) \<and>
    logs t (cs @ unpack_calls [] [file_layer p f]) fw'"
proof -
  let ?F = "file_fetcher E p"
  obtain li w1 fd w2 w3 where info: "ImageInfo ?F w = (Val (Inr \<lparr>LayerInfos = [li], ii_Config = empty_config\<rparr>), w1)"
    and li: "Size li = of_nat (length (f_content f))" "ChainID li = generate_chain_id p (f_mtime f)"
    and stream: "StreamBlob ?F li w1 = (Val (Inr (fd, 0)), w2)"
    and all: "io_read_all (ft_grow X) (ReadStream ?F fd) w2 = (Val (f_content f, None), w3)"
    using local_image_is_streamed [OF assms(1-4)] by blast
  let ?call = "UnpackCall \<lparr>ua_ID = ChainID li, ua_ParentIDs = [], ua_LayerTarContents = f_content f\<rparr>"
  have ready: "''FOOT_UNPACK_ERROR'' \<notin> set (ft_vars fw)" "decodable (path_to t UnpackArgsFileName) fw"
    using assms(7) by (simp_all add: logs_def) (metis log_of_call.simps(1))
  obtain least fw' where b: "\<forall>fuel \<ge> least. build_layer ?F (foot_unpack (X\<lparr>ft_fuel := fuel\<rparr>) t) li [] (w1, fw) =
      (Val (Inr (of_nat (length (f_content f)))), (snd (CloseStream ?F fd w3), fw'))"
    and save: "save_object X (json_of_call ?call) (path_to t (log_of_call ?call)) fw = (Val (), fw')"
    using foot_build_layer_succeeds [OF stream all assms(6) ready, of "[]"] by auto
  have "\<forall>n. ft_fault X OpStat n = None" using assms(6) by (simp add: no_faults_def)
  from save_logs_Val [OF save this assms(7)] have "logs t (cs @ [?call]) fw'"
    using unpack_log_exact by simp
  moreover have "quota_exceeded [li] spec = None"
    using assms(5) li(1) by (auto simp: quota_exceeded_def layers_size_def)
  ultimately show ?thesis
    using info b li
    by (intro exI [of _ least] exI [of _ "snd (CloseStream ?F fd w3)"] exI [of _ fw'])
      (simp add: pull_def build_layers_def chain_ids_def file_layer_def)
qed

lemma local_context_fetcher:
  assumes "plain_path p" "ctx_Args ctx ! 0 = p"
  shows "context_fetcher conf ctx = Inr (LocalImage p)"
  using plain_path_reaches_fetcher [OF assms(1)] assms(2)
  by (auto simp: context_fetcher_def create_fetcher_def)

text \<open>
  C30: The program succeeds on a local image.  For the \<open>create\<close> command with the absolute path of
  a regular file, in characters that a URL leaves as they are, which is smaller than the disk
  limit where that counts the image, when the configuration can be read and nothing fails, the
  binary with the test driver exits with status 0, with enough fuel for its reads, and prints the
  specification of the bundle; the driver's logs have grown by one unpacking, of the file's bytes
  under the checksum of its path and modification time, by the bundle of this layer with what is
  left of the limit, and by the size of the file.
\<close>

theorem local_image_is_created:
  assumes "parse_args C argv = Dispatch configPath (Invoke CreateCommand ctx)" "ctx_Args ctx = [path, handle]" "plain_path path"
    and "before E (yaml_unmarshal C) configPath w = (Val (Inr (conf, logger)), w1)"
    and "fs w path = Some f" "\<not> f_isdir f" "\<forall>op t. os_fault E op t = None" "wf_world w"
    and "limit = ctx_Int64 ctx ''disk-limit-size-bytes''" "exclude = ctx_Bool ctx ''exclude-image-from-quota''"
    and "0 \<le> sint limit" "limit = 0 \<or> exclude \<or> int (length (f_content f)) < sint limit"
    and "json_spec C (add_env [] bundle_runtime_spec) = Inr json" "stdout_fault C = None"
    and "no_faults X" "logs \<lparr>BaseDir = store argv\<rparr> cs fw" "list_all (exact_json \<circ> json_of_call) cs"
    and "\<forall>k \<le> length (f_content f). k + 1 + ft_grow X k < 2 ^ 63"
  shows "\<exists>least w' fw'. (\<forall>fuel \<ge> least.
      foot_main E C (X\<lparr>ft_fuel := fuel\<rparr>) store argv (w, fw) = (Val (0, [json @ newline]), (w', fw'))) \<and>
    logs \<lparr>BaseDir = store argv\<rparr>
      (cs @ create_calls handle (limit_of_bundle limit exclude [f_content f]) [file_layer path f]) fw'"
proof -
  let ?t = "\<lparr>BaseDir = store argv\<rparr>" and ?F = "file_fetcher E path" and ?layers = "[file_layer path f]"
  have "quiet w w1" using before_no_trace [OF assms(4,8)] by (simp add: no_trace_def)
  then have f: "fs w1 path = Some f" using assms(5) by (simp add: quiet_def)
  have within: "exclude \<or> limit = 0 \<or> sint (of_nat (length (f_content f)) :: int64) \<le> sint limit"
  proof -
    have "sint (of_nat (length (f_content f)) :: int64) = int (length (f_content f))"
      if "int (length (f_content f)) < sint limit"
      using that sint_lt [of limit] by (intro sint_of_nat64) simp
    with assms(12) show ?thesis by auto
  qed
  let ?spec = "\<lparr>DiskLimit = limit, ExcludeImageFromQuota = exclude\<rparr>"
  obtain least w2 fw1 where p: "\<forall>fuel \<ge> least. pull ?F (foot_unpack (X\<lparr>ft_fuel := fuel\<rparr>) ?t) ?spec (w1, fw) =
      (Val (Inr \<lparr>pi_Config = empty_config, ChainIDs = map fst ?layers,
         pi_Size = of_nat (length (concat (map snd ?layers)))\<rparr>), (w2, fw1))"
    and log1: "logs ?t (cs @ unpack_calls [] ?layers) fw1"
    using local_image_pulled [where spec = ?spec, OF f assms(6,7,18) _ assms(15,16)] within by auto
  have small: "limit = 0 \<or> exclude \<or> int (length (concat (map snd ?layers))) < sint limit"
    using assms(12) by (simp add: file_layer_def)
  obtain fw' where c: "\<forall>fuel \<ge> least. create (pull ?F (Unpack (foot_driver (X\<lparr>ft_fuel := fuel\<rparr>) ?t)))
      (foot_driver (X\<lparr>ft_fuel := fuel\<rparr>) ?t) handle limit exclude (w1, fw) =
        (Val (add_env (ic_Env empty_config) bundle_runtime_spec, None), (w2, fw'))"
    and log: "logs ?t (cs @ create_calls handle (limit_of_bundle limit exclude (map snd ?layers)) ?layers) fw'"
    using create_with_foot [OF p log1 assms(15,17,11) small] by blast
  note path = local_context_fetcher [OF assms(3), of ctx conf]
  have "foot_main E C (X\<lparr>ft_fuel := fuel\<rparr>) store argv (w, fw) = (Val (0, [json @ newline]), (w2, fw'))"
    if "least \<le> fuel" for fuel
    using that c path assms(1,2,4,9,10,13,14)
    by (simp add: foot_main_def run_def run_action_def create_action_def validate_args_def with_fetcher_def
        create_body_def json_encode_def closing_def exit_with_def empty_config_def)
  with log show ?thesis by (auto simp: file_layer_def)
qed

theorem local_image_is_created_witness:
  "\<exists>fuel w' fw'. foot_main (honest_env []) (sample_cli (Dispatch '''' (Invoke CreateCommand (limited_ctx [''/image.tar'', ''h'']))))
       (calm_env\<lparr>ft_fuel := fuel\<rparr>) (\<lambda>_. ''/store'') [] (file_world [1, 2, 3], fresh_foot) =
       (Val (0, [''foot-rootfs-path'' @ newline]), (w', fw')) \<and>
     logs \<lparr>BaseDir = ''/store''\<rparr>
       [UnpackCall \<lparr>ua_ID = generate_chain_id ''/image.tar'' 7, ua_ParentIDs = [], ua_LayerTarContents = [1, 2, 3]\<rparr>,
        BundleCall \<lparr>ba_ID = ''h'', ba_LayerIDs = [generate_chain_id ''/image.tar'' 7], ba_DiskLimit = 2\<rparr>,
        WriteMetadataCall \<lparr>wa_ID = ''h'', wa_VolumeData = \<lparr>im_Size = 3\<rparr>\<rparr>] fw'"
proof -
  let ?ctx = "limited_ctx [''/image.tar'', ''h'']" and ?store = "\<lambda>_ :: string list. ''/store''"
  let ?C = "sample_cli (Dispatch '''' (Invoke CreateCommand ?ctx))" and ?f = "\<lparr>f_content = [1, 2, 3], f_isdir = False, f_mtime = 7\<rparr>"
  have path: "plain_path ''/image.tar''" by code_simp
  have cmd: "parse_args ?C [] = Dispatch '''' (Invoke CreateCommand ?ctx)" "ctx_Args ?ctx = [''/image.tar'', ''h'']" by simp_all
  have before: "before (honest_env []) (yaml_unmarshal ?C) '''' (file_world [1, 2, 3]) =
      (Val (Inr (\<lparr>LogLevel = ''info'', InsecureRegistries = []\<rparr>, INFO)), file_world [1, 2, 3])" by simp
  have tar: "fs (file_world [1, 2, 3]) ''/image.tar'' = Some ?f" "\<not> f_isdir ?f" "\<forall>op t. os_fault (honest_env []) op t = None"
    "wf_world (file_world [1, 2, 3])" by simp_all
  have limit: "5 = ctx_Int64 ?ctx ''disk-limit-size-bytes''" "False = ctx_Bool ?ctx ''exclude-image-from-quota''"
    "0 \<le> sint (5 :: int64)" "(5 :: int64) = 0 \<or> False \<or> int (length (f_content ?f)) < sint (5 :: int64)" by simp_all
  have json: "json_spec ?C (add_env [] bundle_runtime_spec) = Inr ''foot-rootfs-path''" "stdout_fault ?C = None"
    by (simp_all add: add_env_def bundle_runtime_spec_def)
  have grow: "\<forall>k \<le> length (f_content ?f). k + 1 + ft_grow calm_env k < 2 ^ 63" by (simp add: calm_env_def)
  from local_image_is_created [OF cmd path before tar limit json calm_env_simps(1) logs_fresh _ grow, of ?store]
  show ?thesis by (auto simp: create_calls_def limit_of_bundle_def file_layer_def)
qed

end
