(* ===== verification/Base_Images.thy ===== *)
theory Base_Images
  imports Layer_Fetcher Sha256_Bits
begin

text \<open>
  \<^verbatim>\<open>testhelpers/base_images.go\<close>: what the tests know of published images.  The chain IDs
  that it lists for images of several layers are checksums, which the fetcher has to compute.
\<close>

record test_layer =
  tl_BlobID :: string
  tl_DiffID :: string
  tl_ChainID :: string

record test_image =
  ConfigBlobID :: string
  Layers :: "test_layer list"

definition EmptyImageV011 :: test_image where
  "EmptyImageV011 =
     \<lparr>ConfigBlobID = ''sha256:217f3b4afdf698d639f854d9c6d640903a011413bc7e7bffeabe63c7ca7e4a7d'',
      Layers =
        [\<lparr>tl_BlobID = ''sha256:47e3dd80d678c83c50cb133f4cf20e94d088f890679716c8b763418f55827a58'',
          tl_DiffID = ''sha256:afe200c63655576eaa5cabe036a2c09920d6aee67653ae75a9d35e0ec27205a5'',
          tl_ChainID = ''afe200c63655576eaa5cabe036a2c09920d6aee67653ae75a9d35e0ec27205a5''\<rparr>,
         \<lparr>tl_BlobID = ''sha256:7f2760e7451ce455121932b178501d60e651f000c3ab3bc12ae5d1f57614cc76'',
          tl_DiffID = ''sha256:d7c6a5f0d9a15779521094fa5eaf026b719984fb4bfe8e0012bd1da1b62615b0'',
          tl_ChainID = ''9242945d3c9c7cf5f127f9352fea38b1d3efe62ee76e25f70a3e6db63a14c233''\<rparr>]\<rparr>"

definition SchemaV1EmptyImage :: test_image where
  "SchemaV1EmptyImage =
     \<lparr>ConfigBlobID = ''sha256:673ffd41d87662c55979a69fa65390552c5d9ace57ad81fb8edb732c3e93e483'',
      Layers =
        [\<lparr>tl_BlobID = ''sha256:52654756942eb47cd5e803d9d5905f2f5e8045f3794eed727dee5734ff485771'',
          tl_DiffID = ''sha256:5b9746c87396a8cff11e5cbfa37321018bb797fcf0b4404615e713337ea1c62b'',
          tl_ChainID = ''5b9746c87396a8cff11e5cbfa37321018bb797fcf0b4404615e713337ea1c62b''\<rparr>,
         \<lparr>tl_BlobID = ''sha256:64df864e75bb2dea96b726cff208ce7ee8125901dfc11e53479534519735c8e4'',
          tl_DiffID = ''sha256:eb639428f6fd1693228c64a7474bd6302c7ebd06404c7092dd3d5187ba4fdddf'',
          tl_ChainID = ''5726c173a767b58badc677d61d0e45df09f0d923f9770210f9a88607e1386e2b''\<rparr>,
         \<lparr>tl_BlobID = ''sha256:a3ed95caeb02ffe68cdd9fd84406680ae93d633cb16422d00e8a7c22955b46d4'',
          tl_DiffID = ''sha256:5f70bf18a086007016e948b04aed3b82103a36bea41755b6cddfaf10ace3c6ef'',
          tl_ChainID = ''033ceceec9c0d8d02902f2cbca179bab1a47620874d0bb132d80af0307b0c671''\<rparr>]\<rparr>"

text \<open>
  Fields that a literal of Go leaves out are empty.  So this image has a chain ID to compare with, but
  no blob ID and no diff ID (on an empty diff ID the fetcher panics: it has no colon).
\<close>

definition BusyBoxImage :: test_image where
  "BusyBoxImage =
     \<lparr>ConfigBlobID = ''sha256:1efc1d465fd6255396d0efd90a899f57aba2b7b294b02d5f55c6f5505ca9f3e5'',
      Layers =
        [\<lparr>tl_BlobID = [], tl_DiffID = [],
          tl_ChainID = ''3d16a9d9679dba04b90edeeca13dfaa986a268a7e0f4764250bacc2bed236b73''\<rparr>]\<rparr>"

section \<open>The checksums\<close>

lemma published_links:
  "chain_link ''afe200c63655576eaa5cabe036a2c09920d6aee67653ae75a9d35e0ec27205a5''
     ''d7c6a5f0d9a15779521094fa5eaf026b719984fb4bfe8e0012bd1da1b62615b0'' =
   ''9242945d3c9c7cf5f127f9352fea38b1d3efe62ee76e25f70a3e6db63a14c233''"
  "chain_link ''5b9746c87396a8cff11e5cbfa37321018bb797fcf0b4404615e713337ea1c62b''
     ''eb639428f6fd1693228c64a7474bd6302c7ebd06404c7092dd3d5187ba4fdddf'' =
   ''5726c173a767b58badc677d61d0e45df09f0d923f9770210f9a88607e1386e2b''"
  "chain_link ''5726c173a767b58badc677d61d0e45df09f0d923f9770210f9a88607e1386e2b''
     ''5f70bf18a086007016e948b04aed3b82103a36bea41755b6cddfaf10ace3c6ef'' =
   ''033ceceec9c0d8d02902f2cbca179bab1a47620874d0bb132d80af0307b0c671''"
  using
    link_by_bits [of "''afe200c63655576eaa5cabe036a2c09920d6aee67653ae75a9d35e0ec27205a5''"
      "''d7c6a5f0d9a15779521094fa5eaf026b719984fb4bfe8e0012bd1da1b62615b''" "CHR ''0''"]
    link_by_bits [of "''5b9746c87396a8cff11e5cbfa37321018bb797fcf0b4404615e713337ea1c62b''"
      "''eb639428f6fd1693228c64a7474bd6302c7ebd06404c7092dd3d5187ba4fddd''" "CHR ''f''"]
    link_by_bits [of "''5726c173a767b58badc677d61d0e45df09f0d923f9770210f9a88607e1386e2b''"
      "''5f70bf18a086007016e948b04aed3b82103a36bea41755b6cddfaf10ace3c6e''" "CHR ''f''"]
  by (simp_all add: chain_link_def) (simp_all only: evaluate_bits)

section \<open>The layers of the published images\<close>

text \<open>A manifest and a configuration of the image.\<close>

definition describes :: "test_image \<Rightarrow> image \<Rightarrow> image_config \<Rightarrow> bool" where
  "describes t img config \<longleftrightarrow>
     map bi_Digest (im_LayerInfos img) = map tl_BlobID (Layers t) \<and> ic_DiffIDs config = map tl_DiffID (Layers t)"

lemma small_stacks:
  "stack_id [a] = a" "stack_id [a, b] = chain_link a b" "stack_id [a, b, c] = chain_link (chain_link a b) c"
  by (simp_all add: stack_id_def chain_link_def)

lemma digest_hex_sha256: "digest_hex (''sha256:'' @ h) = Val h"
  by (simp add: digest_hex_def digest_encoded_def digest_sep_index_def Let_def)

lemma published_hex_parts:
  "map (hex_part \<circ> tl_DiffID) (Layers EmptyImageV011) =
     [''afe200c63655576eaa5cabe036a2c09920d6aee67653ae75a9d35e0ec27205a5'',
      ''d7c6a5f0d9a15779521094fa5eaf026b719984fb4bfe8e0012bd1da1b62615b0'']"
  "map (hex_part \<circ> tl_DiffID) (Layers SchemaV1EmptyImage) =
     [''5b9746c87396a8cff11e5cbfa37321018bb797fcf0b4404615e713337ea1c62b'',
      ''eb639428f6fd1693228c64a7474bd6302c7ebd06404c7092dd3d5187ba4fdddf'',
      ''5f70bf18a086007016e948b04aed3b82103a36bea41755b6cddfaf10ace3c6ef'']"
  by (simp_all add: EmptyImageV011_def SchemaV1EmptyImage_def hex_part_def)

text \<open>What the data has to satisfy for the fetcher to compute it.\<close>

definition computable :: "test_image \<Rightarrow> bool" where
  "computable t \<longleftrightarrow>
     list_all (\<lambda>l. CHR '':'' \<in> set (tl_DiffID l) \<and>
       digest_hex (tl_DiffID l) = Val (drop 7 (tl_DiffID l)) \<and> take 7 (tl_DiffID l) = ''sha256:'') (Layers t) \<and>
     map (\<lambda>k. stack_id (take (Suc k) (map (hex_part \<circ> tl_DiffID) (Layers t)))) [0..<length (Layers t)] =
       map tl_ChainID (Layers t)"

lemma computable_layers:
  assumes "describes t img config" "computable t"
  shows "\<exists>lis. create_layer_infos img config = Val lis \<and>
    map (\<lambda>li. (BlobID li, ''sha256:'' @ DiffID li, ChainID li)) lis =
      map (\<lambda>l. (tl_BlobID l, tl_DiffID l, tl_ChainID l)) (Layers t)"
proof -
  let ?ls = "Layers t"
  have blobs: "map bi_Digest (im_LayerInfos img) = map tl_BlobID ?ls" and diffs: "ic_DiffIDs config = map tl_DiffID ?ls"
    using assms(1) by (simp_all add: describes_def)
  have len: "length (im_LayerInfos img) = length ?ls" using blobs map_eq_imp_length_eq by blast
  have ls: "CHR '':'' \<in> set (tl_DiffID (?ls ! k))" "digest_hex (tl_DiffID (?ls ! k)) = Val (drop 7 (tl_DiffID (?ls ! k)))"
    "''sha256:'' @ drop 7 (tl_DiffID (?ls ! k)) = tl_DiffID (?ls ! k)" if "k < length ?ls" for k
    using assms(2) that append_take_drop_id [of 7 "tl_DiffID (?ls ! k)"] by (auto simp: computable_def list_all_length)
  then have "\<forall>k < length (im_LayerInfos img). CHR '':'' \<in> set (ic_DiffIDs config ! (0 + k))"
    using len by (simp add: diffs)
  then obtain lis where lis: "create_layer_infos img config = Val lis"
    using create_layer_infos_from_returns [of 0 "im_LayerInfos img" "ic_DiffIDs config"] len
    by (auto simp: diffs create_layer_infos_def)
  note spec = layer_infos_spec [OF lis]
  have "BlobID (lis ! k) = tl_BlobID (?ls ! k)" "''sha256:'' @ DiffID (lis ! k) = tl_DiffID (?ls ! k)" if "k < length ?ls" for k
    using spec ls [OF that] that len nth_map [of k "im_LayerInfos img" bi_Digest]
    by (auto simp: layer_info_of_def diffs blobs)
  moreover have "ChainID (lis ! k) = tl_ChainID (?ls ! k)" if "k < length ?ls" for k
  proof -
    have "map ChainID lis = map tl_ChainID ?ls"
      using layer_chain_ids [OF lis] assms(2) spec len by (simp add: computable_def diffs)
    then show ?thesis using spec len that by (metis nth_map)
  qed
  ultimately show ?thesis
    using lis spec len by (intro exI [of _ lis]) (auto intro!: nth_equalityI)
qed

lemma computable_published: "computable EmptyImageV011" "computable SchemaV1EmptyImage"
  by (simp_all add: computable_def published_hex_parts)
    (simp_all add: EmptyImageV011_def SchemaV1EmptyImage_def small_stacks published_links digest_hex_sha256 [simplified])

text \<open>
  C8: For every manifest and configuration with the blob IDs and diff IDs that the tests list for the
  images EmptyImageV011 and SchemaV1EmptyImage, the layer infos are made, and list exactly the
  layers that the tests expect, from the lowest up: their blob IDs, their diff IDs without the
  algorithm, and the chain IDs that were published for them, which for all layers but the lowest
  are checksums of the stack below.  The third image of the tests, BusyBoxImage, is not meant:
  they list only its chain ID and no diff ID to compute it from.
\<close>

theorem published_layers_are_computed:
  assumes "t \<in> {EmptyImageV011, SchemaV1EmptyImage}" "describes t img config"
  shows "\<exists>lis. create_layer_infos img config = Val lis \<and>
    map (\<lambda>li. (BlobID li, ''sha256:'' @ DiffID li, ChainID li)) lis =
      map (\<lambda>l. (tl_BlobID l, tl_DiffID l, tl_ChainID l)) (Layers t)"
  using assms computable_layers computable_published by blast

lemma busybox_is_not_computable:
  assumes "describes BusyBoxImage img config"
  shows "\<exists>p. create_layer_infos img config = Panic p"
proof (cases "create_layer_infos img config")
  case (Val lis)
  from layer_infos_spec [OF Val] assms map_eq_imp_length_eq
  have "0 < length lis" "ic_DiffIDs config = [[]]" by (auto simp: describes_def BusyBoxImage_def)
  with create_layer_infos_from_Val [OF Val [unfolded create_layer_infos_def]]
  have "CHR '':'' \<in> set ([[]] ! 0 :: string)" by (metis add_0)
  then show ?thesis by simp
qed (simp_all add: create_layer_infos_def)

text \<open>A manifest and a configuration as a registry gives them, with unknown sizes.\<close>

definition manifest_of :: "test_image \<Rightarrow> image" where
  "manifest_of t =
     \<lparr>im_LayerInfos = map (\<lambda>l. \<lparr>bi_Digest = tl_BlobID l, bi_Size = - 1, bi_URLs = [],
        bi_MediaType = ''application/vnd.docker.image.rootfs.diff.tar.gzip''\<rparr>) (Layers t), im_id = 0\<rparr>"

definition config_of :: "test_image \<Rightarrow> image_config" where
  "config_of t = \<lparr>ic_DiffIDs = map tl_DiffID (Layers t), ic_Env = [], ic_rest = []\<rparr>"

lemma describes_itself: "describes t (manifest_of t) (config_of t)"
  by (simp add: describes_def manifest_of_def config_of_def)

theorem published_layers_are_computed_witness:
  "\<exists>lis. create_layer_infos (manifest_of EmptyImageV011) (config_of EmptyImageV011) = Val lis \<and>
    map ChainID lis =
      [''afe200c63655576eaa5cabe036a2c09920d6aee67653ae75a9d35e0ec27205a5'',
       ''9242945d3c9c7cf5f127f9352fea38b1d3efe62ee76e25f70a3e6db63a14c233'']"
proof -
  obtain lis where lis: "create_layer_infos (manifest_of EmptyImageV011) (config_of EmptyImageV011) = Val lis"
    and infos: "map (\<lambda>li. (BlobID li, ''sha256:'' @ DiffID li, ChainID li)) lis =
      map (\<lambda>l. (tl_BlobID l, tl_DiffID l, tl_ChainID l)) (Layers EmptyImageV011)"
    using published_layers_are_computed [OF _ describes_itself] by blast
  from arg_cong [OF infos, of "map (snd \<circ> snd)"] have "map ChainID lis = map tl_ChainID (Layers EmptyImageV011)"
    by (simp add: o_def)
  with lis show ?thesis by (intro exI [of _ lis]) (simp add: EmptyImageV011_def)
qed

end
