(* ===== verification/Fake_Registry.thy ===== *)
theory Fake_Registry
  imports Go_Url
begin

text \<open>
  \<^verbatim>\<open>testhelpers/registry.go\<close>: the registry of the tests, a proxy in front of a real one that
  can be told to fail requests and to answer requests for blobs by itself.  The upstream registry
  with its state \<open>'u\<close>, and Go's reverse proxy, are parameters.  Requests are served one after the
  other, so the mutex is left out.
\<close>

section \<open>HTTP\<close>

record request =
  rq_Method :: string
  rq_Path :: string
  rq_RequestURI :: string
  rq_Host :: string

record response =
  rs_Status :: nat
  rs_Header :: "(string \<times> string) list"
  rs_Body :: string

type_synonym 'u http_handler = "request \<Rightarrow> 'u \<Rightarrow> response \<times> 'u"

definition StatusUnauthorized :: nat where "StatusUnauthorized = 401"
definition StatusTeapot :: nat where "StatusTeapot = 418"

text \<open>
  What is outside: how the standard director rewrites a request for an upstream URL, and how the
  upstream answers.
\<close>

record 'u net =
  old_director :: "url \<Rightarrow> request \<Rightarrow> request"
  round_trip :: "'u http_handler"

section \<open>Regular expressions\<close>

text \<open>
  The part after the last occurrence of \<open>p\<close>, and the first group of
  \<^verbatim>\<open>p.*q(.*)\<close> at its leftmost match: the dot is greedy and stops at the end of the line.
\<close>

fun after_last :: "string \<Rightarrow> string \<Rightarrow> string option" where
  "after_last p [] = (if p = [] then Some [] else None)"
| "after_last p (x # xs) =
     (case after_last p xs of
        Some r \<Rightarrow> Some r
      | None \<Rightarrow> if has_prefix (x # xs) p then Some (drop (length p) (x # xs)) else None)"

fun match_after :: "string \<Rightarrow> string \<Rightarrow> string \<Rightarrow> string option" where
  "match_after p q [] = None"
| "match_after p q (x # xs) =
     (if has_prefix (x # xs) p
      then (case after_last q (takeWhile (\<lambda>c. c \<noteq> char_of (10 :: nat)) (drop (length p) (x # xs))) of
              Some r \<Rightarrow> Some r
            | None \<Rightarrow> match_after p q xs)
      else match_after p q xs)"

definition blob_regexp :: "string \<Rightarrow> string option" where
  "blob_regexp path = match_after ''/v2/'' ''/blobs/'' path"

definition manifest_regexp :: "string \<Rightarrow> string option" where
  "manifest_regexp path = match_after ''/v2/'' ''/manifests/'' path"

section \<open>The registry\<close>

record 'u blob_handler =
  bh_httpHandler :: "'u http_handler"
  bh_order :: nat

text \<open>The TLS server of \<^verbatim>\<open>ghttp\<close>: the address it got, and whether it listens.\<close>

record test_server =
  ts_Addr :: string
  ts_listens :: bool

record 'u fake_registry =
  ActualRegistryURL :: url
  blobHandlers :: "string \<rightharpoonup> 'u blob_handler"
  blobRequestsCounter :: "string \<rightharpoonup> nat"
  failNextBlobRequests :: int
  failNextManifestRequests :: int
  forceTokenAuthError :: bool
  server :: "test_server option"

definition new_fake_registry :: "url \<Rightarrow> 'u fake_registry" where
  "new_fake_registry actualRegistryURL =
     \<lparr>ActualRegistryURL = actualRegistryURL, blobHandlers = Map.empty, blobRequestsCounter = Map.empty,
      failNextBlobRequests = 0, failNextManifestRequests = 0, forceTokenAuthError = False,
      server = None\<rparr>"

text \<open>
  \<^verbatim>\<open>Start\<close> makes the server, at an address that the system chooses; its routes are below.
  A registry that was not started has no server to stop or to ask.
\<close>

definition start_registry :: "string \<Rightarrow> 'u fake_registry \<Rightarrow> 'u fake_registry" where
  "start_registry addr r = r\<lparr>server := Some \<lparr>ts_Addr = addr, ts_listens = True\<rparr>\<rparr>"

definition stop_registry :: "'u fake_registry \<Rightarrow> unit outcome \<times> 'u fake_registry" where
  "stop_registry r =
     (case server r of
        None \<Rightarrow> (Panic ''nil pointer dereference'', r)
      | Some sv \<Rightarrow> (Val (), r\<lparr>server := Some (sv\<lparr>ts_listens := False\<rparr>)\<rparr>))"

definition registry_addr :: "'u fake_registry \<Rightarrow> string outcome" where
  "registry_addr r = (case server r of None \<Rightarrow> Panic ''nil pointer dereference'' | Some sv \<Rightarrow> Val (ts_Addr sv))"

text \<open>The operations of the tests.\<close>

definition fail_next_blob_requests :: "int \<Rightarrow> 'u fake_registry \<Rightarrow> 'u fake_registry" where
  "fail_next_blob_requests n r = r\<lparr>failNextBlobRequests := n\<rparr>"

definition fail_next_manifest_requests :: "int \<Rightarrow> 'u fake_registry \<Rightarrow> 'u fake_registry" where
  "fail_next_manifest_requests n r = r\<lparr>failNextManifestRequests := n\<rparr>"

definition force_token_auth_error :: "'u fake_registry \<Rightarrow> 'u fake_registry" where
  "force_token_auth_error r = r\<lparr>forceTokenAuthError := True\<rparr>"

definition when_getting_blob :: "string \<Rightarrow> nat \<Rightarrow> 'u http_handler \<Rightarrow> 'u fake_registry \<Rightarrow> 'u fake_registry" where
  "when_getting_blob digest order httpHandler r =
     r\<lparr>blobHandlers := (blobHandlers r)(digest \<mapsto> \<lparr>bh_httpHandler = httpHandler, bh_order = order\<rparr>)\<rparr>"

text \<open>The digests are collected from a map, in no particular order.\<close>

definition requested_blobs :: "'u fake_registry \<Rightarrow> string set" where
  "requested_blobs r = dom (blobRequestsCounter r)"

section \<open>Serving\<close>

text \<open>
  The proxy that \<^verbatim>\<open>Start\<close> installs: the standard one with the host of the actual registry.
\<close>

definition rev_proxy :: "'u net \<Rightarrow> 'u fake_registry \<Rightarrow> request \<Rightarrow> 'u \<Rightarrow> response \<times> ('u fake_registry \<times> 'u)" where
  "rev_proxy N r req u =
     (case round_trip N ((old_director N (ActualRegistryURL r) req)\<lparr>rq_Host := Host (ActualRegistryURL r)\<rparr>) u of
        (rsp, u') \<Rightarrow> (rsp, (r, u')))"

definition serve_token :: "'u net \<Rightarrow> request \<Rightarrow> 'u fake_registry \<times> 'u \<Rightarrow> response \<times> ('u fake_registry \<times> 'u)" where
  "serve_token N req ru =
     (case ru of (r, u) \<Rightarrow>
        if forceTokenAuthError r then (\<lparr>rs_Status = StatusUnauthorized, rs_Header = [], rs_Body = ''''\<rparr>, (r, u))
        else rev_proxy N r req u)"

text \<open>The handlers run on a server, whose address this one gives away.\<close>

definition serve_http :: "'u net \<Rightarrow> test_server \<Rightarrow> request \<Rightarrow> 'u fake_registry \<times> 'u \<Rightarrow> response \<times> ('u fake_registry \<times> 'u)" where
  "serve_http N sv req ru =
     (case ru of (r, u) \<Rightarrow>
        if forceTokenAuthError r \<and> rq_RequestURI req = ''/v2/''
        then (\<lparr>rs_Status = StatusUnauthorized,
               rs_Header = [(''Www-Authenticate'', ''Bearer realm=\"https://'' @ ts_Addr sv @
                 ''/token\",service=\"registry.docker.io\"'')],
               rs_Body = ''''\<rparr>, (r, u))
        else rev_proxy N r req u)"

definition teapot :: response where
  "teapot = \<lparr>rs_Status = StatusTeapot, rs_Header = [], rs_Body = ''null''\<rparr>"

definition serve_manifest :: "'u net \<Rightarrow> request \<Rightarrow> 'u fake_registry \<times> 'u \<Rightarrow> response \<times> ('u fake_registry \<times> 'u)" where
  "serve_manifest N req ru =
     (case ru of (r, u) \<Rightarrow>
        if 0 < failNextManifestRequests r
        then (teapot, (r\<lparr>failNextManifestRequests := failNextManifestRequests r - 1\<rparr>, u))
        else rev_proxy N r req u)"

definition count_of :: "string \<Rightarrow> 'u fake_registry \<Rightarrow> nat" where
  "count_of digest r = (case blobRequestsCounter r digest of Some n \<Rightarrow> n | None \<Rightarrow> 0)"

definition serve_blob :: "'u net \<Rightarrow> request \<Rightarrow> 'u fake_registry \<times> 'u \<Rightarrow> response \<times> ('u fake_registry \<times> 'u)" where
  "serve_blob N req ru =
     (case ru of (r, u) \<Rightarrow>
        if 0 < failNextBlobRequests r
        then (teapot, (r\<lparr>failNextBlobRequests := failNextBlobRequests r - 1\<rparr>, u))
        else
          (case blob_regexp (rq_Path req) of
             None \<Rightarrow> rev_proxy N r req u
           | Some digest \<Rightarrow>
               (let r = r\<lparr>blobRequestsCounter := (blobRequestsCounter r)(digest \<mapsto> count_of digest r + 1)\<rparr>
                in case blobHandlers r digest of
                     None \<Rightarrow> rev_proxy N r req u
                   | Some handler \<Rightarrow>
                       if bh_order handler = 0 \<or> count_of digest r = bh_order handler
                       then (case bh_httpHandler handler req u of (rsp, u') \<Rightarrow> (rsp, (r, u')))
                       else rev_proxy N r req u)))"

text \<open>
  \<^verbatim>\<open>Start\<close>: the routes in the order they are registered.  The server uses the first route of
  the request's method whose expression matches the path; there is none for other methods.
\<close>

definition routes :: "'u net \<Rightarrow> test_server \<Rightarrow>
    (string \<times> (string \<Rightarrow> bool) \<times> (request \<Rightarrow> 'u fake_registry \<times> 'u \<Rightarrow> response \<times> ('u fake_registry \<times> 'u))) list" where
  "routes N sv =
     [(''GET'', \<lambda>path. blob_regexp path \<noteq> None, serve_blob N),
      (''GET'', \<lambda>path. manifest_regexp path \<noteq> None, serve_manifest N),
      (''GET'', \<lambda>path. str_contains path ''token'', serve_token N),
      (''GET'', \<lambda>path. True, serve_http N sv)]"

text \<open>A server that does not listen gives no answer, and neither does one without a route.\<close>

definition serving :: "'u fake_registry \<Rightarrow> bool" where
  "serving r \<longleftrightarrow> (\<exists>sv. server r = Some sv \<and> ts_listens sv)"

definition handle :: "'u net \<Rightarrow> request \<Rightarrow> 'u fake_registry \<times> 'u \<Rightarrow> (response \<times> ('u fake_registry \<times> 'u)) option" where
  "handle N req ru =
     (case server (fst ru) of
        None \<Rightarrow> None
      | Some sv \<Rightarrow>
          if \<not> ts_listens sv then None
          else map_option (\<lambda>(_, _, h). h req ru)
                 (find (\<lambda>(meth, matches, _). meth = rq_Method req \<and> matches (rq_Path req)) (routes N sv)))"

text \<open>A sequence of requests that are all routed.\<close>

primrec handle_all :: "'u net \<Rightarrow> request list \<Rightarrow> 'u fake_registry \<times> 'u \<Rightarrow> (response list \<times> ('u fake_registry \<times> 'u)) option" where
  "handle_all N [] ru = Some ([], ru)"
| "handle_all N (req # reqs) ru =
     (case handle N req ru of
        None \<Rightarrow> None
      | Some (rsp, ru) \<Rightarrow> map_option (\<lambda>(rsps, ru). (rsp # rsps, ru)) (handle_all N reqs ru))"

section \<open>Routing\<close>

text \<open>Paths as clients of a registry use them.\<close>

definition blob_path :: "string \<Rightarrow> string \<Rightarrow> string" where
  "blob_path repo digest = ''/v2/'' @ repo @ ''/blobs/'' @ digest"

lemma after_last_append: "after_last q s = Some r \<Longrightarrow> after_last q (a @ s) = Some r"
  by (induction a) auto

lemma after_last_no_slash: "CHR ''/'' \<notin> set s \<Longrightarrow> after_last (CHR ''/'' # p) s = None"
  by (induction s) (auto simp: has_prefix_def split: option.splits)

lemma blob_regexp_path:
  assumes "CHR ''/'' \<notin> set digest" "char_of (10 :: nat) \<notin> set (repo @ digest)"
  shows "blob_regexp (blob_path repo digest) = Some digest"
proof -
  have nl: "char_of (10 :: nat) \<notin> set ''/v2//blobs/''" by code_simp
  have slash: "\<not> has_prefix (CHR ''/'' # digest) ''/blobs/''"
  proof
    assume "has_prefix (CHR ''/'' # digest) ''/blobs/''"
    then have "CHR ''/'' \<in> set (take 6 digest)" by (simp add: has_prefix_def numeral_eq_Suc)
    with assms(1) show False using in_set_takeD by fastforce
  qed
  have "after_last ''/blobs/'' (''/blobs/'' @ digest) = Some digest"
    using after_last_no_slash [OF assms(1), of "''blobs/''"] slash by (simp add: has_prefix_def)
  then have "after_last ''/blobs/'' (repo @ ''/blobs/'' @ digest) = Some digest" by (rule after_last_append)
  moreover have "takeWhile (\<lambda>c. c \<noteq> char_of (10 :: nat)) (repo @ ''/blobs/'' @ digest) = repo @ ''/blobs/'' @ digest"
    using assms(2) nl by (intro takeWhile_eq_all_conv [THEN iffD2]) auto
  moreover have "match_after ''/v2/'' ''/blobs/'' (''/v2/'' @ rest) =
      (case after_last ''/blobs/'' (takeWhile (\<lambda>c. c \<noteq> char_of (10 :: nat)) rest) of
         Some r \<Rightarrow> Some r | None \<Rightarrow> match_after ''/v2/'' ''/blobs/'' (''v2/'' @ rest))" for rest
    by (simp add: has_prefix_def split: option.split)
  ultimately show ?thesis by (simp only: blob_regexp_def blob_path_def option.case)
qed

definition blob_request :: "string \<Rightarrow> request \<Rightarrow> bool" where
  "blob_request digest req \<longleftrightarrow> rq_Method req = ''GET'' \<and> blob_regexp (rq_Path req) = Some digest"

lemma handle_blob: "blob_request digest req \<Longrightarrow> serving r \<Longrightarrow> handle N req (r, u) = Some (serve_blob N req (r, u))"
  by (auto simp: handle_def routes_def blob_request_def serving_def)

lemma handle_get:
  assumes "rq_Method req = ''GET''" "server r = Some sv" "ts_listens sv"
  shows "handle N req (r, u) = Some (if blob_regexp (rq_Path req) \<noteq> None then serve_blob N req (r, u)
    else if manifest_regexp (rq_Path req) \<noteq> None then serve_manifest N req (r, u)
    else if str_contains (rq_Path req) ''token'' then serve_token N req (r, u) else serve_http N sv req (r, u))"
  using assms by (auto simp: handle_def routes_def)

lemma handle_other: "rq_Method req \<noteq> ''GET'' \<Longrightarrow> handle N req ru = None"
  by (auto simp: handle_def routes_def split: option.split)

lemma handle_stopped: "\<not> serving r \<Longrightarrow> handle N req (r, u) = None"
  by (auto simp: handle_def serving_def split: option.split)

lemma serving_updates [simp]:
  "serving (r\<lparr>failNextBlobRequests := n\<rparr>) = serving r" "serving (r\<lparr>failNextManifestRequests := n\<rparr>) = serving r"
  "serving (r\<lparr>blobRequestsCounter := c\<rparr>) = serving r" "serving (r\<lparr>blobHandlers := h\<rparr>) = serving r"
  by (simp_all add: serving_def)

text \<open>From starting it to stopping it the registry can be asked; afterwards it gives no answer.\<close>

lemma started_registry_serves_until_stopped:
  "serving (start_registry addr r)" "registry_addr (start_registry addr r) = Val addr"
  "stop_registry r = (Val (), r') \<Longrightarrow> \<not> serving r'"
  by (auto simp: serving_def start_registry_def registry_addr_def stop_registry_def split: option.splits)

lemma handle_all_append:
  "handle_all N (reqs @ reqs') ru =
     (case handle_all N reqs ru of
        None \<Rightarrow> None
      | Some (rsps, ru) \<Rightarrow> map_option (\<lambda>(rsps', ru). (rsps @ rsps', ru)) (handle_all N reqs' ru))"
proof (induction reqs arbitrary: ru)
  case Nil
  then show ?case by (cases "handle_all N reqs' ru") auto
next
  case (Cons req reqs)
  show ?case
  proof (cases "handle N req ru")
    case (Some x)
    obtain rsp ru' where x: "x = (rsp, ru')" by (rule prod.exhaust)
    show ?thesis
    proof (cases "handle_all N reqs ru'")
      case (Some y)
      obtain rsps ru'' where "y = (rsps, ru'')" by (rule prod.exhaust)
      with Some Cons \<open>handle N req ru = Some x\<close> x show ?thesis
        by (cases "handle_all N reqs' ru''") auto
    qed (use Cons Some x in simp)
  qed simp
qed

text \<open>An upstream that counts the requests it gets, and a request for a blob.\<close>

definition counting_net :: "nat net" where
  "counting_net = \<lparr>old_director = (\<lambda>_ req. req),
     round_trip = (\<lambda>req u. (\<lparr>rs_Status = 200, rs_Header = [], rs_Body = rq_Host req\<rparr>, Suc u))\<rparr>"

definition get_request :: "string \<Rightarrow> request" where
  "get_request path = \<lparr>rq_Method = ''GET'', rq_Path = path, rq_RequestURI = path, rq_Host = ''local''\<rparr>"

definition sample_registry :: "nat fake_registry" where
  "sample_registry = start_registry ''127.0.0.1:1'' (new_fake_registry (empty_url\<lparr>Host := ''hub''\<rparr>))"

lemma sample_registry_simps [simp]:
  "failNextBlobRequests sample_registry = 0" "blobRequestsCounter sample_registry = Map.empty"
  "serving sample_registry" "blobHandlers sample_registry = Map.empty"
  "ActualRegistryURL sample_registry = empty_url\<lparr>Host := ''hub''\<rparr>"
  by (simp_all add: sample_registry_def new_fake_registry_def start_registry_def serving_def)

lemma sample_blob_request: "blob_request ''d'' (get_request ''/v2/img/blobs/d'')"
proof -
  have "blob_regexp ''/v2/img/blobs/d'' = Some ''d''" by code_simp
  then show ?thesis by (simp add: blob_request_def get_request_def)
qed

section \<open>What a request changes\<close>

text \<open>What stays, and what is counted, while no failures are pending.\<close>

lemma handle_counts:
  assumes "handle N req (r, u) = Some (rsp, (r', u'))" "failNextBlobRequests r = 0"
  shows "serving r \<and> serving r' \<and> blobHandlers r' = blobHandlers r \<and> failNextBlobRequests r' = 0 \<and>
    count_of digest r' = count_of digest r + (if blob_request digest req then 1 else 0) \<and>
    requested_blobs r' = requested_blobs r \<union> {d. blob_request d req}"
proof -
  have get: "rq_Method req = ''GET''"
    using assms(1) handle_other [of req N "(r, u)"] by (cases "rq_Method req = ''GET''") simp_all
  obtain sv where sv: "server r = Some sv" "ts_listens sv"
    using assms(1) handle_stopped [of r N req u] by (auto simp: serving_def)
  then have up: "serving r" by (simp add: serving_def)
  show ?thesis
  proof (cases "blob_regexp (rq_Path req)")
    case None
    then have "r' = r \<or> r' = r\<lparr>failNextManifestRequests := failNextManifestRequests r - 1\<rparr>"
      using assms(1)
      by (auto simp: handle_get [OF get sv] serve_manifest_def serve_token_def serve_http_def rev_proxy_def
          split: if_splits prod.splits)
    with None get assms(2) up show ?thesis
      by (auto simp: blob_request_def count_of_def requested_blobs_def)
  next
    case (Some d)
    with assms have "r' = r\<lparr>blobRequestsCounter := (blobRequestsCounter r)(d \<mapsto> count_of d r + 1)\<rparr>"
      by (auto simp: handle_get [OF get sv] serve_blob_def rev_proxy_def Let_def split: if_splits prod.splits option.splits)
    with Some get assms(2) up show ?thesis
      by (auto simp: blob_request_def count_of_def requested_blobs_def)
  qed
qed

section \<open>Failing requests\<close>

definition asks_for_blob :: "request \<Rightarrow> bool" where
  "asks_for_blob req \<longleftrightarrow> (\<exists>digest. blob_request digest req)"

text \<open>A sequence of requests without the first \<open>n\<close> that ask for a blob, and answers with 418 for these.\<close>

fun spared :: "nat \<Rightarrow> request list \<Rightarrow> request list" where
  "spared n [] = []"
| "spared n (req # reqs) =
     (if asks_for_blob req \<and> 0 < n then spared (n - 1) reqs else req # spared n reqs)"

fun with_teapots :: "nat \<Rightarrow> request list \<Rightarrow> response list \<Rightarrow> response list" where
  "with_teapots n (req # reqs) rsps =
     (if asks_for_blob req \<and> 0 < n then teapot # with_teapots (n - 1) reqs rsps
      else case rsps of [] \<Rightarrow> [] | rsp # rsps \<Rightarrow> rsp # with_teapots n reqs rsps)"
| "with_teapots n [] rsps = []"

lemma handle_pending_blob:
  assumes "asks_for_blob req" "serving r"
  shows "handle N req (r\<lparr>failNextBlobRequests := int (Suc n)\<rparr>, u) = Some (teapot, (r\<lparr>failNextBlobRequests := int n\<rparr>, u))"
  using assms by (auto simp: asks_for_blob_def handle_blob serve_blob_def)

lemma handle_pending_other:
  assumes "\<not> asks_for_blob req \<or> n = 0"
  shows "handle N req (r\<lparr>failNextBlobRequests := int n\<rparr>, u) =
    map_option (\<lambda>(rsp, r', u'). (rsp, (r'\<lparr>failNextBlobRequests := int n\<rparr>, u')))
      (handle N req (r\<lparr>failNextBlobRequests := 0\<rparr>, u))"
proof (cases "rq_Method req = ''GET'' \<and> serving r")
  case False
  then show ?thesis
    using handle_other [of req N] handle_stopped [of _ N req u] by (cases "rq_Method req = ''GET''") simp_all
next
  case True
  then obtain sv where sv: "server r = Some sv" "ts_listens sv" by (auto simp: serving_def)
  note get = handle_get [of req "r\<lparr>failNextBlobRequests := k\<rparr>" sv N u for k]
  show ?thesis
  proof (cases "n = 0")
    case True
    have "r'\<lparr>failNextBlobRequests := 0\<rparr> = r'"
      if "handle N req (r\<lparr>failNextBlobRequests := 0\<rparr>, u) = Some (rsp, r', u')" for rsp r' u'
      using handle_counts [OF that] by simp
    with True show ?thesis by (cases "handle N req (r\<lparr>failNextBlobRequests := 0\<rparr>, u)") auto
  next
    case False
    with assms True have "blob_regexp (rq_Path req) = None" by (auto simp: asks_for_blob_def blob_request_def)
    with True sv show ?thesis
      by (simp add: get serve_manifest_def serve_token_def serve_http_def rev_proxy_def split: prod.split)
  qed
qed

text \<open>
  C40: A registry that was started and told to fail the next \<open>n\<close> requests for blobs answers exactly
  the first \<open>n\<close> of them with status 418, whatever other requests come in between: these are not
  sent upstream, not counted and change nothing but the number that is left; all other requests
  (for manifests, tokens and anything else, and for blobs after the first \<open>n\<close>) are answered, sent
  on and counted as by a registry that has nothing to fail and gets only them.
\<close>

theorem next_blob_requests_fail:
  assumes "serving r"
  shows "handle_all N reqs (fail_next_blob_requests (int n) r, u) =
    map_option (\<lambda>(rsps, r', u'). (with_teapots n reqs rsps,
        (r'\<lparr>failNextBlobRequests := int (n - length (filter asks_for_blob reqs))\<rparr>, u')))
      (handle_all N (spared n reqs) (r\<lparr>failNextBlobRequests := 0\<rparr>, u))"
  using assms
proof (induction reqs arbitrary: n r u)
  case (Cons req reqs)
  show ?case
  proof (cases "asks_for_blob req \<and> 0 < n")
    case True
    then obtain m where m: "n = Suc m" by (cases n) auto
    with Cons True show ?thesis
      using handle_pending_blob [of req r N m u]
      by (auto simp: fail_next_blob_requests_def option.map_comp comp_def split_beta)
  next
    case False
    show ?thesis
    proof (cases "handle N req (r\<lparr>failNextBlobRequests := 0\<rparr>, u)")
      case None
      with False handle_pending_other [of req n N r u] show ?thesis by (auto simp: fail_next_blob_requests_def)
    next
      case (Some a)
      obtain rsp r1 u1 where a: "a = (rsp, (r1, u1))" by (rule prod_cases3)
      from handle_counts [OF Some [unfolded a]] have r1: "serving r1" "r1\<lparr>failNextBlobRequests := 0\<rparr> = r1" by simp_all
      have "handle N req (fail_next_blob_requests (int n) r, u) =
          Some (rsp, (fail_next_blob_requests (int n) r1, u1))"
        using False handle_pending_other [of req n N r u] Some a by (auto simp: fail_next_blob_requests_def)
      moreover have "n - length (filter asks_for_blob (req # reqs)) = n - length (filter asks_for_blob reqs)"
        using False by auto
      ultimately show ?thesis
        using Cons.IH [OF r1(1), of n u1] False Some a r1(2) by (auto simp: option.map_comp comp_def split_beta)
    qed
  qed
qed (simp add: fail_next_blob_requests_def)

text \<open>The instance: a request for something else comes between two that fail; a third is served.\<close>

theorem next_blob_requests_fail_witness:
  "\<exists>ru. handle_all counting_net [get_request ''/v2/img/blobs/d'', get_request ''/v2/'', get_request ''/v2/img/blobs/d'',
       get_request ''/v2/img/blobs/d''] (fail_next_blob_requests 2 sample_registry, 0) =
     Some ([teapot, \<lparr>rs_Status = 200, rs_Header = [], rs_Body = ''hub''\<rparr>, teapot,
       \<lparr>rs_Status = 200, rs_Header = [], rs_Body = ''hub''\<rparr>], ru) \<and> snd ru = 2"
proof -
  let ?req = "get_request ''/v2/img/blobs/d''" and ?other = "get_request ''/v2/''"
  let ?rsp = "\<lparr>rs_Status = 200, rs_Header = [], rs_Body = ''hub''\<rparr> :: response"
  obtain sv where sv: "server sample_registry = Some sv" "ts_listens sv"
    using sample_registry_simps(3) by (auto simp: serving_def)
  have regexps: "blob_regexp ''/v2/'' = None" "manifest_regexp ''/v2/'' = None" "\<not> str_contains ''/v2/'' ''token''"
    by code_simp+
  have "forceTokenAuthError sample_registry = False"
    by (simp add: sample_registry_def new_fake_registry_def start_registry_def)
  then have other: "handle counting_net ?other (sample_registry\<lparr>failNextBlobRequests := 0\<rparr>, u) =
      Some (?rsp, (sample_registry\<lparr>failNextBlobRequests := 0\<rparr>, Suc u))" for u
    using handle_get [of ?other "sample_registry\<lparr>failNextBlobRequests := 0\<rparr>" sv counting_net u] sv regexps
    by (simp add: get_request_def serve_http_def rev_proxy_def counting_net_def)
  have "blob_regexp (rq_Path ?req) = Some ''d''" using sample_blob_request by (simp add: blob_request_def)
  then have last: "\<exists>ru. handle counting_net ?req (sample_registry\<lparr>failNextBlobRequests := 0\<rparr>, u) = Some (?rsp, ru) \<and> snd ru = Suc u" for u
    by (simp add: handle_blob [OF sample_blob_request] serve_blob_def rev_proxy_def counting_net_def)
  have asks: "asks_for_blob ?req" "\<not> asks_for_blob ?other"
    using sample_blob_request regexps by (auto simp: asks_for_blob_def blob_request_def get_request_def)
  obtain ru where "handle counting_net ?req (sample_registry\<lparr>failNextBlobRequests := 0\<rparr>, 1) = Some (?rsp, ru)" "snd ru = 2"
    using last [of 1] by auto
  then have spared: "handle_all counting_net (spared 2 [?req, ?other, ?req, ?req]) (sample_registry\<lparr>failNextBlobRequests := 0\<rparr>, 0) =
      Some ([?rsp, ?rsp], ru)" "snd ru = 2"
    using other [of 0] asks by (simp_all add: numeral_2_eq_2)
  have teapots: "with_teapots 2 [?req, ?other, ?req, ?req] [?rsp, ?rsp] = [teapot, ?rsp, teapot, ?rsp]"
    using asks by (simp add: numeral_2_eq_2)
  from next_blob_requests_fail [OF sample_registry_simps(3), of counting_net "[?req, ?other, ?req, ?req]" 2 0] spared teapots
  show ?thesis by (cases ru) auto
qed

section \<open>Answering requests for blobs\<close>

definition requests_for :: "string \<Rightarrow> request list \<Rightarrow> nat" where
  "requests_for digest reqs = length (filter (blob_request digest) reqs)"

lemma handle_all_counts:
  assumes "handle_all N reqs (r, u) = Some (rsps, (r', u'))" "failNextBlobRequests r = 0"
  shows "(serving r \<longrightarrow> serving r') \<and> blobHandlers r' = blobHandlers r \<and> failNextBlobRequests r' = 0 \<and>
    count_of digest r' = count_of digest r + requests_for digest reqs \<and>
    requested_blobs r' = requested_blobs r \<union> {d. \<exists>req \<in> set reqs. blob_request d req}"
  using assms
proof (induction reqs arbitrary: r u rsps)
  case (Cons req reqs)
  obtain rsp r1 u1 rsps' where h: "handle N req (r, u) = Some (rsp, (r1, u1))"
    and rest: "handle_all N reqs (r1, u1) = Some (rsps', (r', u'))"
    using Cons.prems(1) by (auto split: option.splits)
  from handle_counts [OF h Cons.prems(2), of digest] Cons.IH [OF rest] show ?case
    by (auto simp: requests_for_def)
qed (auto simp: requests_for_def)

text \<open>
  A handler registered for the \<open>k\<close>-th request of a blob answers exactly that one (every
  one with \<open>k = 0\<close>), whatever is requested in between; all others go upstream.
\<close>

lemma handler_answers_kth_request:
  assumes "failNextBlobRequests r = 0" "blobRequestsCounter r = Map.empty" "serving r"
    and "handle_all N reqs (when_getting_blob digest k h r, u) = Some (rsps, (r1, u1))"
    and "blob_request digest req"
  shows "\<exists>r2. handle N req (r1, u1) =
    Some (if k = 0 \<or> Suc (requests_for digest reqs) = k
          then (case h req u1 of (rsp, u2) \<Rightarrow> (rsp, (r2, u2))) else rev_proxy N r2 req u1) \<and>
    count_of digest r2 = Suc (requests_for digest reqs)"
proof -
  let ?r = "when_getting_blob digest k h r"
  have "failNextBlobRequests ?r = 0" using assms(1) by (simp add: when_getting_blob_def)
  from handle_all_counts [OF assms(4) this, of digest] assms(2,3)
  have r1: "serving r1" "blobHandlers r1 digest = Some \<lparr>bh_httpHandler = h, bh_order = k\<rparr>" "failNextBlobRequests r1 = 0"
    "count_of digest r1 = requests_for digest reqs"
    by (simp_all add: when_getting_blob_def count_of_def)
  let ?r2 = "r1\<lparr>blobRequestsCounter := (blobRequestsCounter r1)(digest \<mapsto> count_of digest r1 + 1)\<rparr>"
  have "count_of digest ?r2 = Suc (requests_for digest reqs)" using r1 by (simp add: count_of_def)
  moreover from this have "handle N req (r1, u1) =
      Some (if k = 0 \<or> Suc (requests_for digest reqs) = k
            then (case h req u1 of (rsp, u2) \<Rightarrow> (rsp, (?r2, u2))) else rev_proxy N ?r2 req u1)"
    using assms(5) r1 by (auto simp: handle_blob serve_blob_def blob_request_def Let_def)
  ultimately show ?thesis by blast
qed

text \<open>
  The blobs reported as requested are those of the requests that were not made to fail.
\<close>

lemma requested_blobs_are_those_requested:
  assumes "handle_all N reqs (start_registry addr (new_fake_registry url), u) = Some (rsps, (r', u'))"
  shows "requested_blobs r' = {digest. \<exists>req \<in> set reqs. blob_request digest req}"
  using handle_all_counts [OF assms]
  by (simp add: new_fake_registry_def start_registry_def requested_blobs_def)

section \<open>Authorization\<close>

text \<open>
  Once token errors are forced, the endpoint that starts the authorization answers with a
  challenge that points to the registry itself, and every request for a token is refused; the
  upstream sees neither.
\<close>

lemma forced_token_error_refuses_tokens:
  assumes "rq_Method req = ''GET''" "blob_regexp (rq_Path req) = None" "manifest_regexp (rq_Path req) = None"
    and "str_contains (rq_Path req) ''token'' \<or> rq_RequestURI req = ''/v2/''" "server r = Some sv" "ts_listens sv"
  shows "\<exists>rsp. handle N req (force_token_auth_error r, u) = Some (rsp, (force_token_auth_error r, u)) \<and>
    rs_Status rsp = StatusUnauthorized \<and>
    (\<not> str_contains (rq_Path req) ''token'' \<longrightarrow>
       rs_Header rsp = [(''Www-Authenticate'', ''Bearer realm=\"https://'' @ ts_Addr sv @
         ''/token\",service=\"registry.docker.io\"'')])"
  using assms handle_get [of req "force_token_auth_error r" sv N u]
  by (auto simp: serve_token_def serve_http_def force_token_auth_error_def)

end
