(* ===== verification/Ending_Readers.thy ===== *)
theory Ending_Readers
  imports Os_World
begin

text \<open>
  Which calls return.  A call \<^emph>\<open>ends\<close> when it returns or panics.  The locale \<open>ending_reader\<close> is the
  part of the contract of \<^verbatim>\<open>io.Reader\<close> that makes \<^verbatim>\<open>io.Copy\<close> and \<^verbatim>\<open>io.ReadAll\<close> end,
  whatever errors the reader reports, on the states that satisfy an invariant (a body that has an
  end); it is kept by hashing, by a quota and by a decoder that expands every piece of its input by
  a bounded amount.
\<close>

section \<open>Calls that end\<close>

definition ends :: "'a outcome \<times> 's \<Rightarrow> bool" where
  "ends r \<longleftrightarrow> fst r \<noteq> Diverges"

named_theorems ends_intros "how a sequence of calls is shown to end"

lemma ends_simps [simp]:
  "ends (Val x, s)" "ends (Panic m, s)" "\<not> ends (Diverges, s)" "ends (returning q)"
  by (simp_all add: ends_def returning_def)

lemma ends_obind [ends_intros]:
  "ends r \<Longrightarrow> (\<And>x s. r = (Val x, s) \<Longrightarrow> ends (k x s)) \<Longrightarrow> ends (obind r k f)"
  by (cases r; cases "fst r") auto

lemma ends_attempt [ends_intros]:
  "ends r \<Longrightarrow> (\<And>x s. r = (Val (Inr x), s) \<Longrightarrow> ends (k x s)) \<Longrightarrow> ends (attempt r h k)"
  by (cases r; cases "fst r") (auto simp: attempt_def split: sum.splits)

lemma ends_cases:
  assumes "ends r"
  obtains (returns) x s where "r = (Val x, s)" | (panics) m s where "r = (Panic m, s)"
  using assms by (cases r; cases "fst r") auto

lemma ends_not: "ends r \<Longrightarrow> r = (Diverges, s) \<longleftrightarrow> False"
  by auto

lemma ends_retry [ends_intros]:
  assumes "\<And>s. ends (f s)"
  shows "ends (retry n f e s)"
  using assms by (induction n arbitrary: e s) (auto intro!: ends_intros split: sum.splits)

section \<open>Clients that end\<close>

text \<open>A client that gives up on its own accord nowhere.\<close>

primrec never_hangs :: "'a client \<Rightarrow> bool" where
  "never_hangs (Return a) = True"
| "never_hangs (Abort m) = True"
| "never_hangs Hang = False"
| "never_hangs (Read_then n k) = (\<forall>r. never_hangs (k r))"

lemma run_client_ends:
  assumes "never_hangs c" "J s" "\<And>n s. J s \<Longrightarrow> ends (rd n s)" "\<And>n s r t. J s \<Longrightarrow> rd n s = (r, t) \<Longrightarrow> J t"
  shows "ends (run_client rd c s)"
  using assms(1,2) by (induction c arbitrary: s) (auto intro!: ends_intros assms(3) intro: assms(4))

text \<open>A property of all that a client may return.\<close>

primrec all_returns :: "('a \<Rightarrow> bool) \<Rightarrow> 'a client \<Rightarrow> bool" where
  "all_returns P (Return a) = P a"
| "all_returns P (Abort m) = True"
| "all_returns P Hang = True"
| "all_returns P (Read_then n k) = (\<forall>r. all_returns P (k r))"

lemma all_returns_Val: "run_client rd c s = (Val a, t) \<Longrightarrow> all_returns P c \<Longrightarrow> P a"
  by (induction c arbitrary: s) (auto simp: obind_eq_Val)

text \<open>
  A read is effective when it had room for bytes and returned some, or no error.  \<open>client_returns
  c k a\<close>: on some reader, \<open>c\<close> returns \<open>a\<close> after \<open>k\<close> effective reads.
\<close>

definition effective :: "nat \<Rightarrow> read_result \<Rightarrow> bool" where
  "effective n r \<longleftrightarrow> 0 < n \<and> (fst r \<noteq> [] \<or> snd r = None)"

inductive client_returns :: "'a client \<Rightarrow> nat \<Rightarrow> 'a \<Rightarrow> bool" where
  at_once: "client_returns (Return a) 0 a"
| after_effective: "length (fst r) \<le> n \<Longrightarrow> effective n r \<Longrightarrow> client_returns (c r) k a \<Longrightarrow>
    client_returns (Read_then n c) (Suc k) a"
| after_other: "length (fst r) \<le> n \<Longrightarrow> \<not> effective n r \<Longrightarrow> client_returns (c r) k a \<Longrightarrow>
    client_returns (Read_then n c) k a"

inductive_cases client_returns_ReturnE: "client_returns (Return b) k a"
inductive_cases client_returns_ReadE: "client_returns (Read_then n c) k a"

section \<open>Readers that end\<close>

lemma sint_succ_nonneg: "0 \<le> sint (x + 1 :: int64) \<Longrightarrow> sint (x + 1) = sint x + 1"
proof (cases "sint x < 2 ^ 63 - 1")
  case True
  then show ?thesis using sint_range64 [of x] by (subst sint_add64) simp_all
next
  case False
  then have "sint x = 2 ^ 63 - 1" using sint_range64 [of x] by simp
  then have "sint (x + 1) < 0" by (simp add: sint_word_ariths signed_take_bit_eq_take_bit_minus take_bit_eq_mod)
  then show "0 \<le> sint (x + 1) \<Longrightarrow> sint (x + 1) = sint x + 1" by simp
qed

locale ending_reader =
  fixes rd :: "'s reader"
    and inv :: "'s \<Rightarrow> bool"
    and left :: "'s \<Rightarrow> nat"
  assumes read_ends: "inv s \<Longrightarrow> ends (rd n s)"
    and read_inv: "inv s \<Longrightarrow> rd n s = (x, t) \<Longrightarrow> inv t"
    and read_fits: "rd n s = (Val (bs, e), t) \<Longrightarrow> length bs \<le> n"
    and read_left: "inv s \<Longrightarrow> rd n s = (Val r, t) \<Longrightarrow> left t + (if effective n r then 1 else 0) \<le> left s"
begin

text \<open>What a client gets, and what is left after its effective reads.\<close>

lemma run_client_returns:
  assumes "run_client rd c s = (Val a, t)" "inv s"
  shows "\<exists>k. client_returns c k a \<and> left t + k \<le> left s"
  using assms
proof (induction c arbitrary: s)
  case (Read_then n c)
  then obtain bs e u where rd: "rd n s = (Val (bs, e), u)" and rest: "run_client rd (c (bs, e)) u = (Val a, t)"
    by (auto simp: obind_eq_Val)
  from Read_then.IH [OF rangeI rest read_inv [OF Read_then.prems(2) rd]] obtain k where k: "client_returns (c (bs, e)) k a" "left t + k \<le> left u" by blast
  note step = read_fits [OF rd] read_left [OF Read_then.prems(2) rd]
  show ?case
  proof (cases "effective n (bs, e)")
    case True
    then have "client_returns (Read_then n c) (Suc k) a" "left t + Suc k \<le> left s"
      using step k True by (auto intro: client_returns.after_effective [where r = "(bs, e)"])
    then show ?thesis by blast
  next
    case False
    then have "client_returns (Read_then n c) k a" "left t + k \<le> left s"
      using step k False by (auto intro: client_returns.after_other [where r = "(bs, e)"])
    then show ?thesis by blast
  qed
qed (auto intro: at_once)

text \<open>Copying and reading all of it end.\<close>

lemma copy_ends:
  assumes "inv s"
  shows "ends (io_copy rd wr s d)"
proof -
  let ?c = "\<lparr>cp_written = 0, cp_src = s, cp_dst = d\<rparr>"
  let ?J = "\<lambda>c. inv (cp_src c)"
  have less: "?J c' \<and> left (cp_src c') < left (cp_src c)" if "?J c" "copy_round rd wr c = Inr c'" for c c'
    using that(2)
  proof (rule copy_round_on)
    fix bs assume rd: "rd copy_buffer_size (cp_src c) = (Val (bs, None), cp_src c')"
    show ?thesis
      using read_inv [OF that(1) rd] read_left [OF that(1) rd] by (simp add: effective_def copy_buffer_size_def)
  qed
  have J: "?J ?c" using assms by simp
  obtain r where r: "loop (copy_round rd wr) ?c = Some r"
    using loop_returns [where J = ?J and m = "\<lambda>c. left (cp_src c)" and body = "copy_round rd wr", OF J less] by blast
  have "ends r"
    using r J
  proof (rule loop_rule)
    fix c x assume "?J c" "copy_round rd wr c = Inl x"
    then show "ends x"
      using read_ends [of "cp_src c" copy_buffer_size]
      by (auto simp: copy_round_def Let_def split: prod.splits outcome.splits option.splits if_splits)
  qed (use less in blast)
  with r show ?thesis by (simp add: io_copy_def)
qed

lemma read_all_ends:
  assumes "inv s"
  shows "ends (io_read_all grow rd s)"
proof -
  let ?c = "\<lparr>ra_cap = 512, ra_buf = [], ra_src = s\<rparr>"
  let ?J = "\<lambda>c. inv (ra_src c) \<and> length (ra_buf c) < ra_cap c"
  have on: "?J c' \<and> left (ra_src c') < left (ra_src c)" if J: "?J c" and "read_all_round grow rd c = Inr c'" for c c'
  proof -
    from that(2) obtain bs t where rd: "rd (ra_cap c - length (ra_buf c)) (ra_src c) = (Val (bs, None), t)"
      and c': "ra_src c' = t" "ra_buf c' = ra_buf c @ bs"
        "ra_cap c' = (if length (ra_buf c') = ra_cap c then length (ra_buf c') + 1 + grow (length (ra_buf c')) else ra_cap c)"
      by (auto simp: read_all_round_def Let_def split: prod.splits outcome.splits option.splits)
    from read_fits [OF rd] read_inv [OF _ rd] read_left [OF _ rd] J c' show ?thesis
      by (auto simp: effective_def)
  qed
  have J: "?J ?c" using assms by simp
  obtain r where r: "loop (read_all_round grow rd) ?c = Some r"
    using loop_returns [where J = ?J and m = "\<lambda>c. left (ra_src c)", OF J on] by blast
  have "ends r"
    using r J
  proof (rule loop_rule)
    fix c x assume "?J c" and x: "read_all_round grow rd c = Inl x"
    then have "ends (rd (ra_cap c - length (ra_buf c)) (ra_src c))" by (simp add: read_ends)
    then show "ends x"
      using x by (elim ends_cases) (auto simp: read_all_round_def Let_def split: prod.splits option.splits)
  qed (use on in blast)
  with r show ?thesis by (simp add: io_read_all_def)
qed

text \<open>Hashing keeps the contract.\<close>

lemma tee_ending: "ending_reader (tee_read rd) (\<lambda>sh. inv (fst sh)) (\<lambda>sh. left (fst sh))"
proof
  show "ends (tee_read rd n sh)" if "inv (fst sh)" for n sh
    using that by (auto simp: tee_read_def intro!: ends_intros read_ends)
  show "inv (fst t)" if "inv (fst sh)" "tee_read rd n sh = (x, t)" for n sh x t
    using tee_read_state [OF that(2)] read_inv [OF that(1)] by blast
  show "length bs \<le> n" if "tee_read rd n sh = (Val (bs, e), t)" for n sh bs e t
    using that by (cases sh) (auto simp: tee_read_Val dest: read_fits)
  show "left (fst t) + (if effective n r then 1 else 0) \<le> left (fst sh)"
    if "inv (fst sh)" "tee_read rd n sh = (Val r, t)" for n sh r t
    using that by (cases sh; cases r) (auto simp: tee_read_Val dest!: read_left)
qed

text \<open>
  What a read through a quota asks of the delegate: at most its own room, and some room unless
  it ends in an error.  With nothing left of the quota the delegate gets one byte of room; one
  that gets no room at all is not asked again, because the quota is then exceeded.
\<close>

lemma quotaed_read_delegated:
  assumes "quotaed_read rd n q = (Val (bs, e), t)"
  shows "\<exists>m e'. rd m (DelegateReader q) = (Val (bs, e'), DelegateReader t) \<and> m \<le> n \<and>
    (0 < n \<longrightarrow> e = None \<longrightarrow> 0 < m \<and> e' = None)"
proof -
  let ?x = "QuotaLeft q"
  let ?m = "if sint ?x < int n then nat (sint (?x + 1)) else n"
  from assms obtain e' where rd: "rd ?m (DelegateReader q) = (Val (bs, e'), DelegateReader t)"
    and room: "sint ?x < int n \<longrightarrow> 0 \<le> sint (?x + 1)"
    and e: "e = None \<longrightarrow> e' = None \<and> 0 \<le> sint (?x - of_nat (length bs))"
    by (auto simp: quotaed_read_def Let_def call_returns split: if_splits)
  have m: "?m \<le> n" using room sint_succ_nonneg [of ?x] by auto
  have "0 < ?m" if "0 < n" "e = None"
  proof (rule ccontr)
    assume "\<not> 0 < ?m"
    then have "?m = 0" by simp
    with rd have "bs = []" using read_fits [of ?m "DelegateReader q"] by fastforce
    with e that have "0 \<le> sint ?x" by simp
    with \<open>?m = 0\<close> that room sint_succ_nonneg [of ?x] show False by (auto split: if_splits)
  qed
  with rd m e show ?thesis by blast
qed

lemma quotaed_read_state:
  "quotaed_read rd n q = (x, t) \<Longrightarrow>
    DelegateReader t = DelegateReader q \<or> (\<exists>m y. rd m (DelegateReader q) = (y, DelegateReader t))"
  by (auto simp: quotaed_read_def Let_def obind_def split: if_splits prod.splits outcome.splits)

lemma quotaed_ending:
  "ending_reader (quotaed_read rd) (\<lambda>q. inv (DelegateReader q)) (\<lambda>q. left (DelegateReader q))"
proof
  show "ends (quotaed_read rd n q)" if "inv (DelegateReader q)" for n q
    using that by (auto simp: quotaed_read_def Let_def intro!: ends_intros read_ends)
  show "inv (DelegateReader t)" if "inv (DelegateReader q)" "quotaed_read rd n q = (x, t)" for n q x t
    using quotaed_read_state [OF that(2)] read_inv [OF that(1)] that(1) by metis
next
  fix n q bs e t assume "quotaed_read rd n q = (Val (bs, e), t)"
  then obtain m e' u where rd: "rd m (DelegateReader q) = (Val (bs, e'), u)" and "m \<le> n"
    by (blast dest: quotaed_read_delegated)
  with read_fits [OF rd] show "length bs \<le> n" by simp
next
  fix n q r t assume inv: "inv (DelegateReader q)" and read: "quotaed_read rd n q = (Val r, t)"
  obtain bs e where r: "r = (bs, e)" by fastforce
  from read [unfolded r] obtain m e' where rd: "rd m (DelegateReader q) = (Val (bs, e'), DelegateReader t)"
    and m: "0 < n \<longrightarrow> e = None \<longrightarrow> 0 < m \<and> e' = None"
    by (blast dest: quotaed_read_delegated)
  have "effective n r \<longrightarrow> effective m (bs, e')"
    using read_fits [OF rd] m r by (cases bs) (auto simp: effective_def)
  with read_left [OF inv rd] show "left (DelegateReader t) + (if effective n r then 1 else 0) \<le> left (DelegateReader q)"
    by (auto split: if_splits)
qed

end

section \<open>Streams, files and the decoder\<close>

interpretation stream_end: ending_reader stream_read finite_body
    "\<lambda>s. length (bl_chunks s) + length (concat (bl_chunks s))"
proof
  show "ends (stream_read n s)" if "finite_body s" for n s
    using that by (simp add: stream_read_finite split: list.split)
  show "finite_body t" if "finite_body s" "stream_read n s = (x, t)" for n s x t
    using stream_read_frame(1) [OF that(2)] that(1) by simp
  show "length bs \<le> n" if "stream_read n s = (Val (bs, e), t)" for n s bs e t
    using that by (rule fits_bufferD [OF fits_buffer_stream])
  show "length (bl_chunks t) + length (concat (bl_chunks t)) + (if effective n r then 1 else 0)
      \<le> length (bl_chunks s) + length (concat (bl_chunks s))"
    if "finite_body s" "stream_read n s = (Val r, t)" for n s r t
    using that by (auto simp: stream_read_finite effective_def split: list.splits if_splits)
qed

interpretation file_end: ending_reader "os_read E fd" "\<lambda>_. True" "\<lambda>w. length (unread fd w)" for E fd
  by unfold_locales
    (auto simp: os_read_def unread_def effective_def Suc_le_eq split: option.splits if_splits)

text \<open>
  A decoder that never gives up, and that expands its input by a bounded amount: \<open>owed\<close> bounds the
  reads that what it has buffered can serve, and every piece of input adds at most \<open>ratio\<close>.
  (Deflate encodes at most 258 bytes in a bit or two, and the pieces are as long as the decoder's
  own buffer.)
\<close>

definition bounded_expansion :: "'z env \<Rightarrow> ('z \<Rightarrow> nat) \<Rightarrow> nat \<Rightarrow> bool" where
  "bounded_expansion E owed ratio \<longleftrightarrow>
     (\<forall>n z k r z'. client_returns (gz_read E n z) k (r, z') \<longrightarrow>
        owed z' + (if effective n r then 1 else 0) \<le> owed z + ratio * k)"

definition decoder_ends :: "'z env \<Rightarrow> bool" where
  "decoder_ends E \<longleftrightarrow>
     never_hangs (gz_new E) \<and> (\<forall>n z. never_hangs (gz_read E n z)) \<and>
     (\<exists>owed ratio. bounded_expansion E owed ratio)"

lemma decoder_never_hangs:
  "decoder_ends E \<Longrightarrow> never_hangs (gz_new E)" "decoder_ends E \<Longrightarrow> never_hangs (gz_read E n z)"
  by (simp_all add: decoder_ends_def)

context ending_reader
begin

lemma client_ends: "never_hangs c \<Longrightarrow> inv s \<Longrightarrow> ends (run_client rd c s)"
  by (rule run_client_ends [where J = inv]) (auto intro: read_ends read_inv)

lemma client_inv: "run_client rd c s = (x, t) \<Longrightarrow> inv s \<Longrightarrow> inv t"
  by (rule run_client_invariant) (auto intro: read_inv)

lemma gzip_new_ends: "decoder_ends E \<Longrightarrow> inv s \<Longrightarrow> ends (gzip_new_reader E rd s)"
  by (simp add: gzip_new_reader_def client_ends decoder_never_hangs)

lemma gzip_new_inv: "gzip_new_reader E rd s = (x, t) \<Longrightarrow> inv s \<Longrightarrow> inv t"
  unfolding gzip_new_reader_def by (rule client_inv)

lemma gzip_ending:
  assumes "\<And>n z. never_hangs (gz_read E n z)" "bounded_expansion E owed ratio"
  shows "ending_reader (gzip_read E rd) (\<lambda>sz. inv (fst sz)) (\<lambda>sz. owed (snd sz) + ratio * left (fst sz))"
proof
  show "ends (gzip_read E rd n sz)" if "inv (fst sz)" for n sz
    using that by (auto simp: gzip_read_def assms(1) intro!: ends_intros client_ends)
  show "inv (fst t)" if "inv (fst sz)" "gzip_read E rd n sz = (x, t)" for n sz x t
    using that(2,1) by (rule gzip_read_state) (rule read_inv)
  show "length bs \<le> n" if "gzip_read E rd n sz = (Val (bs, e), t)" for n sz bs e t
    using that by (auto simp: gzip_read_def obind_eq_Val)
  fix n sz r t assume inv: "inv (fst sz)" and "gzip_read E rd n sz = (Val r, t)"
  then obtain bs e z s where run: "run_client rd (gz_read E n (snd sz)) (fst sz) = (Val ((bs, e), z), s)"
    and r: "r = (take n bs, e)" "t = (s, z)"
    by (auto simp: gzip_read_def obind_eq_Val)
  from run_client_returns [OF run inv] obtain k where
    k: "client_returns (gz_read E n (snd sz)) k ((bs, e), z)" "left s + k \<le> left (fst sz)" by blast
  have "owed z + (if effective n (bs, e) then 1 else 0) \<le> owed (snd sz) + ratio * k"
    using k(1) assms(2) unfolding bounded_expansion_def by blast
  moreover have "effective n r = effective n (bs, e)"
    by (auto simp: r effective_def)
  moreover have "ratio * left s + ratio * k \<le> ratio * left (fst sz)"
    using k(2) by (metis add_mult_distrib2 mult_le_mono2)
  ultimately show "owed (snd t) + ratio * left (fst t) + (if effective n r then 1 else 0)
      \<le> owed (snd sz) + ratio * left (fst sz)"
    by (simp add: r)
qed

end

text \<open>Everything that the program copies or reads to the end is built from readers that end.\<close>

definition ending :: "'s reader \<Rightarrow> ('s \<Rightarrow> bool) \<Rightarrow> bool" where
  "ending rd J \<longleftrightarrow> (\<exists>left. ending_reader rd J left)"

lemma ending_stream: "ending stream_read finite_body"
  unfolding ending_def by (blast intro: stream_end.ending_reader_axioms)

lemma ending_file: "ending (os_read E fd) (\<lambda>_. True)"
  unfolding ending_def by (blast intro: file_end.ending_reader_axioms)

lemma ending_tee: "ending rd J \<Longrightarrow> ending (tee_read rd) (\<lambda>sh. J (fst sh))"
  unfolding ending_def by (blast dest: ending_reader.tee_ending)

lemma ending_quotaed: "ending rd J \<Longrightarrow> ending (quotaed_read rd) (\<lambda>q. J (DelegateReader q))"
  unfolding ending_def by (blast dest: ending_reader.quotaed_ending)

lemma ending_gzip: "decoder_ends E \<Longrightarrow> ending rd J \<Longrightarrow> ending (gzip_read E rd) (\<lambda>sz. J (fst sz))"
  unfolding ending_def decoder_ends_def by (blast dest: ending_reader.gzip_ending)

lemma ending_gzip_new:
  assumes "decoder_ends E" "ending rd J" "J s"
  shows "ends (gzip_new_reader E rd s)" "gzip_new_reader E rd s = (x, t) \<Longrightarrow> J t"
  using assms unfolding ending_def by (blast dest: ending_reader.gzip_new_ends ending_reader.gzip_new_inv)+

lemma ending_read: "ending rd J \<Longrightarrow> J s \<Longrightarrow> ends (rd n s)"
  unfolding ending_def by (blast dest: ending_reader.read_ends)

lemma ending_copy: "ending rd J \<Longrightarrow> J s \<Longrightarrow> ends (io_copy rd wr s d)"
  unfolding ending_def by (blast intro: ending_reader.copy_ends)

lemma ending_read_all: "ending rd J \<Longrightarrow> J s \<Longrightarrow> ends (io_read_all grow rd s)"
  unfolding ending_def by (blast intro: ending_reader.read_all_ends)

end
