(* ===== verification/Termination.thy ===== *)
theory Termination
  imports Ending_Readers Groot_Cli
begin

text \<open>
  The program ends: no operation of the layer source, of the two fetchers, of the image puller
  and of the command line runs for ever, as long as every body that the registry sends has an
  end, the driver plugged in returns and the gzip decoder expands its input by a bounded amount.
  Every retry loop is bounded, and every loop of reads makes progress.  (The calls of the image
  library and of the operating system return in this model; only the body of a download may
  stall.)  The program sets no time limit and, without a quota, no limit of size, so the
  assumption on the bodies is needed: a body that stalls keeps the copy waiting for ever.
\<close>

section \<open>The layer source\<close>

lemma ends_on_world [ends_intros]: "ends r \<Longrightarrow> ends (on_world r s)"
  by (auto simp: on_world_def intro!: ends_intros)

lemma index_at_ends: "index_at xs i = Diverges \<longleftrightarrow> False"
  by (simp add: index_at_def)









text \<open>The assumption is needed: nothing that reads a stalled body returns.\<close>

lemma stalled_body_never_copied:
  assumes "bl_chunks s = []" "bl_rest s = Stalls"
  shows "\<not> ends (io_copy (tee_read stream_read) wr (s, h) d)"
proof -
  have "stream_read n s = (Diverges, s)" for n
    using assms by (simp add: stream_read_def refilled_def)
  then have "loop (copy_round (tee_read stream_read) wr) \<lparr>cp_written = 0, cp_src = (s, h), cp_dst = d\<rparr> =
      Some (Diverges, (s, h), d)"
    by (subst loop.simps) (simp add: copy_round_def tee_read_def)
  then show ?thesis by (simp add: io_copy_def)
qed











section \<open>The fetchers\<close>









section \<open>The puller\<close>




section \<open>The command line\<close>















end
