(* ===== verification/Counterfeiter.thy ===== *)
theory Counterfeiter
  imports Ending_Readers
begin

text \<open>
  The test doubles that \<^verbatim>\<open>counterfeiter\<close> generates from the program's interfaces.  Every method of an
  interface has the same four fields in the fake (a stub, the arguments of the calls so far, the
  results to return, and results for single calls) and the same operations on them, defined here
  once for all methods.  The fakes themselves are in the theories \<open>Groot_Fakes\<close>,
  \<open>Imagepuller_Fakes\<close> and \<open>Layerfetcher_Fakes\<close>.  Their mutexes are left out: they are locked
  and unlocked within one operation, and the model has no concurrency.
\<close>

section \<open>The fields of a method\<close>

text \<open>
  \<open>'a\<close> are the arguments recorded, \<open>'r\<close> the results, \<open>'b\<close> what a stub does.  A stub is code of
  the test; it acts on a state of its own.  The counters of calls are Go's \<^verbatim>\<open>int\<close>.
\<close>

record ('a, 'r, 'b) method_fake =
  mf_Stub :: "('a \<Rightarrow> 'b) option"
  mf_ArgsForCall :: "'a list"
  mf_Returns :: 'r
  mf_ReturnsOnCall :: "int \<rightharpoonup> 'r"

type_synonym ('r, 's) stub_run = "'s \<Rightarrow> 'r outcome \<times> 's"
type_synonym ('a, 'r, 's) fake_method = "('a, 'r, ('r, 's) stub_run) method_fake"

text \<open>The stub of a method with a reader among its arguments is a client of that reader.\<close>

type_synonym ('r, 's) stub_client = "'s \<Rightarrow> ('r \<times> 's) client"
type_synonym ('a, 'r, 's) fake_reader_method = "('a, 'r, ('r, 's) stub_client) method_fake"

text \<open>The method of a new fake; \<open>zero\<close> is the zero value of its results.\<close>

definition new_method_fake :: "'r \<Rightarrow> ('a, 'r, 'b) method_fake" where
  "new_method_fake zero =
     \<lparr>mf_Stub = None, mf_ArgsForCall = [], mf_Returns = zero, mf_ReturnsOnCall = Map.empty\<rparr>"

section \<open>The operations on a method\<close>

text \<open>
  A call records its arguments; its answer is the stub's, or the result set for the call of this
  number, or the result set for all calls.
\<close>

definition fake_call :: "'a \<Rightarrow> ('a, 'r, 'b) method_fake \<Rightarrow> ('b + 'r) \<times> ('a, 'r, 'b) method_fake" where
  "fake_call args f =
     (let specific = mf_ReturnsOnCall f (int (length (mf_ArgsForCall f)))
      in (case mf_Stub f of
            Some stub \<Rightarrow> Inl (stub args)
          | None \<Rightarrow> Inr (case specific of Some ret \<Rightarrow> ret | None \<Rightarrow> mf_Returns f),
          f\<lparr>mf_ArgsForCall := mf_ArgsForCall f @ [args]\<rparr>))"

definition fake_call_count :: "('a, 'r, 'b) method_fake \<Rightarrow> int" where
  "fake_call_count f = int (length (mf_ArgsForCall f))"

definition fake_calls :: "('a \<Rightarrow> 'b) option \<Rightarrow> ('a, 'r, 'b) method_fake \<Rightarrow> ('a, 'r, 'b) method_fake" where
  "fake_calls stub f = f\<lparr>mf_Stub := stub\<rparr>"

definition fake_args_for_call :: "int \<Rightarrow> ('a, 'r, 'b) method_fake \<Rightarrow> 'a outcome" where
  "fake_args_for_call i f =
     (if i < 0 then Panic ''index out of range'' else index_at (mf_ArgsForCall f) (nat i))"

definition fake_returns :: "'r \<Rightarrow> ('a, 'r, 'b) method_fake \<Rightarrow> ('a, 'r, 'b) method_fake" where
  "fake_returns ret f = f\<lparr>mf_Stub := None, mf_Returns := ret\<rparr>"

definition fake_returns_on_call :: "int \<Rightarrow> 'r \<Rightarrow> ('a, 'r, 'b) method_fake \<Rightarrow> ('a, 'r, 'b) method_fake" where
  "fake_returns_on_call i ret f =
     f\<lparr>mf_Stub := None, mf_ReturnsOnCall := (mf_ReturnsOnCall f)(i \<mapsto> ret)\<rparr>"

text \<open>Running the stub, or returning; the fake \<open>x\<close> has been updated before.\<close>

definition fake_answer :: "('r, 's) stub_run + 'r \<Rightarrow> 'x \<Rightarrow> 's \<Rightarrow> 'r outcome \<times> ('x \<times> 's)" where
  "fake_answer answer x s =
     (case answer of
        Inl run \<Rightarrow> (case run s of (r, s') \<Rightarrow> (r, (x, s')))
      | Inr ret \<Rightarrow> (Val ret, (x, s)))"

definition fake_reader_answer :: "('r, 's) stub_client + 'r \<Rightarrow> 'x \<Rightarrow> 's \<Rightarrow> ('r \<times> ('x \<times> 's)) client" where
  "fake_reader_answer answer x s =
     (case answer of
        Inl run \<Rightarrow> map_client (\<lambda>(r, s'). (r, (x, s'))) (run s)
      | Inr ret \<Rightarrow> Return (ret, (x, s)))"

text \<open>\<^verbatim>\<open>recordInvocation\<close>: a nil map, or one without the key, has no invocations yet.\<close>

definition record_invocation :: "string \<Rightarrow> 'i list \<Rightarrow> (string \<rightharpoonup> 'i list list) \<Rightarrow> (string \<rightharpoonup> 'i list list)" where
  "record_invocation key args invocations =
     invocations(key \<mapsto> (case invocations key of None \<Rightarrow> [] | Some calls \<Rightarrow> calls) @ [args])"

text \<open>A pair of results whose value is used only when the error is nil.\<close>

definition to_res :: "'a \<times> error option \<Rightarrow> 'a res" where
  "to_res r = (case r of (v, None) \<Rightarrow> Inr v | (_, Some e) \<Rightarrow> Inl e)"

section \<open>Lemmas\<close>

lemma to_res_simps [simp]: "to_res (v, None) = Inr v" "to_res (v, Some e) = Inl e"
  by (simp_all add: to_res_def)

lemma new_method_fake_simps [simp]:
  "mf_Stub (new_method_fake z) = None" "mf_ArgsForCall (new_method_fake z) = []"
  "mf_Returns (new_method_fake z) = z" "mf_ReturnsOnCall (new_method_fake z) = Map.empty"
  by (simp_all add: new_method_fake_def)

lemma fake_call_recorded [simp]:
  "mf_ArgsForCall (snd (fake_call args f)) = mf_ArgsForCall f @ [args]"
  "mf_Stub (snd (fake_call args f)) = mf_Stub f" "mf_Returns (snd (fake_call args f)) = mf_Returns f"
  "mf_ReturnsOnCall (snd (fake_call args f)) = mf_ReturnsOnCall f"
  by (simp_all add: fake_call_def Let_def)

lemma fake_programming_recorded [simp]:
  "mf_ArgsForCall (fake_calls stub f) = mf_ArgsForCall f"
  "mf_ArgsForCall (fake_returns ret f) = mf_ArgsForCall f"
  "mf_ArgsForCall (fake_returns_on_call i ret f) = mf_ArgsForCall f"
  by (simp_all add: fake_calls_def fake_returns_def fake_returns_on_call_def)

text \<open>Whatever a stub does, it does not reach the fake.\<close>

lemma fake_answer_state: "fake_answer a x s = (r, (y, t)) \<Longrightarrow> y = x"
  by (auto simp: fake_answer_def split: sum.splits prod.splits)

lemma fake_answer_returned [simp]: "fake_answer (Inr ret) x s = (Val ret, (x, s))"
  by (simp add: fake_answer_def)

lemma fake_reader_answer_returned [simp]: "fake_reader_answer (Inr ret) x s = Return (ret, (x, s))"
  by (simp add: fake_reader_answer_def)

lemma client_returns_map: "client_returns (map_client f c) k b \<Longrightarrow> \<exists>a. client_returns c k a \<and> b = f a"
proof (induction c arbitrary: k)
  case (Return a)
  then show ?case by (auto elim!: client_returns_ReturnE intro: client_returns.at_once)
next
  case (Read_then n c)
  from Read_then.prems have "client_returns (Read_then n (map_client f \<circ> c)) k b" by simp
  then obtain r j where r: "length (fst r) \<le> n" "client_returns (map_client f (c r)) j b"
    and k: "effective n r \<and> k = Suc j \<or> \<not> effective n r \<and> k = j"
    by (auto elim!: client_returns_ReadE)
  with Read_then.IH [OF rangeI r(2)] obtain a where "client_returns (c r) j a" "b = f a" by blast
  with r(1) k show ?case
    by (auto intro: client_returns.after_effective [of r] client_returns.after_other [of r])
qed (auto elim: client_returns.cases)

lemma fake_reader_answer_state:
  assumes "client_returns (fake_reader_answer a x s) k (r, (y, t))"
  shows "y = x"
proof (cases a)
  case (Inl run)
  with assms show ?thesis by (auto simp: fake_reader_answer_def dest!: client_returns_map)
next
  case (Inr ret)
  with assms show ?thesis by (auto elim: client_returns_ReturnE)
qed

lemma run_client_fake_state:
  assumes "run_client rd (fake_reader_answer a x s) w = (Val (r, (y, t)), w')"
  shows "y = x"
  using assms by (cases a) (auto simp: fake_reader_answer_def run_client_map obind_eq_Val)

text \<open>A method that has been given results and no stub.\<close>

definition programmed :: "'r \<Rightarrow> ('a, 'r, 'b) method_fake \<Rightarrow> bool" where
  "programmed ret f \<longleftrightarrow> mf_Stub f = None \<and> mf_ReturnsOnCall f (fake_call_count f) = None \<and> mf_Returns f = ret"

lemma programmed_call: "programmed ret f \<Longrightarrow> fst (fake_call args f) = Inr ret"
  by (simp add: programmed_def fake_call_def fake_call_count_def)

text \<open>
  The answers to a number of calls: the reference is the list of the results set for single
  calls, filled up with the one for all calls.
\<close>

primrec answers :: "'a list \<Rightarrow> ('a, 'r, 'b) method_fake \<Rightarrow> ('b + 'r) list \<times> ('a, 'r, 'b) method_fake" where
  "answers [] f = ([], f)"
| "answers (args # calls) f =
     (case fake_call args f of (a, f1) \<Rightarrow> (case answers calls f1 of (as, f2) \<Rightarrow> (a # as, f2)))"

definition answer_of_call :: "('a, 'r, 'b) method_fake \<Rightarrow> nat \<Rightarrow> 'r" where
  "answer_of_call f k = (case mf_ReturnsOnCall f (int k) of Some ret \<Rightarrow> ret | None \<Rightarrow> mf_Returns f)"

lemma map_upt_first: "map g [0..<Suc n] = g 0 # map (\<lambda>k. g (Suc k)) [0..<n]"
  by (simp add: upt_conv_Cons map_Suc_upt [symmetric] del: upt_Suc)

lemma answers_without_stub:
  assumes "mf_Stub f = None"
  shows "answers calls f =
    (map (\<lambda>k. Inr (answer_of_call f (length (mf_ArgsForCall f) + k))) [0..<length calls],
     f\<lparr>mf_ArgsForCall := mf_ArgsForCall f @ calls\<rparr>)"
  using assms
proof (induction calls arbitrary: f)
  case (Cons args calls)
  let ?f = "snd (fake_call args f)"
  have "fake_call args f = (Inr (answer_of_call f (length (mf_ArgsForCall f))), ?f)"
    using Cons.prems by (simp add: fake_call_def answer_of_call_def)
  moreover have "answer_of_call ?f = answer_of_call f"
    by (simp add: answer_of_call_def fun_eq_iff split: option.split)
  moreover have "?f = f\<lparr>mf_ArgsForCall := mf_ArgsForCall f @ [args]\<rparr>"
    by (simp add: fake_call_def Let_def)
  ultimately show ?case using Cons.IH [of ?f] Cons.prems by (simp add: map_upt_first del: upt_Suc)
qed simp

section \<open>What a fake as a whole records\<close>

text \<open>
  The log of all invocations as the records of the single methods determine it: a method that has
  not been called has no entry.
\<close>

definition invocation_log :: "(string \<times> 'i list list) list \<Rightarrow> (string \<rightharpoonup> 'i list list)" where
  "invocation_log records = (\<lambda>key. case map_of records key of Some (c # cs) \<Rightarrow> Some (c # cs) | _ \<Rightarrow> None)"

lemma invocation_log_record:
  assumes "map_of records key = Some calls"
    and "\<And>k. map_of records' k = (if k = key then Some (calls @ [args]) else map_of records k)"
  shows "record_invocation key args (invocation_log records) = invocation_log records'"
  using assms
  by (cases calls) (auto simp: fun_eq_iff record_invocation_def invocation_log_def split: option.splits list.splits)

end
