(* ===== verification/Groot_Fakes.thy ===== *)
theory Groot_Fakes
  imports Counterfeiter Groot_Core
begin

text \<open>
  \<^verbatim>\<open>grootfakes\<close>: the fakes of the driver and of the image puller, with which the unit tests of
  \<^verbatim>\<open>create.go\<close>, \<^verbatim>\<open>pull.go\<close>, \<^verbatim>\<open>delete.go\<close> and \<^verbatim>\<open>stats.go\<close> run.  The
  logger among the arguments is left out, as everywhere, and a reader is not recorded: it is what
  the client of \<^verbatim>\<open>Unpack\<close> reads from.  The state of a fake is passed together with that of its
  stubs.
\<close>

section \<open>FakeDriver\<close>

text \<open>What an invocation records of its arguments.\<close>

datatype driver_arg =
    AString string
  | AStrings "string list"
  | AInt64 int64
  | AMetadata image_metadata

record 's fake_driver =
  driver_Bundle :: "(string \<times> string list \<times> int64, runtime_spec \<times> error option, 's) fake_method"
  driver_Delete :: "(string, error option, 's) fake_method"
  driver_Stats :: "(string, volume_stats \<times> error option, 's) fake_method"
  driver_Unpack :: "(string \<times> string list, int64 \<times> error option, 's) fake_reader_method"
  driver_WriteMetadata :: "(string \<times> image_metadata, error option, 's) fake_method"
  driver_invocations :: "string \<rightharpoonup> driver_arg list list"

definition new_FakeDriver :: "'s fake_driver" where
  "new_FakeDriver =
     \<lparr>driver_Bundle = new_method_fake (empty_spec, None),
      driver_Delete = new_method_fake None,
      driver_Stats = new_method_fake (\<lparr>DiskUsage = \<lparr>TotalBytesUsed = 0, ExclusiveBytesUsed = 0\<rparr>\<rparr>, None),
      driver_Unpack = new_method_fake (0, None),
      driver_WriteMetadata = new_method_fake None,
      driver_invocations = Map.empty\<rparr>"

definition FakeDriver_recordInvocation :: "string \<Rightarrow> driver_arg list \<Rightarrow> 's fake_driver \<Rightarrow> 's fake_driver" where
  "FakeDriver_recordInvocation key args fake =
     fake\<lparr>driver_invocations := record_invocation key args (driver_invocations fake)\<rparr>"

definition FakeDriver_Invocations :: "'s fake_driver \<Rightarrow> (string \<rightharpoonup> driver_arg list list)" where
  "FakeDriver_Invocations fake = driver_invocations fake"

paragraph \<open>Bundle\<close>

definition FakeDriver_Bundle :: "string \<Rightarrow> string list \<Rightarrow> int64 \<Rightarrow> 's fake_driver \<times> 's \<Rightarrow>
    (runtime_spec \<times> error option) outcome \<times> ('s fake_driver \<times> 's)" where
  "FakeDriver_Bundle arg2 arg3 arg4 st =
     (case st of (fake, s) \<Rightarrow>
        (case fake_call (arg2, arg3, arg4) (driver_Bundle fake) of
           (answer, m) \<Rightarrow>
             fake_answer answer
               (FakeDriver_recordInvocation ''Bundle'' [AString arg2, AStrings arg3, AInt64 arg4]
                 (fake\<lparr>driver_Bundle := m\<rparr>)) s))"

definition FakeDriver_BundleCallCount :: "'s fake_driver \<Rightarrow> int" where
  "FakeDriver_BundleCallCount fake = fake_call_count (driver_Bundle fake)"

definition FakeDriver_BundleCalls :: "((string \<times> string list \<times> int64) \<Rightarrow> (runtime_spec \<times> error option, 's) stub_run) option \<Rightarrow>
    's fake_driver \<Rightarrow> 's fake_driver" where
  "FakeDriver_BundleCalls stub fake = fake\<lparr>driver_Bundle := fake_calls stub (driver_Bundle fake)\<rparr>"

definition FakeDriver_BundleArgsForCall :: "int \<Rightarrow> 's fake_driver \<Rightarrow> (string \<times> string list \<times> int64) outcome" where
  "FakeDriver_BundleArgsForCall i fake = fake_args_for_call i (driver_Bundle fake)"

definition FakeDriver_BundleReturns :: "runtime_spec \<Rightarrow> error option \<Rightarrow> 's fake_driver \<Rightarrow> 's fake_driver" where
  "FakeDriver_BundleReturns result1 result2 fake =
     fake\<lparr>driver_Bundle := fake_returns (result1, result2) (driver_Bundle fake)\<rparr>"

definition FakeDriver_BundleReturnsOnCall :: "int \<Rightarrow> runtime_spec \<Rightarrow> error option \<Rightarrow> 's fake_driver \<Rightarrow> 's fake_driver" where
  "FakeDriver_BundleReturnsOnCall i result1 result2 fake =
     fake\<lparr>driver_Bundle := fake_returns_on_call i (result1, result2) (driver_Bundle fake)\<rparr>"

paragraph \<open>Delete\<close>

definition FakeDriver_Delete :: "string \<Rightarrow> 's fake_driver \<times> 's \<Rightarrow>
    (error option) outcome \<times> ('s fake_driver \<times> 's)" where
  "FakeDriver_Delete arg2 st =
     (case st of (fake, s) \<Rightarrow>
        (case fake_call arg2 (driver_Delete fake) of
           (answer, m) \<Rightarrow>
             fake_answer answer
               (FakeDriver_recordInvocation ''Delete'' [AString arg2]
                 (fake\<lparr>driver_Delete := m\<rparr>)) s))"

definition FakeDriver_DeleteCallCount :: "'s fake_driver \<Rightarrow> int" where
  "FakeDriver_DeleteCallCount fake = fake_call_count (driver_Delete fake)"

definition FakeDriver_DeleteCalls :: "(string \<Rightarrow> (error option, 's) stub_run) option \<Rightarrow>
    's fake_driver \<Rightarrow> 's fake_driver" where
  "FakeDriver_DeleteCalls stub fake = fake\<lparr>driver_Delete := fake_calls stub (driver_Delete fake)\<rparr>"

definition FakeDriver_DeleteArgsForCall :: "int \<Rightarrow> 's fake_driver \<Rightarrow> string outcome" where
  "FakeDriver_DeleteArgsForCall i fake = fake_args_for_call i (driver_Delete fake)"

definition FakeDriver_DeleteReturns :: "error option \<Rightarrow> 's fake_driver \<Rightarrow> 's fake_driver" where
  "FakeDriver_DeleteReturns result1 fake =
     fake\<lparr>driver_Delete := fake_returns result1 (driver_Delete fake)\<rparr>"

definition FakeDriver_DeleteReturnsOnCall :: "int \<Rightarrow> error option \<Rightarrow> 's fake_driver \<Rightarrow> 's fake_driver" where
  "FakeDriver_DeleteReturnsOnCall i result1 fake =
     fake\<lparr>driver_Delete := fake_returns_on_call i result1 (driver_Delete fake)\<rparr>"

paragraph \<open>Stats\<close>

definition FakeDriver_Stats :: "string \<Rightarrow> 's fake_driver \<times> 's \<Rightarrow>
    (volume_stats \<times> error option) outcome \<times> ('s fake_driver \<times> 's)" where
  "FakeDriver_Stats arg2 st =
     (case st of (fake, s) \<Rightarrow>
        (case fake_call arg2 (driver_Stats fake) of
           (answer, m) \<Rightarrow>
             fake_answer answer
               (FakeDriver_recordInvocation ''Stats'' [AString arg2]
                 (fake\<lparr>driver_Stats := m\<rparr>)) s))"

definition FakeDriver_StatsCallCount :: "'s fake_driver \<Rightarrow> int" where
  "FakeDriver_StatsCallCount fake = fake_call_count (driver_Stats fake)"

definition FakeDriver_StatsCalls :: "(string \<Rightarrow> (volume_stats \<times> error option, 's) stub_run) option \<Rightarrow>
    's fake_driver \<Rightarrow> 's fake_driver" where
  "FakeDriver_StatsCalls stub fake = fake\<lparr>driver_Stats := fake_calls stub (driver_Stats fake)\<rparr>"

definition FakeDriver_StatsArgsForCall :: "int \<Rightarrow> 's fake_driver \<Rightarrow> string outcome" where
  "FakeDriver_StatsArgsForCall i fake = fake_args_for_call i (driver_Stats fake)"

definition FakeDriver_StatsReturns :: "volume_stats \<Rightarrow> error option \<Rightarrow> 's fake_driver \<Rightarrow> 's fake_driver" where
  "FakeDriver_StatsReturns result1 result2 fake =
     fake\<lparr>driver_Stats := fake_returns (result1, result2) (driver_Stats fake)\<rparr>"

definition FakeDriver_StatsReturnsOnCall :: "int \<Rightarrow> volume_stats \<Rightarrow> error option \<Rightarrow> 's fake_driver \<Rightarrow> 's fake_driver" where
  "FakeDriver_StatsReturnsOnCall i result1 result2 fake =
     fake\<lparr>driver_Stats := fake_returns_on_call i (result1, result2) (driver_Stats fake)\<rparr>"

paragraph \<open>Unpack\<close>

definition FakeDriver_Unpack :: "string \<Rightarrow> string list \<Rightarrow> 's fake_driver \<times> 's \<Rightarrow>
    ((int64 \<times> error option) \<times> ('s fake_driver \<times> 's)) client" where
  "FakeDriver_Unpack arg2 arg3 st =
     (case st of (fake, s) \<Rightarrow>
        (case fake_call (arg2, arg3) (driver_Unpack fake) of
           (answer, m) \<Rightarrow>
             fake_reader_answer answer
               (FakeDriver_recordInvocation ''Unpack'' [AString arg2, AStrings arg3]
                 (fake\<lparr>driver_Unpack := m\<rparr>)) s))"

definition FakeDriver_UnpackCallCount :: "'s fake_driver \<Rightarrow> int" where
  "FakeDriver_UnpackCallCount fake = fake_call_count (driver_Unpack fake)"

definition FakeDriver_UnpackCalls :: "((string \<times> string list) \<Rightarrow> (int64 \<times> error option, 's) stub_client) option \<Rightarrow>
    's fake_driver \<Rightarrow> 's fake_driver" where
  "FakeDriver_UnpackCalls stub fake = fake\<lparr>driver_Unpack := fake_calls stub (driver_Unpack fake)\<rparr>"

definition FakeDriver_UnpackArgsForCall :: "int \<Rightarrow> 's fake_driver \<Rightarrow> (string \<times> string list) outcome" where
  "FakeDriver_UnpackArgsForCall i fake = fake_args_for_call i (driver_Unpack fake)"

definition FakeDriver_UnpackReturns :: "int64 \<Rightarrow> error option \<Rightarrow> 's fake_driver \<Rightarrow> 's fake_driver" where
  "FakeDriver_UnpackReturns result1 result2 fake =
     fake\<lparr>driver_Unpack := fake_returns (result1, result2) (driver_Unpack fake)\<rparr>"

definition FakeDriver_UnpackReturnsOnCall :: "int \<Rightarrow> int64 \<Rightarrow> error option \<Rightarrow> 's fake_driver \<Rightarrow> 's fake_driver" where
  "FakeDriver_UnpackReturnsOnCall i result1 result2 fake =
     fake\<lparr>driver_Unpack := fake_returns_on_call i (result1, result2) (driver_Unpack fake)\<rparr>"

paragraph \<open>WriteMetadata\<close>

definition FakeDriver_WriteMetadata :: "string \<Rightarrow> image_metadata \<Rightarrow> 's fake_driver \<times> 's \<Rightarrow>
    (error option) outcome \<times> ('s fake_driver \<times> 's)" where
  "FakeDriver_WriteMetadata arg2 arg3 st =
     (case st of (fake, s) \<Rightarrow>
        (case fake_call (arg2, arg3) (driver_WriteMetadata fake) of
           (answer, m) \<Rightarrow>
             fake_answer answer
               (FakeDriver_recordInvocation ''WriteMetadata'' [AString arg2, AMetadata arg3]
                 (fake\<lparr>driver_WriteMetadata := m\<rparr>)) s))"

definition FakeDriver_WriteMetadataCallCount :: "'s fake_driver \<Rightarrow> int" where
  "FakeDriver_WriteMetadataCallCount fake = fake_call_count (driver_WriteMetadata fake)"

definition FakeDriver_WriteMetadataCalls :: "((string \<times> image_metadata) \<Rightarrow> (error option, 's) stub_run) option \<Rightarrow>
    's fake_driver \<Rightarrow> 's fake_driver" where
  "FakeDriver_WriteMetadataCalls stub fake = fake\<lparr>driver_WriteMetadata := fake_calls stub (driver_WriteMetadata fake)\<rparr>"

definition FakeDriver_WriteMetadataArgsForCall :: "int \<Rightarrow> 's fake_driver \<Rightarrow> (string \<times> image_metadata) outcome" where
  "FakeDriver_WriteMetadataArgsForCall i fake = fake_args_for_call i (driver_WriteMetadata fake)"

definition FakeDriver_WriteMetadataReturns :: "error option \<Rightarrow> 's fake_driver \<Rightarrow> 's fake_driver" where
  "FakeDriver_WriteMetadataReturns result1 fake =
     fake\<lparr>driver_WriteMetadata := fake_returns result1 (driver_WriteMetadata fake)\<rparr>"

definition FakeDriver_WriteMetadataReturnsOnCall :: "int \<Rightarrow> error option \<Rightarrow> 's fake_driver \<Rightarrow> 's fake_driver" where
  "FakeDriver_WriteMetadataReturnsOnCall i result1 fake =
     fake\<lparr>driver_WriteMetadata := fake_returns_on_call i result1 (driver_WriteMetadata fake)\<rparr>"

section \<open>FakeImagePuller\<close>

text \<open>What an invocation records of its arguments.\<close>

datatype puller_arg =
    AImageSpec image_spec

record 's fake_image_puller =
  puller_Pull :: "(image_spec, pulled_image \<times> error option, 's) fake_method"
  puller_invocations :: "string \<rightharpoonup> puller_arg list list"

definition new_FakeImagePuller :: "'s fake_image_puller" where
  "new_FakeImagePuller =
     \<lparr>puller_Pull = new_method_fake (\<lparr>pi_Config = empty_config, ChainIDs = [], pi_Size = 0\<rparr>, None),
      puller_invocations = Map.empty\<rparr>"

definition FakeImagePuller_recordInvocation :: "string \<Rightarrow> puller_arg list \<Rightarrow> 's fake_image_puller \<Rightarrow> 's fake_image_puller" where
  "FakeImagePuller_recordInvocation key args fake =
     fake\<lparr>puller_invocations := record_invocation key args (puller_invocations fake)\<rparr>"

definition FakeImagePuller_Invocations :: "'s fake_image_puller \<Rightarrow> (string \<rightharpoonup> puller_arg list list)" where
  "FakeImagePuller_Invocations fake = puller_invocations fake"

paragraph \<open>Pull\<close>

definition FakeImagePuller_Pull :: "image_spec \<Rightarrow> 's fake_image_puller \<times> 's \<Rightarrow>
    (pulled_image \<times> error option) outcome \<times> ('s fake_image_puller \<times> 's)" where
  "FakeImagePuller_Pull arg2 st =
     (case st of (fake, s) \<Rightarrow>
        (case fake_call arg2 (puller_Pull fake) of
           (answer, m) \<Rightarrow>
             fake_answer answer
               (FakeImagePuller_recordInvocation ''Pull'' [AImageSpec arg2]
                 (fake\<lparr>puller_Pull := m\<rparr>)) s))"

definition FakeImagePuller_PullCallCount :: "'s fake_image_puller \<Rightarrow> int" where
  "FakeImagePuller_PullCallCount fake = fake_call_count (puller_Pull fake)"

definition FakeImagePuller_PullCalls :: "(image_spec \<Rightarrow> (pulled_image \<times> error option, 's) stub_run) option \<Rightarrow>
    's fake_image_puller \<Rightarrow> 's fake_image_puller" where
  "FakeImagePuller_PullCalls stub fake = fake\<lparr>puller_Pull := fake_calls stub (puller_Pull fake)\<rparr>"

definition FakeImagePuller_PullArgsForCall :: "int \<Rightarrow> 's fake_image_puller \<Rightarrow> image_spec outcome" where
  "FakeImagePuller_PullArgsForCall i fake = fake_args_for_call i (puller_Pull fake)"

definition FakeImagePuller_PullReturns :: "pulled_image \<Rightarrow> error option \<Rightarrow> 's fake_image_puller \<Rightarrow> 's fake_image_puller" where
  "FakeImagePuller_PullReturns result1 result2 fake =
     fake\<lparr>puller_Pull := fake_returns (result1, result2) (puller_Pull fake)\<rparr>"

definition FakeImagePuller_PullReturnsOnCall :: "int \<Rightarrow> pulled_image \<Rightarrow> error option \<Rightarrow> 's fake_image_puller \<Rightarrow> 's fake_image_puller" where
  "FakeImagePuller_PullReturnsOnCall i result1 result2 fake =
     fake\<lparr>puller_Pull := fake_returns_on_call i (result1, result2) (puller_Pull fake)\<rparr>"

section \<open>The fakes as driver and puller\<close>

definition fake_driver_methods :: "('s fake_driver \<times> 's) driver" where
  "fake_driver_methods =
     \<lparr>Unpack = (\<lambda>layerID parentIDs st. map_client (\<lambda>(r, st). (Val (to_res r), st)) (FakeDriver_Unpack layerID parentIDs st)),
      Bundle = (\<lambda>handle ids quota st. seq (FakeDriver_Bundle handle ids quota st) (\<lambda>r st. (Val (to_res r), st))),
      Delete = FakeDriver_Delete,
      Stats = (\<lambda>handle st. seq (FakeDriver_Stats handle st) (\<lambda>r st. (Val (to_res r), st))),
      WriteMetadata = FakeDriver_WriteMetadata\<rparr>"

definition fake_puller :: "('s fake_image_puller \<times> 's, 'd) image_puller" where
  "fake_puller spec wd =
     (case wd of (w, d) \<Rightarrow>
        obind (FakeImagePuller_Pull spec w) (\<lambda>r w. (Val (to_res r), (w, d))) (\<lambda>w. (w, d)))"

section \<open>What the fake driver records\<close>

text \<open>
  The test uses the fake: it calls a method (that of \<^verbatim>\<open>Unpack\<close> on some reader), sets stubs and
  results, or does anything else.
\<close>

inductive driver_step :: "'s fake_driver \<times> 's \<Rightarrow> 's fake_driver \<times> 's \<Rightarrow> bool" where
  call_bundle: "FakeDriver_Bundle handle ids quota st = (r, st') \<Longrightarrow> driver_step st st'"
| call_delete: "FakeDriver_Delete handle st = (err, st') \<Longrightarrow> driver_step st st'"
| call_stats: "FakeDriver_Stats handle st = (v, st') \<Longrightarrow> driver_step st st'"
| call_unpack: "client_returns (FakeDriver_Unpack layerID parentIDs st) k (n, st') \<Longrightarrow> driver_step st st'"
| call_write_metadata: "FakeDriver_WriteMetadata handle meta st = (err, st') \<Longrightarrow> driver_step st st'"
| bundle_calls: "driver_step (fake, s) (FakeDriver_BundleCalls bundle_stub fake, s)"
| delete_calls: "driver_step (fake, s) (FakeDriver_DeleteCalls delete_stub fake, s)"
| stats_calls: "driver_step (fake, s) (FakeDriver_StatsCalls stats_stub fake, s)"
| unpack_calls: "driver_step (fake, s) (FakeDriver_UnpackCalls unpack_stub fake, s)"
| write_metadata_calls: "driver_step (fake, s) (FakeDriver_WriteMetadataCalls write_stub fake, s)"
| bundle_returns: "driver_step (fake, s) (FakeDriver_BundleReturns spec err fake, s)"
| delete_returns: "driver_step (fake, s) (FakeDriver_DeleteReturns err fake, s)"
| stats_returns: "driver_step (fake, s) (FakeDriver_StatsReturns v err fake, s)"
| unpack_returns: "driver_step (fake, s) (FakeDriver_UnpackReturns n err fake, s)"
| write_metadata_returns: "driver_step (fake, s) (FakeDriver_WriteMetadataReturns err fake, s)"
| bundle_on_call: "driver_step (fake, s) (FakeDriver_BundleReturnsOnCall i spec err fake, s)"
| delete_on_call: "driver_step (fake, s) (FakeDriver_DeleteReturnsOnCall i err fake, s)"
| stats_on_call: "driver_step (fake, s) (FakeDriver_StatsReturnsOnCall i v err fake, s)"
| unpack_on_call: "driver_step (fake, s) (FakeDriver_UnpackReturnsOnCall i n err fake, s)"
| write_metadata_on_call: "driver_step (fake, s) (FakeDriver_WriteMetadataReturnsOnCall i err fake, s)"
| other: "driver_step (fake, s) (fake, t)"

text \<open>The records of the single methods, as invocations.\<close>

definition driver_records :: "'s fake_driver \<Rightarrow> (string \<times> driver_arg list list) list" where
  "driver_records fake =
     [(''Bundle'', map (\<lambda>(handle, ids, quota). [AString handle, AStrings ids, AInt64 quota]) (mf_ArgsForCall (driver_Bundle fake))),
      (''Delete'', map (\<lambda>handle. [AString handle]) (mf_ArgsForCall (driver_Delete fake))),
      (''Stats'', map (\<lambda>handle. [AString handle]) (mf_ArgsForCall (driver_Stats fake))),
      (''Unpack'', map (\<lambda>(layerID, parentIDs). [AString layerID, AStrings parentIDs]) (mf_ArgsForCall (driver_Unpack fake))),
      (''WriteMetadata'', map (\<lambda>(handle, meta). [AString handle, AMetadata meta]) (mf_ArgsForCall (driver_WriteMetadata fake)))]"

definition driver_recorded :: "'s fake_driver \<Rightarrow> bool" where
  "driver_recorded fake \<longleftrightarrow> FakeDriver_Invocations fake = invocation_log (driver_records fake)"

lemma new_FakeDriver_recorded: "driver_recorded new_FakeDriver"
  by (auto simp: driver_recorded_def FakeDriver_Invocations_def new_FakeDriver_def driver_records_def invocation_log_def
      fun_eq_iff)

lemma driver_recorded_call:
  assumes "driver_recorded fake"
  shows "driver_recorded (FakeDriver_recordInvocation ''Bundle'' [AString h, AStrings ids, AInt64 q]
      (fake\<lparr>driver_Bundle := snd (fake_call (h, ids, q) (driver_Bundle fake))\<rparr>))"
    and "driver_recorded (FakeDriver_recordInvocation ''Delete'' [AString h]
      (fake\<lparr>driver_Delete := snd (fake_call h (driver_Delete fake))\<rparr>))"
    and "driver_recorded (FakeDriver_recordInvocation ''Stats'' [AString h]
      (fake\<lparr>driver_Stats := snd (fake_call h (driver_Stats fake))\<rparr>))"
    and "driver_recorded (FakeDriver_recordInvocation ''Unpack'' [AString h, AStrings ids]
      (fake\<lparr>driver_Unpack := snd (fake_call (h, ids) (driver_Unpack fake))\<rparr>))"
    and "driver_recorded (FakeDriver_recordInvocation ''WriteMetadata'' [AString h, AMetadata meta]
      (fake\<lparr>driver_WriteMetadata := snd (fake_call (h, meta) (driver_WriteMetadata fake))\<rparr>))"
  using assms
  by (simp_all add: driver_recorded_def FakeDriver_Invocations_def FakeDriver_recordInvocation_def driver_records_def
      invocation_log_record)

lemmas driver_programming_defs =
  FakeDriver_BundleCalls_def FakeDriver_BundleReturns_def FakeDriver_BundleReturnsOnCall_def
  FakeDriver_DeleteCalls_def FakeDriver_DeleteReturns_def FakeDriver_DeleteReturnsOnCall_def
  FakeDriver_StatsCalls_def FakeDriver_StatsReturns_def FakeDriver_StatsReturnsOnCall_def
  FakeDriver_UnpackCalls_def FakeDriver_UnpackReturns_def FakeDriver_UnpackReturnsOnCall_def
  FakeDriver_WriteMetadataCalls_def FakeDriver_WriteMetadataReturns_def FakeDriver_WriteMetadataReturnsOnCall_def

text \<open>The fake after a call, whatever the stub does.\<close>

lemma driver_call_state:
  "FakeDriver_Bundle h ids q (fake, s) = (r, (fake', s')) \<Longrightarrow>
    fake' = FakeDriver_recordInvocation ''Bundle'' [AString h, AStrings ids, AInt64 q]
      (fake\<lparr>driver_Bundle := snd (fake_call (h, ids, q) (driver_Bundle fake))\<rparr>)"
  "FakeDriver_Delete h (fake, s) = (err, (fake', s')) \<Longrightarrow>
    fake' = FakeDriver_recordInvocation ''Delete'' [AString h]
      (fake\<lparr>driver_Delete := snd (fake_call h (driver_Delete fake))\<rparr>)"
  "FakeDriver_Stats h (fake, s) = (v, (fake', s')) \<Longrightarrow>
    fake' = FakeDriver_recordInvocation ''Stats'' [AString h]
      (fake\<lparr>driver_Stats := snd (fake_call h (driver_Stats fake))\<rparr>)"
  "client_returns (FakeDriver_Unpack h ids (fake, s)) k (n, (fake', s')) \<Longrightarrow>
    fake' = FakeDriver_recordInvocation ''Unpack'' [AString h, AStrings ids]
      (fake\<lparr>driver_Unpack := snd (fake_call (h, ids) (driver_Unpack fake))\<rparr>)"
  "FakeDriver_WriteMetadata h meta (fake, s) = (err, (fake', s')) \<Longrightarrow>
    fake' = FakeDriver_recordInvocation ''WriteMetadata'' [AString h, AMetadata meta]
      (fake\<lparr>driver_WriteMetadata := snd (fake_call (h, meta) (driver_WriteMetadata fake))\<rparr>)"
  by (auto simp: FakeDriver_Bundle_def FakeDriver_Delete_def FakeDriver_Stats_def FakeDriver_Unpack_def
      FakeDriver_WriteMetadata_def case_prod_unfold dest: fake_answer_state fake_reader_answer_state)

lemma driver_step_recorded:
  assumes "driver_step st st'" "driver_recorded (fst st)"
  shows "driver_recorded (fst st')"
  using assms
proof (induction rule: driver_step.induct)
  case (call_bundle h ids q st r st')
  then show ?case by (cases st; cases st') (auto dest!: driver_call_state(1) intro: driver_recorded_call)
next
  case (call_delete h st err st')
  then show ?case by (cases st; cases st') (auto dest!: driver_call_state(2) intro: driver_recorded_call)
next
  case (call_stats h st v st')
  then show ?case by (cases st; cases st') (auto dest!: driver_call_state(3) intro: driver_recorded_call)
next
  case (call_unpack h ids st k n st')
  then show ?case by (cases st; cases st') (auto dest!: driver_call_state(4) intro: driver_recorded_call)
next
  case (call_write_metadata h meta st err st')
  then show ?case by (cases st; cases st') (auto dest!: driver_call_state(5) intro: driver_recorded_call)
qed (simp_all add: driver_recorded_def driver_records_def FakeDriver_Invocations_def driver_programming_defs)

text \<open>
  C35: However a test uses a new fake driver, programming and calling it in any order and with
  any stubs, the log that \<^verbatim>\<open>Invocations\<close> returns is determined by what the methods
  recorded: under the name of every method that has been called, the arguments of its calls in
  order, and nothing else.
\<close>

theorem fake_driver_log_agrees:
  assumes "driver_step\<^sup>*\<^sup>* (new_FakeDriver, s) (fake, t)"
  shows "FakeDriver_Invocations fake = invocation_log (driver_records fake)"
proof -
  have "driver_recorded (fst (fake, t))"
    using assms by (induction rule: rtranclp_induct) (auto simp: new_FakeDriver_recorded dest: driver_step_recorded)
  then show ?thesis by (simp add: driver_recorded_def)
qed

theorem fake_driver_log_agrees_witness:
  "\<exists>fake :: unit fake_driver. \<exists>st.
     FakeDriver_Delete ''h'' (FakeDriver_DeleteReturnsOnCall 1 None (new_FakeDriver :: unit fake_driver), ()) = (Val None, (fake, ())) \<and>
     FakeDriver_Delete ''g'' (fake, ()) = (Val None, st) \<and>
     FakeDriver_Invocations (fst st) = invocation_log (driver_records (fst st)) \<and>
     FakeDriver_Invocations (fst st) ''Delete'' = Some [[AString ''h''], [AString ''g'']]"
proof -
  let ?n = "FakeDriver_DeleteReturnsOnCall 1 None (new_FakeDriver :: unit fake_driver)"
  obtain f1 f2 where d: "FakeDriver_Delete ''h'' (?n, ()) = (Val None, (f1, ()))"
      "FakeDriver_Delete ''g'' (f1, ()) = (Val None, (f2, ()))"
      "FakeDriver_Invocations f2 ''Delete'' = Some [[AString ''h''], [AString ''g'']]"
    by (simp add: FakeDriver_Delete_def FakeDriver_DeleteReturnsOnCall_def new_FakeDriver_def fake_call_def
        fake_returns_on_call_def FakeDriver_recordInvocation_def FakeDriver_Invocations_def record_invocation_def)
  have "driver_step\<^sup>*\<^sup>* (new_FakeDriver, ()) (f2, ())"
    using delete_on_call [of new_FakeDriver "()" 1 None] call_delete [OF d(1)] call_delete [OF d(2)]
    by (meson converse_rtranclp_into_rtranclp rtranclp.rtrancl_refl)
  from fake_driver_log_agrees [OF this] d show ?thesis by (metis fst_conv)
qed

section \<open>Create on the fakes\<close>

lemma FakeImagePuller_Pull_state:
  "FakeImagePuller_Pull spec (pf, s) = (r, (pf', s')) \<Longrightarrow>
    pf' = FakeImagePuller_recordInvocation ''Pull'' [AImageSpec spec]
      (pf\<lparr>puller_Pull := snd (fake_call spec (puller_Pull pf))\<rparr>)"
  by (auto simp: FakeImagePuller_Pull_def case_prod_unfold dest: fake_answer_state)

lemma count_after_call: "fake_call_count (snd (fake_call args f)) = fake_call_count f + 1"
  by (simp add: fake_call_count_def)

lemma args_of_last_call: "fake_args_for_call (fake_call_count f) (snd (fake_call args f)) = Val args"
  by (simp add: fake_call_count_def fake_args_for_call_def index_at_def nth_append)

text \<open>The calls on a fake driver other than those of \<^verbatim>\<open>Create\<close>.\<close>

definition other_driver_calls :: "'s fake_driver \<Rightarrow> int \<times> int \<times> int" where
  "other_driver_calls fake =
     (FakeDriver_DeleteCallCount fake, FakeDriver_StatsCallCount fake, FakeDriver_UnpackCallCount fake)"

lemmas fake_count_defs =
  other_driver_calls_def FakeDriver_BundleCallCount_def FakeDriver_DeleteCallCount_def FakeDriver_StatsCallCount_def
  FakeDriver_UnpackCallCount_def FakeDriver_WriteMetadataCallCount_def FakeDriver_BundleArgsForCall_def
  FakeDriver_WriteMetadataArgsForCall_def FakeImagePuller_PullCallCount_def FakeImagePuller_PullArgsForCall_def
  FakeDriver_recordInvocation_def FakeImagePuller_recordInvocation_def

text \<open>
  C32: What the unit tests of \<^verbatim>\<open>Create\<close> assert holds for all arguments and stubs: a successful
  creation has called \<^verbatim>\<open>Pull\<close> once, with the limit and the exclusion it was given, and got an
  image; it has called \<^verbatim>\<open>Bundle\<close> once, with the handle, that image's chain IDs and the quota that
  is left, and \<^verbatim>\<open>WriteMetadata\<close> once, with the handle and that image's size, and nothing else.
\<close>

theorem create_calls_driver_once:
  assumes "create fake_puller fake_driver_methods handle limit exclude ((pf, s), (df, t)) =
    (Val (spec, None), ((pf', s'), (df', t')))"
  shows "FakeImagePuller_PullCallCount pf' = FakeImagePuller_PullCallCount pf + 1 \<and>
    FakeImagePuller_PullArgsForCall (FakeImagePuller_PullCallCount pf) pf' =
      Val \<lparr>DiskLimit = limit, ExcludeImageFromQuota = exclude\<rparr> \<and>
    FakeDriver_BundleCallCount df' = FakeDriver_BundleCallCount df + 1 \<and>
    FakeDriver_WriteMetadataCallCount df' = FakeDriver_WriteMetadataCallCount df + 1 \<and>
    other_driver_calls df' = other_driver_calls df \<and>
    (\<exists>img :: pulled_image.
      fake_puller \<lparr>DiskLimit = limit, ExcludeImageFromQuota = exclude\<rparr> ((pf, s), (df, t)) =
        (Val (Inr img), ((pf', s'), (df, t))) \<and>
      FakeDriver_BundleArgsForCall (FakeDriver_BundleCallCount df) df' =
        Val (handle, ChainIDs img, if limit = 0 \<or> exclude then limit else limit - pi_Size img) \<and>
      FakeDriver_WriteMetadataArgsForCall (FakeDriver_WriteMetadataCallCount df) df' =
        Val (handle, \<lparr>im_Size = pi_Size img\<rparr>))"
proof -
  let ?spec = "\<lparr>DiskLimit = limit, ExcludeImageFromQuota = exclude\<rparr>"
  from create_success [OF assms] obtain img d1 quota bd d2 where
      p: "fake_puller ?spec ((pf, s), (df, t)) = (Val (Inr img), ((pf', s'), d1))"
    and b: "Bundle fake_driver_methods handle (ChainIDs img) quota d1 = (Val (Inr bd), d2)"
    and w: "WriteMetadata fake_driver_methods handle \<lparr>im_Size = pi_Size img\<rparr> d2 = (Val None, (df', t'))"
    and q: "if limit = 0 \<or> exclude then quota = limit else quota = limit - pi_Size img \<and> 0 < sint quota" by blast
  obtain df2 t2 where d2: "d2 = (df2, t2)" by fastforce
  from p have d1: "d1 = (df, t)" and pull: "\<exists>r. FakeImagePuller_Pull ?spec (pf, s) = (r, (pf', s'))"
    by (auto simp: fake_puller_def obind_eq_Val)
  from b d1 d2 obtain r where b': "FakeDriver_Bundle handle (ChainIDs img) quota (df, t) = (r, (df2, t2))"
    by (auto simp: fake_driver_methods_def obind_eq_Val)
  from w d2 have w': "FakeDriver_WriteMetadata handle \<lparr>im_Size = pi_Size img\<rparr> (df2, t2) = (Val None, (df', t'))"
    by (simp add: fake_driver_methods_def)
  from q have "quota = (if limit = 0 \<or> exclude then limit else limit - pi_Size img)" by (simp split: if_splits)
  moreover from pull have "pf' = FakeImagePuller_recordInvocation ''Pull'' [AImageSpec ?spec]
      (pf\<lparr>puller_Pull := snd (fake_call ?spec (puller_Pull pf))\<rparr>)"
    by (blast dest: FakeImagePuller_Pull_state)
  ultimately show ?thesis
    using p [unfolded d1] driver_call_state(1) [OF b'] driver_call_state(5) [OF w']
    by (intro conjI exI [of _ img]) (simp_all add: fake_count_defs count_after_call args_of_last_call)
qed

theorem create_calls_driver_once_witness:
  "\<exists>spec pf df. create fake_puller fake_driver_methods ''some-handle'' 5000 False
       ((FakeImagePuller_PullReturns \<lparr>pi_Config = empty_config, ChainIDs = [''checksum''], pi_Size = 1000\<rparr> None
           (new_FakeImagePuller :: unit fake_image_puller), ()), (new_FakeDriver :: unit fake_driver, ())) =
     (Val (spec, None), ((pf, ()), (df, ()))) \<and>
   FakeImagePuller_PullCallCount pf = 1 \<and> FakeDriver_BundleCallCount df = 1 \<and>
   FakeDriver_BundleArgsForCall 0 df = Val (''some-handle'', [''checksum''], 4000)"
proof -
  let ?img = "\<lparr>pi_Config = empty_config, ChainIDs = [''checksum''], pi_Size = 1000\<rparr>"
  let ?pf = "FakeImagePuller_PullReturns ?img None (new_FakeImagePuller :: unit fake_image_puller)"
  let ?df = "new_FakeDriver :: unit fake_driver"
  obtain spec pf df where c: "create fake_puller fake_driver_methods ''some-handle'' 5000 False ((?pf, ()), (?df, ())) =
      (Val (spec, None), ((pf, ()), (df, ())))"
    and a: "FakeDriver_BundleArgsForCall 0 df = Val (''some-handle'', [''checksum''], 4000)"
    by (simp add: create_def fake_puller_def fake_driver_methods_def FakeImagePuller_Pull_def FakeImagePuller_PullReturns_def
        new_FakeImagePuller_def new_FakeDriver_def FakeDriver_Bundle_def FakeDriver_WriteMetadata_def fake_call_def
        fake_returns_def bundle_quota_def FakeDriver_BundleArgsForCall_def FakeDriver_recordInvocation_def
        fake_args_for_call_def index_at_def)
  have "FakeImagePuller_PullCallCount ?pf = 0" "FakeDriver_BundleCallCount ?df = 0"
    by (simp_all add: fake_count_defs fake_call_count_def FakeImagePuller_PullReturns_def new_FakeImagePuller_def
        new_FakeDriver_def)
  with create_calls_driver_once [OF c] c a show ?thesis by auto
qed

end
