(* ===== verification/Imagepuller_Fakes.thy ===== *)
theory Imagepuller_Fakes
  imports Counterfeiter Image_Puller
begin

text \<open>
  \<^verbatim>\<open>imagepuller/imagepullerfakes\<close>: the fakes of the fetcher and of the volume driver, with which
  the unit tests of the image puller run.  Loggers and readers are not recorded.  A stream that
  the fetcher returns is a handle \<open>'h\<close>, or nil.
\<close>

section \<open>FakeFetcher\<close>

text \<open>What an invocation records of its arguments.\<close>

datatype fetcher_arg =
    ALayerInfo layer_info

record ('h, 's) fake_fetcher =
  fetcher_Close :: "(unit, error option, 's) fake_method"
  fetcher_ImageInfo :: "(unit, image_info \<times> error option, 's) fake_method"
  fetcher_StreamBlob :: "(layer_info, 'h option \<times> int64 \<times> error option, 's) fake_method"
  fetcher_invocations :: "string \<rightharpoonup> fetcher_arg list list"

definition new_FakeFetcher :: "('h, 's) fake_fetcher" where
  "new_FakeFetcher =
     \<lparr>fetcher_Close = new_method_fake None,
      fetcher_ImageInfo = new_method_fake (\<lparr>LayerInfos = [], ii_Config = empty_config\<rparr>, None),
      fetcher_StreamBlob = new_method_fake (None, 0, None),
      fetcher_invocations = Map.empty\<rparr>"

definition FakeFetcher_recordInvocation :: "string \<Rightarrow> fetcher_arg list \<Rightarrow> ('h, 's) fake_fetcher \<Rightarrow> ('h, 's) fake_fetcher" where
  "FakeFetcher_recordInvocation key args fake =
     fake\<lparr>fetcher_invocations := record_invocation key args (fetcher_invocations fake)\<rparr>"

definition FakeFetcher_Invocations :: "('h, 's) fake_fetcher \<Rightarrow> (string \<rightharpoonup> fetcher_arg list list)" where
  "FakeFetcher_Invocations fake = fetcher_invocations fake"

paragraph \<open>Close\<close>

definition FakeFetcher_Close :: "('h, 's) fake_fetcher \<times> 's \<Rightarrow>
    (error option) outcome \<times> (('h, 's) fake_fetcher \<times> 's)" where
  "FakeFetcher_Close st =
     (case st of (fake, s) \<Rightarrow>
        (case fake_call () (fetcher_Close fake) of
           (answer, m) \<Rightarrow>
             fake_answer answer
               (FakeFetcher_recordInvocation ''Close'' []
                 (fake\<lparr>fetcher_Close := m\<rparr>)) s))"

definition FakeFetcher_CloseCallCount :: "('h, 's) fake_fetcher \<Rightarrow> int" where
  "FakeFetcher_CloseCallCount fake = fake_call_count (fetcher_Close fake)"

definition FakeFetcher_CloseCalls :: "(unit \<Rightarrow> (error option, 's) stub_run) option \<Rightarrow>
    ('h, 's) fake_fetcher \<Rightarrow> ('h, 's) fake_fetcher" where
  "FakeFetcher_CloseCalls stub fake = fake\<lparr>fetcher_Close := fake_calls stub (fetcher_Close fake)\<rparr>"

definition FakeFetcher_CloseReturns :: "error option \<Rightarrow> ('h, 's) fake_fetcher \<Rightarrow> ('h, 's) fake_fetcher" where
  "FakeFetcher_CloseReturns result1 fake =
     fake\<lparr>fetcher_Close := fake_returns result1 (fetcher_Close fake)\<rparr>"

definition FakeFetcher_CloseReturnsOnCall :: "int \<Rightarrow> error option \<Rightarrow> ('h, 's) fake_fetcher \<Rightarrow> ('h, 's) fake_fetcher" where
  "FakeFetcher_CloseReturnsOnCall i result1 fake =
     fake\<lparr>fetcher_Close := fake_returns_on_call i result1 (fetcher_Close fake)\<rparr>"

paragraph \<open>ImageInfo\<close>

definition FakeFetcher_ImageInfo :: "('h, 's) fake_fetcher \<times> 's \<Rightarrow>
    (image_info \<times> error option) outcome \<times> (('h, 's) fake_fetcher \<times> 's)" where
  "FakeFetcher_ImageInfo st =
     (case st of (fake, s) \<Rightarrow>
        (case fake_call () (fetcher_ImageInfo fake) of
           (answer, m) \<Rightarrow>
             fake_answer answer
               (FakeFetcher_recordInvocation ''ImageInfo'' []
                 (fake\<lparr>fetcher_ImageInfo := m\<rparr>)) s))"

definition FakeFetcher_ImageInfoCallCount :: "('h, 's) fake_fetcher \<Rightarrow> int" where
  "FakeFetcher_ImageInfoCallCount fake = fake_call_count (fetcher_ImageInfo fake)"

definition FakeFetcher_ImageInfoCalls :: "(unit \<Rightarrow> (image_info \<times> error option, 's) stub_run) option \<Rightarrow>
    ('h, 's) fake_fetcher \<Rightarrow> ('h, 's) fake_fetcher" where
  "FakeFetcher_ImageInfoCalls stub fake = fake\<lparr>fetcher_ImageInfo := fake_calls stub (fetcher_ImageInfo fake)\<rparr>"

definition FakeFetcher_ImageInfoArgsForCall :: "int \<Rightarrow> ('h, 's) fake_fetcher \<Rightarrow> unit outcome" where
  "FakeFetcher_ImageInfoArgsForCall i fake = fake_args_for_call i (fetcher_ImageInfo fake)"

definition FakeFetcher_ImageInfoReturns :: "image_info \<Rightarrow> error option \<Rightarrow> ('h, 's) fake_fetcher \<Rightarrow> ('h, 's) fake_fetcher" where
  "FakeFetcher_ImageInfoReturns result1 result2 fake =
     fake\<lparr>fetcher_ImageInfo := fake_returns (result1, result2) (fetcher_ImageInfo fake)\<rparr>"

definition FakeFetcher_ImageInfoReturnsOnCall :: "int \<Rightarrow> image_info \<Rightarrow> error option \<Rightarrow> ('h, 's) fake_fetcher \<Rightarrow> ('h, 's) fake_fetcher" where
  "FakeFetcher_ImageInfoReturnsOnCall i result1 result2 fake =
     fake\<lparr>fetcher_ImageInfo := fake_returns_on_call i (result1, result2) (fetcher_ImageInfo fake)\<rparr>"

paragraph \<open>StreamBlob\<close>

definition FakeFetcher_StreamBlob :: "layer_info \<Rightarrow> ('h, 's) fake_fetcher \<times> 's \<Rightarrow>
    ('h option \<times> int64 \<times> error option) outcome \<times> (('h, 's) fake_fetcher \<times> 's)" where
  "FakeFetcher_StreamBlob arg2 st =
     (case st of (fake, s) \<Rightarrow>
        (case fake_call arg2 (fetcher_StreamBlob fake) of
           (answer, m) \<Rightarrow>
             fake_answer answer
               (FakeFetcher_recordInvocation ''StreamBlob'' [ALayerInfo arg2]
                 (fake\<lparr>fetcher_StreamBlob := m\<rparr>)) s))"

definition FakeFetcher_StreamBlobCallCount :: "('h, 's) fake_fetcher \<Rightarrow> int" where
  "FakeFetcher_StreamBlobCallCount fake = fake_call_count (fetcher_StreamBlob fake)"

definition FakeFetcher_StreamBlobCalls :: "(layer_info \<Rightarrow> ('h option \<times> int64 \<times> error option, 's) stub_run) option \<Rightarrow>
    ('h, 's) fake_fetcher \<Rightarrow> ('h, 's) fake_fetcher" where
  "FakeFetcher_StreamBlobCalls stub fake = fake\<lparr>fetcher_StreamBlob := fake_calls stub (fetcher_StreamBlob fake)\<rparr>"

definition FakeFetcher_StreamBlobArgsForCall :: "int \<Rightarrow> ('h, 's) fake_fetcher \<Rightarrow> layer_info outcome" where
  "FakeFetcher_StreamBlobArgsForCall i fake = fake_args_for_call i (fetcher_StreamBlob fake)"

definition FakeFetcher_StreamBlobReturns :: "'h option \<Rightarrow> int64 \<Rightarrow> error option \<Rightarrow> ('h, 's) fake_fetcher \<Rightarrow> ('h, 's) fake_fetcher" where
  "FakeFetcher_StreamBlobReturns result1 result2 result3 fake =
     fake\<lparr>fetcher_StreamBlob := fake_returns (result1, result2, result3) (fetcher_StreamBlob fake)\<rparr>"

definition FakeFetcher_StreamBlobReturnsOnCall :: "int \<Rightarrow> 'h option \<Rightarrow> int64 \<Rightarrow> error option \<Rightarrow> ('h, 's) fake_fetcher \<Rightarrow> ('h, 's) fake_fetcher" where
  "FakeFetcher_StreamBlobReturnsOnCall i result1 result2 result3 fake =
     fake\<lparr>fetcher_StreamBlob := fake_returns_on_call i (result1, result2, result3) (fetcher_StreamBlob fake)\<rparr>"

section \<open>FakeVolumeDriver\<close>

text \<open>What an invocation records of its arguments.\<close>

datatype volumes_arg =
    VString string
  | VStrings "string list"

record 's fake_volume_driver =
  volumes_Unpack :: "(string \<times> string list, int64 \<times> error option, 's) fake_reader_method"
  volumes_invocations :: "string \<rightharpoonup> volumes_arg list list"

definition new_FakeVolumeDriver :: "'s fake_volume_driver" where
  "new_FakeVolumeDriver =
     \<lparr>volumes_Unpack = new_method_fake (0, None),
      volumes_invocations = Map.empty\<rparr>"

definition FakeVolumeDriver_recordInvocation :: "string \<Rightarrow> volumes_arg list \<Rightarrow> 's fake_volume_driver \<Rightarrow> 's fake_volume_driver" where
  "FakeVolumeDriver_recordInvocation key args fake =
     fake\<lparr>volumes_invocations := record_invocation key args (volumes_invocations fake)\<rparr>"

definition FakeVolumeDriver_Invocations :: "'s fake_volume_driver \<Rightarrow> (string \<rightharpoonup> volumes_arg list list)" where
  "FakeVolumeDriver_Invocations fake = volumes_invocations fake"

paragraph \<open>Unpack\<close>

definition FakeVolumeDriver_Unpack :: "string \<Rightarrow> string list \<Rightarrow> 's fake_volume_driver \<times> 's \<Rightarrow>
    ((int64 \<times> error option) \<times> ('s fake_volume_driver \<times> 's)) client" where
  "FakeVolumeDriver_Unpack arg2 arg3 st =
     (case st of (fake, s) \<Rightarrow>
        (case fake_call (arg2, arg3) (volumes_Unpack fake) of
           (answer, m) \<Rightarrow>
             fake_reader_answer answer
               (FakeVolumeDriver_recordInvocation ''Unpack'' [VString arg2, VStrings arg3]
                 (fake\<lparr>volumes_Unpack := m\<rparr>)) s))"

definition FakeVolumeDriver_UnpackCallCount :: "'s fake_volume_driver \<Rightarrow> int" where
  "FakeVolumeDriver_UnpackCallCount fake = fake_call_count (volumes_Unpack fake)"

definition FakeVolumeDriver_UnpackCalls :: "((string \<times> string list) \<Rightarrow> (int64 \<times> error option, 's) stub_client) option \<Rightarrow>
    's fake_volume_driver \<Rightarrow> 's fake_volume_driver" where
  "FakeVolumeDriver_UnpackCalls stub fake = fake\<lparr>volumes_Unpack := fake_calls stub (volumes_Unpack fake)\<rparr>"

definition FakeVolumeDriver_UnpackArgsForCall :: "int \<Rightarrow> 's fake_volume_driver \<Rightarrow> (string \<times> string list) outcome" where
  "FakeVolumeDriver_UnpackArgsForCall i fake = fake_args_for_call i (volumes_Unpack fake)"

definition FakeVolumeDriver_UnpackReturns :: "int64 \<Rightarrow> error option \<Rightarrow> 's fake_volume_driver \<Rightarrow> 's fake_volume_driver" where
  "FakeVolumeDriver_UnpackReturns result1 result2 fake =
     fake\<lparr>volumes_Unpack := fake_returns (result1, result2) (volumes_Unpack fake)\<rparr>"

definition FakeVolumeDriver_UnpackReturnsOnCall :: "int \<Rightarrow> int64 \<Rightarrow> error option \<Rightarrow> 's fake_volume_driver \<Rightarrow> 's fake_volume_driver" where
  "FakeVolumeDriver_UnpackReturnsOnCall i result1 result2 fake =
     fake\<lparr>volumes_Unpack := fake_returns_on_call i (result1, result2) (volumes_Unpack fake)\<rparr>"

section \<open>The fakes as fetcher and volume driver\<close>

text \<open>
  The streams are the test's: \<open>rd\<close> and \<open>cl\<close> read and close them.  Reading a nil stream panics; the
  puller does not close one.
\<close>

definition fake_fetcher_methods :: "('h \<Rightarrow> 's reader) \<Rightarrow> ('h \<Rightarrow> 's \<Rightarrow> error option \<times> 's) \<Rightarrow>
    (('h, 's) fake_fetcher \<times> 's, 'h option) fetcher" where
  "fake_fetcher_methods rd cl =
     \<lparr>ImageInfo = (\<lambda>st. seq (FakeFetcher_ImageInfo st) (\<lambda>r st. (Val (to_res r), st))),
      StreamBlob = (\<lambda>li st. seq (FakeFetcher_StreamBlob li st) (\<lambda>(h, n, err) st. (Val (to_res ((h, n), err)), st))),
      ReadStream = (\<lambda>h n st. case h of
          None \<Rightarrow> (Panic ''nil pointer dereference'', st)
        | Some h \<Rightarrow> (case st of (fake, s) \<Rightarrow> (case rd h n s of (r, s') \<Rightarrow> (r, (fake, s'))))),
      CloseStream = (\<lambda>h st. case h of
          None \<Rightarrow> (None, st)
        | Some h \<Rightarrow> (case st of (fake, s) \<Rightarrow> (case cl h s of (err, s') \<Rightarrow> (err, (fake, s'))))),
      CloseFetcher = (\<lambda>st. case FakeFetcher_Close st of (Val err, st) \<Rightarrow> (err, st) | (_, st) \<Rightarrow> (None, st))\<rparr>"

definition fake_unpack :: "('s fake_volume_driver \<times> 's) unpack" where
  "fake_unpack layerID parentIDs st =
     map_client (\<lambda>(r, st). (Val (to_res r), st)) (FakeVolumeDriver_Unpack layerID parentIDs st)"

section \<open>Pulling with the fakes\<close>

lemma FakeVolumeDriver_Unpack_run:
  assumes "run_client rd (fake_unpack layerID ps (vd, t)) w = (Val (r, (vd', t')), w')"
  shows "mf_ArgsForCall (volumes_Unpack vd') = mf_ArgsForCall (volumes_Unpack vd) @ [(layerID, ps)]"
  using assms
  by (auto simp: fake_unpack_def run_client_map obind_eq_Val FakeVolumeDriver_Unpack_def case_prod_unfold
      FakeVolumeDriver_recordInvocation_def dest!: run_client_fake_state)

lemma fake_build_layers_from:
  assumes "build_layers_from F fake_unpack below n lis (w, (vd, t)) = (Val (Inr m), (w', (vd', t')))"
  shows "\<exists>calls. mf_ArgsForCall (volumes_Unpack vd') = mf_ArgsForCall (volumes_Unpack vd) @ calls \<and>
    volume_stack (chain_ids (below @ lis)) = volume_stack (chain_ids below) @ calls"
  using assms
proof (induction lis arbitrary: below n w vd t)
  case (Cons li lis)
  then obtain k w1 vd1 t1 where b: "build_layer F fake_unpack li (chain_ids below) (w, (vd, t)) = (Val (Inr k), (w1, (vd1, t1)))"
    and rest: "build_layers_from F fake_unpack (below @ [li]) (n + k) lis (w1, (vd1, t1)) = (Val (Inr m), (w', (vd', t')))"
    by (auto simp: attempt_eq_Inr)
  from b have "mf_ArgsForCall (volumes_Unpack vd1) = mf_ArgsForCall (volumes_Unpack vd) @ [(ChainID li, chain_ids below)]"
    by (auto simp: build_layer_Val dest: FakeVolumeDriver_Unpack_run)
  with Cons.IH [OF rest] show ?case
    by (auto simp: chain_ids_def volume_stack_append)
qed simp

text \<open>
  What the unit tests of the image puller assert holds for all images and stubs: a pull that
  succeeds has called \<^verbatim>\<open>Unpack\<close> of the fake driver once per chain ID of the image, in order,
  each time with the IDs below it as the parents.
\<close>

lemma pull_calls_unpack_per_layer:
  assumes "pull F fake_unpack spec (w, (vd, t)) = (Val (Inr img), (w', (vd', t')))"
  shows "FakeVolumeDriver_UnpackCallCount vd' = FakeVolumeDriver_UnpackCallCount vd + int (length (ChainIDs img)) \<and>
    (\<forall>i < length (ChainIDs img).
       FakeVolumeDriver_UnpackArgsForCall (FakeVolumeDriver_UnpackCallCount vd + int i) vd' =
         Val (ChainIDs img ! i, take i (ChainIDs img)))"
proof -
  obtain info :: image_info and w1 where
      b: "build_layers_from F fake_unpack [] 0 (LayerInfos info) (w1, (vd, t)) = (Val (Inr (pi_Size img)), (w', (vd', t')))"
    and img: "ChainIDs img = chain_ids (LayerInfos info)"
    by (rule pull_Inr [OF assms, unfolded build_layers_def])
  have "volume_stack (chain_ids []) = []" by (simp add: volume_stack_def chain_ids_def)
  with fake_build_layers_from [OF b] img have
    calls: "mf_ArgsForCall (volumes_Unpack vd') = mf_ArgsForCall (volumes_Unpack vd) @ volume_stack (ChainIDs img)"
    by simp
  then show ?thesis
    by (auto simp: FakeVolumeDriver_UnpackCallCount_def FakeVolumeDriver_UnpackArgsForCall_def fake_call_count_def
        fake_args_for_call_def index_at_def nth_append volume_stack_def nat_add_distrib)
qed

text \<open>A fetcher of the two sample layers, and a driver whose layers have 4 bytes each.\<close>

definition two_layer_fakes :: "((unit, unit) fake_fetcher \<times> unit) \<times> (unit fake_volume_driver \<times> unit)" where
  "two_layer_fakes =
     ((FakeFetcher_ImageInfoReturns \<lparr>LayerInfos = two_layers, ii_Config = empty_config\<rparr> None new_FakeFetcher, ()),
      (FakeVolumeDriver_UnpackReturns 4 None new_FakeVolumeDriver, ()))"

definition no_streams :: "((unit, unit) fake_fetcher \<times> unit, unit option) fetcher" where
  "no_streams = fake_fetcher_methods (\<lambda>_ _ s. (Val ([], Some ErrEOF), s)) (\<lambda>_ s. (None, s))"

lemma two_layer_fakes_pull:
  "\<exists>img ff vd. pull no_streams fake_unpack \<lparr>DiskLimit = 0, ExcludeImageFromQuota = False\<rparr> two_layer_fakes =
     (Val (Inr img), ((ff, ()), (vd, ()))) \<and> ChainIDs img = [''c0'', ''c1'']"
  by (simp add: two_layer_fakes_def no_streams_def pull_def fake_fetcher_methods_def FakeFetcher_ImageInfo_def
      FakeFetcher_ImageInfoReturns_def new_FakeFetcher_def fake_call_def fake_returns_def quota_exceeded_def
      build_layers_def two_layers_def build_layer_def fake_unpack_def FakeVolumeDriver_Unpack_def
      FakeVolumeDriver_UnpackReturns_def new_FakeVolumeDriver_def FakeVolumeDriver_recordInvocation_def
      ondemand_close_def chain_ids_def)

section \<open>Nothing is fetched that is not read\<close>

lemma fake_unpack_without_stub:
  assumes "mf_Stub (volumes_Unpack vd) = None"
  shows "\<exists>r vd'. fake_unpack layerID ps (vd, t) = Return (Val r, (vd', t)) \<and> mf_Stub (volumes_Unpack vd') = None"
  using assms by (simp add: fake_unpack_def FakeVolumeDriver_Unpack_def fake_call_def FakeVolumeDriver_recordInvocation_def Let_def)

lemma build_layers_unread:
  assumes "mf_Stub (volumes_Unpack vd) = None"
  shows "\<exists>x d. build_layers_from F fake_unpack below n lis (w, (vd, t)) = (x, (w, d))"
  using assms
proof (induction lis arbitrary: below n vd)
  case (Cons li lis)
  from fake_unpack_without_stub [OF Cons.prems, of "ChainID li" "chain_ids below" t] obtain r vd' where
    u: "fake_unpack (ChainID li) (chain_ids below) (vd, t) = Return (Val r, (vd', t))" "mf_Stub (volumes_Unpack vd') = None"
    by blast
  from u(1) have "build_layer F fake_unpack li (chain_ids below) (w, (vd, t)) = (Val r, (w, (vd', t)))"
    by (simp add: build_layer_def ondemand_close_def)
  with Cons.IH [OF u(2)] show ?case by (cases r) auto
qed simp

text \<open>
  C33: A driver that does not read its layers causes no download: with a fake driver that has no
  stub, a pull from a fake fetcher, however it ends, calls \<^verbatim>\<open>ImageInfo\<close> once and never
  \<^verbatim>\<open>StreamBlob\<close> or \<^verbatim>\<open>Close\<close>.
\<close>

theorem unread_layers_are_not_fetched:
  assumes "mf_Stub (volumes_Unpack vd) = None"
    and "pull (fake_fetcher_methods rd cl) fake_unpack spec ((ff, s), (vd, t)) = (r, ((ff', s'), d'))"
  shows "FakeFetcher_ImageInfoCallCount ff' = FakeFetcher_ImageInfoCallCount ff + 1 \<and>
    FakeFetcher_StreamBlobCallCount ff' = FakeFetcher_StreamBlobCallCount ff \<and>
    FakeFetcher_CloseCallCount ff' = FakeFetcher_CloseCallCount ff"
proof -
  let ?F = "fake_fetcher_methods rd cl"
  obtain x ff1 s1 where info: "FakeFetcher_ImageInfo (ff, s) = (x, (ff1, s1))" by (rule prod_cases3)
  then have ff1: "ff1 = FakeFetcher_recordInvocation ''ImageInfo'' []
      (ff\<lparr>fetcher_ImageInfo := snd (fake_call () (fetcher_ImageInfo ff))\<rparr>)"
    by (auto simp: FakeFetcher_ImageInfo_def case_prod_unfold dest: fake_answer_state)
  have info': "ImageInfo ?F (ff, s) = (case x of Val v \<Rightarrow> Val (to_res v) | Panic m \<Rightarrow> Panic m | Diverges \<Rightarrow> Diverges, (ff1, s1))"
    using info by (cases x) (simp_all add: fake_fetcher_methods_def)
  have "(ff', s') = (ff1, s1)"
  proof (cases "\<exists>v i. x = Val v \<and> to_res v = Inr i \<and> quota_exceeded (LayerInfos i) spec = None")
    case False
    with assms(2) info' show ?thesis
      by (cases x) (auto simp: pull_def attempt_def split: sum.splits option.splits)
  next
    case True
    then obtain v i where v: "x = Val v" "to_res v = Inr i" "quota_exceeded (LayerInfos i) spec = None" by blast
    from build_layers_unread [OF assms(1), of ?F "[]" 0 "LayerInfos i" "(ff1, s1)" t] obtain y d where
      "build_layers_from ?F fake_unpack [] 0 (LayerInfos i) ((ff1, s1), (vd, t)) = (y, ((ff1, s1), d))" by blast
    with assms(2) info' v show ?thesis
      by (cases y) (auto simp: pull_def attempt_def build_layers_def split: sum.splits)
  qed
  then show ?thesis
    by (simp add: ff1 FakeFetcher_ImageInfoCallCount_def FakeFetcher_StreamBlobCallCount_def FakeFetcher_CloseCallCount_def
        fake_call_count_def FakeFetcher_recordInvocation_def)
qed

theorem unread_layers_are_not_fetched_witness:
  "\<exists>img ff vd. pull no_streams fake_unpack \<lparr>DiskLimit = 0, ExcludeImageFromQuota = False\<rparr> two_layer_fakes =
       (Val (Inr img), ((ff, ()), (vd, ()))) \<and>
     FakeFetcher_StreamBlobCallCount ff = 0"
proof -
  let ?spec = "\<lparr>DiskLimit = 0, ExcludeImageFromQuota = False\<rparr>"
  let ?vd = "FakeVolumeDriver_UnpackReturns 4 None new_FakeVolumeDriver :: unit fake_volume_driver"
  let ?ff = "FakeFetcher_ImageInfoReturns \<lparr>LayerInfos = two_layers, ii_Config = empty_config\<rparr> None new_FakeFetcher :: (unit, unit) fake_fetcher"
  have fakes: "two_layer_fakes = ((?ff, ()), (?vd, ()))" by (simp add: two_layer_fakes_def)
  from two_layer_fakes_pull obtain img ff vd where
    p: "pull no_streams fake_unpack ?spec two_layer_fakes = (Val (Inr img), ((ff, ()), (vd, ())))"
    by blast
  have "mf_Stub (volumes_Unpack ?vd) = None" "FakeFetcher_StreamBlobCallCount ?ff = 0"
    by (simp_all add: FakeVolumeDriver_UnpackReturns_def fake_returns_def FakeFetcher_StreamBlobCallCount_def
        fake_call_count_def FakeFetcher_ImageInfoReturns_def new_FakeFetcher_def)
  with unread_layers_are_not_fetched [OF _ p [unfolded fakes no_streams_def]] p show ?thesis by auto
qed

end
