(* ===== verification/Source_Fake.thy ===== *)
theory Source_Fake
  imports Counterfeiter Layer_Fetcher
begin

text \<open>
  \<^verbatim>\<open>fetcher/layerfetcher/layerfetcherfakes/fake_source.go\<close>: the fake of the layer fetcher's source.
  Loggers are not recorded.
\<close>

section \<open>FakeSource\<close>

text \<open>What an invocation records of its arguments.\<close>

datatype source_arg =
    SLayerInfo layer_info

record 's fake_source =
  source_Blob :: "(layer_info, string \<times> int64 \<times> error option, 's) fake_method"
  source_Close :: "(unit, error option, 's) fake_method"
  source_Manifest :: "(unit, image option \<times> error option, 's) fake_method"
  source_invocations :: "string \<rightharpoonup> source_arg list list"

definition new_FakeSource :: "'s fake_source" where
  "new_FakeSource =
     \<lparr>source_Blob = new_method_fake ('''', 0, None),
      source_Close = new_method_fake None,
      source_Manifest = new_method_fake (None, None),
      source_invocations = Map.empty\<rparr>"

definition FakeSource_recordInvocation :: "string \<Rightarrow> source_arg list \<Rightarrow> 's fake_source \<Rightarrow> 's fake_source" where
  "FakeSource_recordInvocation key args fake =
     fake\<lparr>source_invocations := record_invocation key args (source_invocations fake)\<rparr>"

definition FakeSource_Invocations :: "'s fake_source \<Rightarrow> (string \<rightharpoonup> source_arg list list)" where
  "FakeSource_Invocations fake = source_invocations fake"

paragraph \<open>Blob\<close>

definition FakeSource_Blob :: "layer_info \<Rightarrow> 's fake_source \<times> 's \<Rightarrow>
    (string \<times> int64 \<times> error option) outcome \<times> ('s fake_source \<times> 's)" where
  "FakeSource_Blob arg2 st =
     (case st of (fake, s) \<Rightarrow>
        (case fake_call arg2 (source_Blob fake) of
           (answer, m) \<Rightarrow>
             fake_answer answer
               (FakeSource_recordInvocation ''Blob'' [SLayerInfo arg2]
                 (fake\<lparr>source_Blob := m\<rparr>)) s))"

definition FakeSource_BlobCallCount :: "'s fake_source \<Rightarrow> int" where
  "FakeSource_BlobCallCount fake = fake_call_count (source_Blob fake)"

definition FakeSource_BlobCalls :: "(layer_info \<Rightarrow> (string \<times> int64 \<times> error option, 's) stub_run) option \<Rightarrow>
    's fake_source \<Rightarrow> 's fake_source" where
  "FakeSource_BlobCalls stub fake = fake\<lparr>source_Blob := fake_calls stub (source_Blob fake)\<rparr>"

definition FakeSource_BlobArgsForCall :: "int \<Rightarrow> 's fake_source \<Rightarrow> layer_info outcome" where
  "FakeSource_BlobArgsForCall i fake = fake_args_for_call i (source_Blob fake)"

definition FakeSource_BlobReturns :: "string \<Rightarrow> int64 \<Rightarrow> error option \<Rightarrow> 's fake_source \<Rightarrow> 's fake_source" where
  "FakeSource_BlobReturns result1 result2 result3 fake =
     fake\<lparr>source_Blob := fake_returns (result1, result2, result3) (source_Blob fake)\<rparr>"

definition FakeSource_BlobReturnsOnCall :: "int \<Rightarrow> string \<Rightarrow> int64 \<Rightarrow> error option \<Rightarrow> 's fake_source \<Rightarrow> 's fake_source" where
  "FakeSource_BlobReturnsOnCall i result1 result2 result3 fake =
     fake\<lparr>source_Blob := fake_returns_on_call i (result1, result2, result3) (source_Blob fake)\<rparr>"

paragraph \<open>Close\<close>

definition FakeSource_Close :: "'s fake_source \<times> 's \<Rightarrow>
    (error option) outcome \<times> ('s fake_source \<times> 's)" where
  "FakeSource_Close st =
     (case st of (fake, s) \<Rightarrow>
        (case fake_call () (source_Close fake) of
           (answer, m) \<Rightarrow>
             fake_answer answer
               (FakeSource_recordInvocation ''Close'' []
                 (fake\<lparr>source_Close := m\<rparr>)) s))"

definition FakeSource_CloseCallCount :: "'s fake_source \<Rightarrow> int" where
  "FakeSource_CloseCallCount fake = fake_call_count (source_Close fake)"

definition FakeSource_CloseCalls :: "(unit \<Rightarrow> (error option, 's) stub_run) option \<Rightarrow>
    's fake_source \<Rightarrow> 's fake_source" where
  "FakeSource_CloseCalls stub fake = fake\<lparr>source_Close := fake_calls stub (source_Close fake)\<rparr>"

definition FakeSource_CloseReturns :: "error option \<Rightarrow> 's fake_source \<Rightarrow> 's fake_source" where
  "FakeSource_CloseReturns result1 fake =
     fake\<lparr>source_Close := fake_returns result1 (source_Close fake)\<rparr>"

definition FakeSource_CloseReturnsOnCall :: "int \<Rightarrow> error option \<Rightarrow> 's fake_source \<Rightarrow> 's fake_source" where
  "FakeSource_CloseReturnsOnCall i result1 fake =
     fake\<lparr>source_Close := fake_returns_on_call i result1 (source_Close fake)\<rparr>"

paragraph \<open>Manifest\<close>

definition FakeSource_Manifest :: "'s fake_source \<times> 's \<Rightarrow>
    (image option \<times> error option) outcome \<times> ('s fake_source \<times> 's)" where
  "FakeSource_Manifest st =
     (case st of (fake, s) \<Rightarrow>
        (case fake_call () (source_Manifest fake) of
           (answer, m) \<Rightarrow>
             fake_answer answer
               (FakeSource_recordInvocation ''Manifest'' []
                 (fake\<lparr>source_Manifest := m\<rparr>)) s))"

definition FakeSource_ManifestCallCount :: "'s fake_source \<Rightarrow> int" where
  "FakeSource_ManifestCallCount fake = fake_call_count (source_Manifest fake)"

definition FakeSource_ManifestCalls :: "(unit \<Rightarrow> (image option \<times> error option, 's) stub_run) option \<Rightarrow>
    's fake_source \<Rightarrow> 's fake_source" where
  "FakeSource_ManifestCalls stub fake = fake\<lparr>source_Manifest := fake_calls stub (source_Manifest fake)\<rparr>"

definition FakeSource_ManifestArgsForCall :: "int \<Rightarrow> 's fake_source \<Rightarrow> unit outcome" where
  "FakeSource_ManifestArgsForCall i fake = fake_args_for_call i (source_Manifest fake)"

definition FakeSource_ManifestReturns :: "image option \<Rightarrow> error option \<Rightarrow> 's fake_source \<Rightarrow> 's fake_source" where
  "FakeSource_ManifestReturns result1 result2 fake =
     fake\<lparr>source_Manifest := fake_returns (result1, result2) (source_Manifest fake)\<rparr>"

definition FakeSource_ManifestReturnsOnCall :: "int \<Rightarrow> image option \<Rightarrow> error option \<Rightarrow> 's fake_source \<Rightarrow> 's fake_source" where
  "FakeSource_ManifestReturnsOnCall i result1 result2 fake =
     fake\<lparr>source_Manifest := fake_returns_on_call i (result1, result2) (source_Manifest fake)\<rparr>"

section \<open>The fake as the source of a layer fetcher\<close>

text \<open>
  Stubs act on the test's state \<open>'x\<close> and on the world.  The layer fetcher calls a method of the
  manifest at once, which panics on a nil one.
\<close>

definition regroup :: "'a outcome \<times> ('f \<times> ('x \<times> world)) \<Rightarrow> 'a outcome \<times> (('f \<times> 'x) \<times> world)" where
  "regroup r = (case r of (v, (fake, (x, w))) \<Rightarrow> (v, ((fake, x), w)))"

definition fake_source_methods :: "(('x \<times> world) fake_source \<times> 'x) source" where
  "fake_source_methods =
     \<lparr>src_Manifest = (\<lambda>((fake, x), w).
        seq (regroup (FakeSource_Manifest (fake, (x, w)))) (\<lambda>(img, err) sw.
          (case (img, err) of
             (_, Some e) \<Rightarrow> (Val (Inl e), sw)
           | (Some i, None) \<Rightarrow> (Val (Inr i), sw)
           | (None, None) \<Rightarrow> (Panic ''nil pointer dereference'', sw)))),
      src_Blob = (\<lambda>li ((fake, x), w).
        seq (regroup (FakeSource_Blob li (fake, (x, w)))) (\<lambda>(path, n, err) sw. (Val (to_res ((path, n), err)), sw))),
      src_Close = (\<lambda>((fake, x), w).
        (case regroup (FakeSource_Close (fake, (x, w))) of (Val err, sw) \<Rightarrow> (err, sw) | (_, sw) \<Rightarrow> (None, sw)))\<rparr>"

section \<open>The layer fetcher on the fake\<close>

text \<open>How often the methods have been called: \<^verbatim>\<open>Manifest\<close>, \<^verbatim>\<open>Blob\<close>, \<^verbatim>\<open>Close\<close>.\<close>

definition source_calls :: "'s fake_source \<Rightarrow> int \<times> int \<times> int" where
  "source_calls fake = (FakeSource_ManifestCallCount fake, FakeSource_BlobCallCount fake, FakeSource_CloseCallCount fake)"

lemmas source_count_defs =
  source_calls_def FakeSource_ManifestCallCount_def FakeSource_BlobCallCount_def FakeSource_CloseCallCount_def
  FakeSource_BlobArgsForCall_def FakeSource_recordInvocation_def fake_call_count_def fake_args_for_call_def index_at_def

lemma FakeSource_call_state:
  "FakeSource_Manifest (fake, s) = (r1, (fake1, s1)) \<Longrightarrow>
    fake1 = FakeSource_recordInvocation ''Manifest'' [] (fake\<lparr>source_Manifest := snd (fake_call () (source_Manifest fake))\<rparr>)"
  "FakeSource_Blob li (fake, s) = (r2, (fake2, s2)) \<Longrightarrow>
    fake2 = FakeSource_recordInvocation ''Blob'' [SLayerInfo li] (fake\<lparr>source_Blob := snd (fake_call li (source_Blob fake))\<rparr>)"
  "FakeSource_Close (fake, s) = (r3, (fake3, s3)) \<Longrightarrow>
    fake3 = FakeSource_recordInvocation ''Close'' [] (fake\<lparr>source_Close := snd (fake_call () (source_Close fake))\<rparr>)"
  by (auto simp: FakeSource_Manifest_def FakeSource_Blob_def FakeSource_Close_def case_prod_unfold dest: fake_answer_state)

text \<open>The fetcher does not touch the source's own state.\<close>

lemma lf_stream_blob_source:
  "fst (snd (lf_stream_blob E src li sw)) = fst (snd (src_Blob src li sw))"
  by (cases "src_Blob src li sw"; cases "fst (src_Blob src li sw)")
    (auto simp: lf_stream_blob_def attempt_def new_blob_reader_def split: sum.splits prod.splits)

lemma lf_image_info_source:
  "fst (snd (lf_image_info E src sw)) = fst (snd (src_Manifest src sw))"
  by (cases "src_Manifest src sw"; cases "fst (src_Manifest src sw)")
    (auto simp: lf_image_info_def attempt_def split: sum.splits prod.splits outcome.splits)

text \<open>
  C34: What the unit tests of the layer fetcher assert holds for every source: with a fake source
  and any stubs, \<^verbatim>\<open>ImageInfo\<close> calls \<^verbatim>\<open>Manifest\<close> once,
  \<^verbatim>\<open>StreamBlob\<close> calls \<^verbatim>\<open>Blob\<close> once with the layer it was given,
  \<^verbatim>\<open>Close\<close> calls \<^verbatim>\<open>Close\<close> once, and none calls anything else.
\<close>

theorem layer_fetcher_calls_source_once:
  "source_calls (fst (fst (snd (lf_image_info E fake_source_methods ((fake, x), w))))) =
     (FakeSource_ManifestCallCount fake + 1, FakeSource_BlobCallCount fake, FakeSource_CloseCallCount fake) \<and>
   source_calls (fst (fst (snd (lf_stream_blob E fake_source_methods li ((fake, x), w))))) =
     (FakeSource_ManifestCallCount fake, FakeSource_BlobCallCount fake + 1, FakeSource_CloseCallCount fake) \<and>
   FakeSource_BlobArgsForCall (FakeSource_BlobCallCount fake)
     (fst (fst (snd (lf_stream_blob E fake_source_methods li ((fake, x), w))))) = Val li \<and>
   source_calls (fst (fst (snd (lf_close fake_source_methods ((fake, x), w))))) =
     (FakeSource_ManifestCallCount fake, FakeSource_BlobCallCount fake, FakeSource_CloseCallCount fake + 1)"
proof -
  let ?M = "fake_source_methods" and ?st = "((fake, x), w)"
  obtain r1 f1 s1 where m: "FakeSource_Manifest (fake, (x, w)) = (r1, (f1, s1))" by (rule prod_cases3)
  obtain r2 f2 s2 where b: "FakeSource_Blob li (fake, (x, w)) = (r2, (f2, s2))" by (rule prod_cases3)
  obtain r3 f3 s3 where c: "FakeSource_Close (fake, (x, w)) = (r3, (f3, s3))" by (rule prod_cases3)
  note f1 = FakeSource_call_state(1) [OF m] and f2 = FakeSource_call_state(2) [OF b] and f3 = FakeSource_call_state(3) [OF c]
  have "fst (fst (snd (src_Manifest ?M ?st))) = f1"
    by (cases r1; cases s1) (auto simp: fake_source_methods_def m regroup_def split: option.splits)
  moreover have "fst (fst (snd (src_Blob ?M li ?st))) = f2"
    by (cases r2; cases s2) (auto simp: fake_source_methods_def b regroup_def)
  moreover have "fst (fst (snd (lf_close ?M ?st))) = f3"
    by (cases r3; cases s3) (auto simp: lf_close_def fake_source_methods_def c regroup_def)
  ultimately show ?thesis
    by (simp add: lf_stream_blob_source lf_image_info_source f1 f2 f3 source_count_defs)
qed

end
