(* ===== verification/Manifest_Fake.thy ===== *)
theory Manifest_Fake
  imports Counterfeiter Os_World
begin

text \<open>
  \<^verbatim>\<open>fetcher/layerfetcher/layerfetcherfakes/fake_manifest.go\<close>: the fake of \<^verbatim>\<open>types.Image\<close>.  Types
  of which nothing is read are parameters: contexts \<open>'c\<close>, named references \<open>'n\<close>, inspection
  results \<open>'i\<close> and image references \<open>'q\<close>; an interface or a pointer may be nil.
\<close>

section \<open>FakeManifest\<close>

text \<open>What an invocation records of its arguments.\<close>

datatype ('c, 'n) manifest_arg =
    MContext 'c
  | MNamed "'n option"
  | MUpdate manifest_update

record ('c, 'n, 'i, 'q, 's) fake_manifest =
  manifest_ConfigBlob :: "('c, bytes \<times> error option, 's) fake_method"
  manifest_ConfigInfo :: "(unit, blob_info, 's) fake_method"
  manifest_EmbeddedDockerReferenceConflicts :: "('n option, bool, 's) fake_method"
  manifest_Inspect :: "('c, 'i option \<times> error option, 's) fake_method"
  manifest_LayerInfos :: "(unit, blob_info list, 's) fake_method"
  manifest_LayerInfosForCopy :: "('c, blob_info list \<times> error option, 's) fake_method"
  manifest_Manifest :: "('c, bytes \<times> string \<times> error option, 's) fake_method"
  manifest_OCIConfig :: "('c, image_config option \<times> error option, 's) fake_method"
  manifest_Reference :: "(unit, 'q option, 's) fake_method"
  manifest_Signatures :: "('c, bytes list \<times> error option, 's) fake_method"
  manifest_Size :: "(unit, int64 \<times> error option, 's) fake_method"
  manifest_SupportsEncryption :: "('c, bool, 's) fake_method"
  manifest_UpdatedImage :: "('c \<times> manifest_update, image option \<times> error option, 's) fake_method"
  manifest_UpdatedImageNeedsLayerDiffIDs :: "(manifest_update, bool, 's) fake_method"
  manifest_invocations :: "string \<rightharpoonup> ('c, 'n) manifest_arg list list"

definition new_FakeManifest :: "('c, 'n, 'i, 'q, 's) fake_manifest" where
  "new_FakeManifest =
     \<lparr>manifest_ConfigBlob = new_method_fake ([], None),
      manifest_ConfigInfo = new_method_fake \<lparr>bi_Digest = '''', bi_Size = 0, bi_URLs = [], bi_MediaType = ''''\<rparr>,
      manifest_EmbeddedDockerReferenceConflicts = new_method_fake False,
      manifest_Inspect = new_method_fake (None, None),
      manifest_LayerInfos = new_method_fake [],
      manifest_LayerInfosForCopy = new_method_fake ([], None),
      manifest_Manifest = new_method_fake ([], '''', None),
      manifest_OCIConfig = new_method_fake (None, None),
      manifest_Reference = new_method_fake None,
      manifest_Signatures = new_method_fake ([], None),
      manifest_Size = new_method_fake (0, None),
      manifest_SupportsEncryption = new_method_fake False,
      manifest_UpdatedImage = new_method_fake (None, None),
      manifest_UpdatedImageNeedsLayerDiffIDs = new_method_fake False,
      manifest_invocations = Map.empty\<rparr>"

definition FakeManifest_recordInvocation :: "string \<Rightarrow> ('c, 'n) manifest_arg list \<Rightarrow> ('c, 'n, 'i, 'q, 's) fake_manifest \<Rightarrow> ('c, 'n, 'i, 'q, 's) fake_manifest" where
  "FakeManifest_recordInvocation key args fake =
     fake\<lparr>manifest_invocations := record_invocation key args (manifest_invocations fake)\<rparr>"

definition FakeManifest_Invocations :: "('c, 'n, 'i, 'q, 's) fake_manifest \<Rightarrow> (string \<rightharpoonup> ('c, 'n) manifest_arg list list)" where
  "FakeManifest_Invocations fake = manifest_invocations fake"

paragraph \<open>ConfigBlob\<close>

definition FakeManifest_ConfigBlob :: "'c \<Rightarrow> ('c, 'n, 'i, 'q, 's) fake_manifest \<times> 's \<Rightarrow>
    (bytes \<times> error option) outcome \<times> (('c, 'n, 'i, 'q, 's) fake_manifest \<times> 's)" where
  "FakeManifest_ConfigBlob arg1 st =
     (case st of (fake, s) \<Rightarrow>
        (case fake_call arg1 (manifest_ConfigBlob fake) of
           (answer, m) \<Rightarrow>
             fake_answer answer
               (FakeManifest_recordInvocation ''ConfigBlob'' [MContext arg1]
                 (fake\<lparr>manifest_ConfigBlob := m\<rparr>)) s))"

definition FakeManifest_ConfigBlobCallCount :: "('c, 'n, 'i, 'q, 's) fake_manifest \<Rightarrow> int" where
  "FakeManifest_ConfigBlobCallCount fake = fake_call_count (manifest_ConfigBlob fake)"

definition FakeManifest_ConfigBlobCalls :: "('c \<Rightarrow> (bytes \<times> error option, 's) stub_run) option \<Rightarrow>
    ('c, 'n, 'i, 'q, 's) fake_manifest \<Rightarrow> ('c, 'n, 'i, 'q, 's) fake_manifest" where
  "FakeManifest_ConfigBlobCalls stub fake = fake\<lparr>manifest_ConfigBlob := fake_calls stub (manifest_ConfigBlob fake)\<rparr>"

definition FakeManifest_ConfigBlobArgsForCall :: "int \<Rightarrow> ('c, 'n, 'i, 'q, 's) fake_manifest \<Rightarrow> 'c outcome" where
  "FakeManifest_ConfigBlobArgsForCall i fake = fake_args_for_call i (manifest_ConfigBlob fake)"

definition FakeManifest_ConfigBlobReturns :: "bytes \<Rightarrow> error option \<Rightarrow> ('c, 'n, 'i, 'q, 's) fake_manifest \<Rightarrow> ('c, 'n, 'i, 'q, 's) fake_manifest" where
  "FakeManifest_ConfigBlobReturns result1 result2 fake =
     fake\<lparr>manifest_ConfigBlob := fake_returns (result1, result2) (manifest_ConfigBlob fake)\<rparr>"

definition FakeManifest_ConfigBlobReturnsOnCall :: "int \<Rightarrow> bytes \<Rightarrow> error option \<Rightarrow> ('c, 'n, 'i, 'q, 's) fake_manifest \<Rightarrow> ('c, 'n, 'i, 'q, 's) fake_manifest" where
  "FakeManifest_ConfigBlobReturnsOnCall i result1 result2 fake =
     fake\<lparr>manifest_ConfigBlob := fake_returns_on_call i (result1, result2) (manifest_ConfigBlob fake)\<rparr>"

paragraph \<open>ConfigInfo\<close>

definition FakeManifest_ConfigInfo :: "('c, 'n, 'i, 'q, 's) fake_manifest \<times> 's \<Rightarrow>
    blob_info outcome \<times> (('c, 'n, 'i, 'q, 's) fake_manifest \<times> 's)" where
  "FakeManifest_ConfigInfo st =
     (case st of (fake, s) \<Rightarrow>
        (case fake_call () (manifest_ConfigInfo fake) of
           (answer, m) \<Rightarrow>
             fake_answer answer
               (FakeManifest_recordInvocation ''ConfigInfo'' []
                 (fake\<lparr>manifest_ConfigInfo := m\<rparr>)) s))"

definition FakeManifest_ConfigInfoCallCount :: "('c, 'n, 'i, 'q, 's) fake_manifest \<Rightarrow> int" where
  "FakeManifest_ConfigInfoCallCount fake = fake_call_count (manifest_ConfigInfo fake)"

definition FakeManifest_ConfigInfoCalls :: "(unit \<Rightarrow> (blob_info, 's) stub_run) option \<Rightarrow>
    ('c, 'n, 'i, 'q, 's) fake_manifest \<Rightarrow> ('c, 'n, 'i, 'q, 's) fake_manifest" where
  "FakeManifest_ConfigInfoCalls stub fake = fake\<lparr>manifest_ConfigInfo := fake_calls stub (manifest_ConfigInfo fake)\<rparr>"

definition FakeManifest_ConfigInfoReturns :: "blob_info \<Rightarrow> ('c, 'n, 'i, 'q, 's) fake_manifest \<Rightarrow> ('c, 'n, 'i, 'q, 's) fake_manifest" where
  "FakeManifest_ConfigInfoReturns result1 fake =
     fake\<lparr>manifest_ConfigInfo := fake_returns result1 (manifest_ConfigInfo fake)\<rparr>"

definition FakeManifest_ConfigInfoReturnsOnCall :: "int \<Rightarrow> blob_info \<Rightarrow> ('c, 'n, 'i, 'q, 's) fake_manifest \<Rightarrow> ('c, 'n, 'i, 'q, 's) fake_manifest" where
  "FakeManifest_ConfigInfoReturnsOnCall i result1 fake =
     fake\<lparr>manifest_ConfigInfo := fake_returns_on_call i result1 (manifest_ConfigInfo fake)\<rparr>"

paragraph \<open>EmbeddedDockerReferenceConflicts\<close>

definition FakeManifest_EmbeddedDockerReferenceConflicts :: "'n option \<Rightarrow> ('c, 'n, 'i, 'q, 's) fake_manifest \<times> 's \<Rightarrow>
    bool outcome \<times> (('c, 'n, 'i, 'q, 's) fake_manifest \<times> 's)" where
  "FakeManifest_EmbeddedDockerReferenceConflicts arg1 st =
     (case st of (fake, s) \<Rightarrow>
        (case fake_call arg1 (manifest_EmbeddedDockerReferenceConflicts fake) of
           (answer, m) \<Rightarrow>
             fake_answer answer
               (FakeManifest_recordInvocation ''EmbeddedDockerReferenceConflicts'' [MNamed arg1]
                 (fake\<lparr>manifest_EmbeddedDockerReferenceConflicts := m\<rparr>)) s))"

definition FakeManifest_EmbeddedDockerReferenceConflictsCallCount :: "('c, 'n, 'i, 'q, 's) fake_manifest \<Rightarrow> int" where
  "FakeManifest_EmbeddedDockerReferenceConflictsCallCount fake = fake_call_count (manifest_EmbeddedDockerReferenceConflicts fake)"

definition FakeManifest_EmbeddedDockerReferenceConflictsCalls :: "('n option \<Rightarrow> (bool, 's) stub_run) option \<Rightarrow>
    ('c, 'n, 'i, 'q, 's) fake_manifest \<Rightarrow> ('c, 'n, 'i, 'q, 's) fake_manifest" where
  "FakeManifest_EmbeddedDockerReferenceConflictsCalls stub fake = fake\<lparr>manifest_EmbeddedDockerReferenceConflicts := fake_calls stub (manifest_EmbeddedDockerReferenceConflicts fake)\<rparr>"

definition FakeManifest_EmbeddedDockerReferenceConflictsArgsForCall :: "int \<Rightarrow> ('c, 'n, 'i, 'q, 's) fake_manifest \<Rightarrow> ('n option) outcome" where
  "FakeManifest_EmbeddedDockerReferenceConflictsArgsForCall i fake = fake_args_for_call i (manifest_EmbeddedDockerReferenceConflicts fake)"

definition FakeManifest_EmbeddedDockerReferenceConflictsReturns :: "bool \<Rightarrow> ('c, 'n, 'i, 'q, 's) fake_manifest \<Rightarrow> ('c, 'n, 'i, 'q, 's) fake_manifest" where
  "FakeManifest_EmbeddedDockerReferenceConflictsReturns result1 fake =
     fake\<lparr>manifest_EmbeddedDockerReferenceConflicts := fake_returns result1 (manifest_EmbeddedDockerReferenceConflicts fake)\<rparr>"

definition FakeManifest_EmbeddedDockerReferenceConflictsReturnsOnCall :: "int \<Rightarrow> bool \<Rightarrow> ('c, 'n, 'i, 'q, 's) fake_manifest \<Rightarrow> ('c, 'n, 'i, 'q, 's) fake_manifest" where
  "FakeManifest_EmbeddedDockerReferenceConflictsReturnsOnCall i result1 fake =
     fake\<lparr>manifest_EmbeddedDockerReferenceConflicts := fake_returns_on_call i result1 (manifest_EmbeddedDockerReferenceConflicts fake)\<rparr>"

paragraph \<open>Inspect\<close>

definition FakeManifest_Inspect :: "'c \<Rightarrow> ('c, 'n, 'i, 'q, 's) fake_manifest \<times> 's \<Rightarrow>
    ('i option \<times> error option) outcome \<times> (('c, 'n, 'i, 'q, 's) fake_manifest \<times> 's)" where
  "FakeManifest_Inspect arg1 st =
     (case st of (fake, s) \<Rightarrow>
        (case fake_call arg1 (manifest_Inspect fake) of
           (answer, m) \<Rightarrow>
             fake_answer answer
               (FakeManifest_recordInvocation ''Inspect'' [MContext arg1]
                 (fake\<lparr>manifest_Inspect := m\<rparr>)) s))"

definition FakeManifest_InspectCallCount :: "('c, 'n, 'i, 'q, 's) fake_manifest \<Rightarrow> int" where
  "FakeManifest_InspectCallCount fake = fake_call_count (manifest_Inspect fake)"

definition FakeManifest_InspectCalls :: "('c \<Rightarrow> ('i option \<times> error option, 's) stub_run) option \<Rightarrow>
    ('c, 'n, 'i, 'q, 's) fake_manifest \<Rightarrow> ('c, 'n, 'i, 'q, 's) fake_manifest" where
  "FakeManifest_InspectCalls stub fake = fake\<lparr>manifest_Inspect := fake_calls stub (manifest_Inspect fake)\<rparr>"

definition FakeManifest_InspectArgsForCall :: "int \<Rightarrow> ('c, 'n, 'i, 'q, 's) fake_manifest \<Rightarrow> 'c outcome" where
  "FakeManifest_InspectArgsForCall i fake = fake_args_for_call i (manifest_Inspect fake)"

definition FakeManifest_InspectReturns :: "'i option \<Rightarrow> error option \<Rightarrow> ('c, 'n, 'i, 'q, 's) fake_manifest \<Rightarrow> ('c, 'n, 'i, 'q, 's) fake_manifest" where
  "FakeManifest_InspectReturns result1 result2 fake =
     fake\<lparr>manifest_Inspect := fake_returns (result1, result2) (manifest_Inspect fake)\<rparr>"

definition FakeManifest_InspectReturnsOnCall :: "int \<Rightarrow> 'i option \<Rightarrow> error option \<Rightarrow> ('c, 'n, 'i, 'q, 's) fake_manifest \<Rightarrow> ('c, 'n, 'i, 'q, 's) fake_manifest" where
  "FakeManifest_InspectReturnsOnCall i result1 result2 fake =
     fake\<lparr>manifest_Inspect := fake_returns_on_call i (result1, result2) (manifest_Inspect fake)\<rparr>"

paragraph \<open>LayerInfos\<close>

definition FakeManifest_LayerInfos :: "('c, 'n, 'i, 'q, 's) fake_manifest \<times> 's \<Rightarrow>
    (blob_info list) outcome \<times> (('c, 'n, 'i, 'q, 's) fake_manifest \<times> 's)" where
  "FakeManifest_LayerInfos st =
     (case st of (fake, s) \<Rightarrow>
        (case fake_call () (manifest_LayerInfos fake) of
           (answer, m) \<Rightarrow>
             fake_answer answer
               (FakeManifest_recordInvocation ''LayerInfos'' []
                 (fake\<lparr>manifest_LayerInfos := m\<rparr>)) s))"

definition FakeManifest_LayerInfosCallCount :: "('c, 'n, 'i, 'q, 's) fake_manifest \<Rightarrow> int" where
  "FakeManifest_LayerInfosCallCount fake = fake_call_count (manifest_LayerInfos fake)"

definition FakeManifest_LayerInfosCalls :: "(unit \<Rightarrow> (blob_info list, 's) stub_run) option \<Rightarrow>
    ('c, 'n, 'i, 'q, 's) fake_manifest \<Rightarrow> ('c, 'n, 'i, 'q, 's) fake_manifest" where
  "FakeManifest_LayerInfosCalls stub fake = fake\<lparr>manifest_LayerInfos := fake_calls stub (manifest_LayerInfos fake)\<rparr>"

definition FakeManifest_LayerInfosReturns :: "blob_info list \<Rightarrow> ('c, 'n, 'i, 'q, 's) fake_manifest \<Rightarrow> ('c, 'n, 'i, 'q, 's) fake_manifest" where
  "FakeManifest_LayerInfosReturns result1 fake =
     fake\<lparr>manifest_LayerInfos := fake_returns result1 (manifest_LayerInfos fake)\<rparr>"

definition FakeManifest_LayerInfosReturnsOnCall :: "int \<Rightarrow> blob_info list \<Rightarrow> ('c, 'n, 'i, 'q, 's) fake_manifest \<Rightarrow> ('c, 'n, 'i, 'q, 's) fake_manifest" where
  "FakeManifest_LayerInfosReturnsOnCall i result1 fake =
     fake\<lparr>manifest_LayerInfos := fake_returns_on_call i result1 (manifest_LayerInfos fake)\<rparr>"

paragraph \<open>LayerInfosForCopy\<close>

definition FakeManifest_LayerInfosForCopy :: "'c \<Rightarrow> ('c, 'n, 'i, 'q, 's) fake_manifest \<times> 's \<Rightarrow>
    (blob_info list \<times> error option) outcome \<times> (('c, 'n, 'i, 'q, 's) fake_manifest \<times> 's)" where
  "FakeManifest_LayerInfosForCopy arg1 st =
     (case st of (fake, s) \<Rightarrow>
        (case fake_call arg1 (manifest_LayerInfosForCopy fake) of
           (answer, m) \<Rightarrow>
             fake_answer answer
               (FakeManifest_recordInvocation ''LayerInfosForCopy'' [MContext arg1]
                 (fake\<lparr>manifest_LayerInfosForCopy := m\<rparr>)) s))"

definition FakeManifest_LayerInfosForCopyCallCount :: "('c, 'n, 'i, 'q, 's) fake_manifest \<Rightarrow> int" where
  "FakeManifest_LayerInfosForCopyCallCount fake = fake_call_count (manifest_LayerInfosForCopy fake)"

definition FakeManifest_LayerInfosForCopyCalls :: "('c \<Rightarrow> (blob_info list \<times> error option, 's) stub_run) option \<Rightarrow>
    ('c, 'n, 'i, 'q, 's) fake_manifest \<Rightarrow> ('c, 'n, 'i, 'q, 's) fake_manifest" where
  "FakeManifest_LayerInfosForCopyCalls stub fake = fake\<lparr>manifest_LayerInfosForCopy := fake_calls stub (manifest_LayerInfosForCopy fake)\<rparr>"

definition FakeManifest_LayerInfosForCopyArgsForCall :: "int \<Rightarrow> ('c, 'n, 'i, 'q, 's) fake_manifest \<Rightarrow> 'c outcome" where
  "FakeManifest_LayerInfosForCopyArgsForCall i fake = fake_args_for_call i (manifest_LayerInfosForCopy fake)"

definition FakeManifest_LayerInfosForCopyReturns :: "blob_info list \<Rightarrow> error option \<Rightarrow> ('c, 'n, 'i, 'q, 's) fake_manifest \<Rightarrow> ('c, 'n, 'i, 'q, 's) fake_manifest" where
  "FakeManifest_LayerInfosForCopyReturns result1 result2 fake =
     fake\<lparr>manifest_LayerInfosForCopy := fake_returns (result1, result2) (manifest_LayerInfosForCopy fake)\<rparr>"

definition FakeManifest_LayerInfosForCopyReturnsOnCall :: "int \<Rightarrow> blob_info list \<Rightarrow> error option \<Rightarrow> ('c, 'n, 'i, 'q, 's) fake_manifest \<Rightarrow> ('c, 'n, 'i, 'q, 's) fake_manifest" where
  "FakeManifest_LayerInfosForCopyReturnsOnCall i result1 result2 fake =
     fake\<lparr>manifest_LayerInfosForCopy := fake_returns_on_call i (result1, result2) (manifest_LayerInfosForCopy fake)\<rparr>"

paragraph \<open>Manifest\<close>

definition FakeManifest_Manifest :: "'c \<Rightarrow> ('c, 'n, 'i, 'q, 's) fake_manifest \<times> 's \<Rightarrow>
    (bytes \<times> string \<times> error option) outcome \<times> (('c, 'n, 'i, 'q, 's) fake_manifest \<times> 's)" where
  "FakeManifest_Manifest arg1 st =
     (case st of (fake, s) \<Rightarrow>
        (case fake_call arg1 (manifest_Manifest fake) of
           (answer, m) \<Rightarrow>
             fake_answer answer
               (FakeManifest_recordInvocation ''Manifest'' [MContext arg1]
                 (fake\<lparr>manifest_Manifest := m\<rparr>)) s))"

definition FakeManifest_ManifestCallCount :: "('c, 'n, 'i, 'q, 's) fake_manifest \<Rightarrow> int" where
  "FakeManifest_ManifestCallCount fake = fake_call_count (manifest_Manifest fake)"

definition FakeManifest_ManifestCalls :: "('c \<Rightarrow> (bytes \<times> string \<times> error option, 's) stub_run) option \<Rightarrow>
    ('c, 'n, 'i, 'q, 's) fake_manifest \<Rightarrow> ('c, 'n, 'i, 'q, 's) fake_manifest" where
  "FakeManifest_ManifestCalls stub fake = fake\<lparr>manifest_Manifest := fake_calls stub (manifest_Manifest fake)\<rparr>"

definition FakeManifest_ManifestArgsForCall :: "int \<Rightarrow> ('c, 'n, 'i, 'q, 's) fake_manifest \<Rightarrow> 'c outcome" where
  "FakeManifest_ManifestArgsForCall i fake = fake_args_for_call i (manifest_Manifest fake)"

definition FakeManifest_ManifestReturns :: "bytes \<Rightarrow> string \<Rightarrow> error option \<Rightarrow> ('c, 'n, 'i, 'q, 's) fake_manifest \<Rightarrow> ('c, 'n, 'i, 'q, 's) fake_manifest" where
  "FakeManifest_ManifestReturns result1 result2 result3 fake =
     fake\<lparr>manifest_Manifest := fake_returns (result1, result2, result3) (manifest_Manifest fake)\<rparr>"

definition FakeManifest_ManifestReturnsOnCall :: "int \<Rightarrow> bytes \<Rightarrow> string \<Rightarrow> error option \<Rightarrow> ('c, 'n, 'i, 'q, 's) fake_manifest \<Rightarrow> ('c, 'n, 'i, 'q, 's) fake_manifest" where
  "FakeManifest_ManifestReturnsOnCall i result1 result2 result3 fake =
     fake\<lparr>manifest_Manifest := fake_returns_on_call i (result1, result2, result3) (manifest_Manifest fake)\<rparr>"

paragraph \<open>OCIConfig\<close>

definition FakeManifest_OCIConfig :: "'c \<Rightarrow> ('c, 'n, 'i, 'q, 's) fake_manifest \<times> 's \<Rightarrow>
    (image_config option \<times> error option) outcome \<times> (('c, 'n, 'i, 'q, 's) fake_manifest \<times> 's)" where
  "FakeManifest_OCIConfig arg1 st =
     (case st of (fake, s) \<Rightarrow>
        (case fake_call arg1 (manifest_OCIConfig fake) of
           (answer, m) \<Rightarrow>
             fake_answer answer
               (FakeManifest_recordInvocation ''OCIConfig'' [MContext arg1]
                 (fake\<lparr>manifest_OCIConfig := m\<rparr>)) s))"

definition FakeManifest_OCIConfigCallCount :: "('c, 'n, 'i, 'q, 's) fake_manifest \<Rightarrow> int" where
  "FakeManifest_OCIConfigCallCount fake = fake_call_count (manifest_OCIConfig fake)"

definition FakeManifest_OCIConfigCalls :: "('c \<Rightarrow> (image_config option \<times> error option, 's) stub_run) option \<Rightarrow>
    ('c, 'n, 'i, 'q, 's) fake_manifest \<Rightarrow> ('c, 'n, 'i, 'q, 's) fake_manifest" where
  "FakeManifest_OCIConfigCalls stub fake = fake\<lparr>manifest_OCIConfig := fake_calls stub (manifest_OCIConfig fake)\<rparr>"

definition FakeManifest_OCIConfigArgsForCall :: "int \<Rightarrow> ('c, 'n, 'i, 'q, 's) fake_manifest \<Rightarrow> 'c outcome" where
  "FakeManifest_OCIConfigArgsForCall i fake = fake_args_for_call i (manifest_OCIConfig fake)"

definition FakeManifest_OCIConfigReturns :: "image_config option \<Rightarrow> error option \<Rightarrow> ('c, 'n, 'i, 'q, 's) fake_manifest \<Rightarrow> ('c, 'n, 'i, 'q, 's) fake_manifest" where
  "FakeManifest_OCIConfigReturns result1 result2 fake =
     fake\<lparr>manifest_OCIConfig := fake_returns (result1, result2) (manifest_OCIConfig fake)\<rparr>"

definition FakeManifest_OCIConfigReturnsOnCall :: "int \<Rightarrow> image_config option \<Rightarrow> error option \<Rightarrow> ('c, 'n, 'i, 'q, 's) fake_manifest \<Rightarrow> ('c, 'n, 'i, 'q, 's) fake_manifest" where
  "FakeManifest_OCIConfigReturnsOnCall i result1 result2 fake =
     fake\<lparr>manifest_OCIConfig := fake_returns_on_call i (result1, result2) (manifest_OCIConfig fake)\<rparr>"

paragraph \<open>Reference\<close>

definition FakeManifest_Reference :: "('c, 'n, 'i, 'q, 's) fake_manifest \<times> 's \<Rightarrow>
    ('q option) outcome \<times> (('c, 'n, 'i, 'q, 's) fake_manifest \<times> 's)" where
  "FakeManifest_Reference st =
     (case st of (fake, s) \<Rightarrow>
        (case fake_call () (manifest_Reference fake) of
           (answer, m) \<Rightarrow>
             fake_answer answer
               (FakeManifest_recordInvocation ''Reference'' []
                 (fake\<lparr>manifest_Reference := m\<rparr>)) s))"

definition FakeManifest_ReferenceCallCount :: "('c, 'n, 'i, 'q, 's) fake_manifest \<Rightarrow> int" where
  "FakeManifest_ReferenceCallCount fake = fake_call_count (manifest_Reference fake)"

definition FakeManifest_ReferenceCalls :: "(unit \<Rightarrow> ('q option, 's) stub_run) option \<Rightarrow>
    ('c, 'n, 'i, 'q, 's) fake_manifest \<Rightarrow> ('c, 'n, 'i, 'q, 's) fake_manifest" where
  "FakeManifest_ReferenceCalls stub fake = fake\<lparr>manifest_Reference := fake_calls stub (manifest_Reference fake)\<rparr>"

definition FakeManifest_ReferenceReturns :: "'q option \<Rightarrow> ('c, 'n, 'i, 'q, 's) fake_manifest \<Rightarrow> ('c, 'n, 'i, 'q, 's) fake_manifest" where
  "FakeManifest_ReferenceReturns result1 fake =
     fake\<lparr>manifest_Reference := fake_returns result1 (manifest_Reference fake)\<rparr>"

definition FakeManifest_ReferenceReturnsOnCall :: "int \<Rightarrow> 'q option \<Rightarrow> ('c, 'n, 'i, 'q, 's) fake_manifest \<Rightarrow> ('c, 'n, 'i, 'q, 's) fake_manifest" where
  "FakeManifest_ReferenceReturnsOnCall i result1 fake =
     fake\<lparr>manifest_Reference := fake_returns_on_call i result1 (manifest_Reference fake)\<rparr>"

paragraph \<open>Signatures\<close>

definition FakeManifest_Signatures :: "'c \<Rightarrow> ('c, 'n, 'i, 'q, 's) fake_manifest \<times> 's \<Rightarrow>
    (bytes list \<times> error option) outcome \<times> (('c, 'n, 'i, 'q, 's) fake_manifest \<times> 's)" where
  "FakeManifest_Signatures arg1 st =
     (case st of (fake, s) \<Rightarrow>
        (case fake_call arg1 (manifest_Signatures fake) of
           (answer, m) \<Rightarrow>
             fake_answer answer
               (FakeManifest_recordInvocation ''Signatures'' [MContext arg1]
                 (fake\<lparr>manifest_Signatures := m\<rparr>)) s))"

definition FakeManifest_SignaturesCallCount :: "('c, 'n, 'i, 'q, 's) fake_manifest \<Rightarrow> int" where
  "FakeManifest_SignaturesCallCount fake = fake_call_count (manifest_Signatures fake)"

definition FakeManifest_SignaturesCalls :: "('c \<Rightarrow> (bytes list \<times> error option, 's) stub_run) option \<Rightarrow>
    ('c, 'n, 'i, 'q, 's) fake_manifest \<Rightarrow> ('c, 'n, 'i, 'q, 's) fake_manifest" where
  "FakeManifest_SignaturesCalls stub fake = fake\<lparr>manifest_Signatures := fake_calls stub (manifest_Signatures fake)\<rparr>"

definition FakeManifest_SignaturesArgsForCall :: "int \<Rightarrow> ('c, 'n, 'i, 'q, 's) fake_manifest \<Rightarrow> 'c outcome" where
  "FakeManifest_SignaturesArgsForCall i fake = fake_args_for_call i (manifest_Signatures fake)"

definition FakeManifest_SignaturesReturns :: "bytes list \<Rightarrow> error option \<Rightarrow> ('c, 'n, 'i, 'q, 's) fake_manifest \<Rightarrow> ('c, 'n, 'i, 'q, 's) fake_manifest" where
  "FakeManifest_SignaturesReturns result1 result2 fake =
     fake\<lparr>manifest_Signatures := fake_returns (result1, result2) (manifest_Signatures fake)\<rparr>"

definition FakeManifest_SignaturesReturnsOnCall :: "int \<Rightarrow> bytes list \<Rightarrow> error option \<Rightarrow> ('c, 'n, 'i, 'q, 's) fake_manifest \<Rightarrow> ('c, 'n, 'i, 'q, 's) fake_manifest" where
  "FakeManifest_SignaturesReturnsOnCall i result1 result2 fake =
     fake\<lparr>manifest_Signatures := fake_returns_on_call i (result1, result2) (manifest_Signatures fake)\<rparr>"

paragraph \<open>Size\<close>

definition FakeManifest_Size :: "('c, 'n, 'i, 'q, 's) fake_manifest \<times> 's \<Rightarrow>
    (int64 \<times> error option) outcome \<times> (('c, 'n, 'i, 'q, 's) fake_manifest \<times> 's)" where
  "FakeManifest_Size st =
     (case st of (fake, s) \<Rightarrow>
        (case fake_call () (manifest_Size fake) of
           (answer, m) \<Rightarrow>
             fake_answer answer
               (FakeManifest_recordInvocation ''Size'' []
                 (fake\<lparr>manifest_Size := m\<rparr>)) s))"

definition FakeManifest_SizeCallCount :: "('c, 'n, 'i, 'q, 's) fake_manifest \<Rightarrow> int" where
  "FakeManifest_SizeCallCount fake = fake_call_count (manifest_Size fake)"

definition FakeManifest_SizeCalls :: "(unit \<Rightarrow> (int64 \<times> error option, 's) stub_run) option \<Rightarrow>
    ('c, 'n, 'i, 'q, 's) fake_manifest \<Rightarrow> ('c, 'n, 'i, 'q, 's) fake_manifest" where
  "FakeManifest_SizeCalls stub fake = fake\<lparr>manifest_Size := fake_calls stub (manifest_Size fake)\<rparr>"

definition FakeManifest_SizeReturns :: "int64 \<Rightarrow> error option \<Rightarrow> ('c, 'n, 'i, 'q, 's) fake_manifest \<Rightarrow> ('c, 'n, 'i, 'q, 's) fake_manifest" where
  "FakeManifest_SizeReturns result1 result2 fake =
     fake\<lparr>manifest_Size := fake_returns (result1, result2) (manifest_Size fake)\<rparr>"

definition FakeManifest_SizeReturnsOnCall :: "int \<Rightarrow> int64 \<Rightarrow> error option \<Rightarrow> ('c, 'n, 'i, 'q, 's) fake_manifest \<Rightarrow> ('c, 'n, 'i, 'q, 's) fake_manifest" where
  "FakeManifest_SizeReturnsOnCall i result1 result2 fake =
     fake\<lparr>manifest_Size := fake_returns_on_call i (result1, result2) (manifest_Size fake)\<rparr>"

paragraph \<open>SupportsEncryption\<close>

definition FakeManifest_SupportsEncryption :: "'c \<Rightarrow> ('c, 'n, 'i, 'q, 's) fake_manifest \<times> 's \<Rightarrow>
    bool outcome \<times> (('c, 'n, 'i, 'q, 's) fake_manifest \<times> 's)" where
  "FakeManifest_SupportsEncryption arg1 st =
     (case st of (fake, s) \<Rightarrow>
        (case fake_call arg1 (manifest_SupportsEncryption fake) of
           (answer, m) \<Rightarrow>
             fake_answer answer
               (FakeManifest_recordInvocation ''SupportsEncryption'' [MContext arg1]
                 (fake\<lparr>manifest_SupportsEncryption := m\<rparr>)) s))"

definition FakeManifest_SupportsEncryptionCallCount :: "('c, 'n, 'i, 'q, 's) fake_manifest \<Rightarrow> int" where
  "FakeManifest_SupportsEncryptionCallCount fake = fake_call_count (manifest_SupportsEncryption fake)"

definition FakeManifest_SupportsEncryptionCalls :: "('c \<Rightarrow> (bool, 's) stub_run) option \<Rightarrow>
    ('c, 'n, 'i, 'q, 's) fake_manifest \<Rightarrow> ('c, 'n, 'i, 'q, 's) fake_manifest" where
  "FakeManifest_SupportsEncryptionCalls stub fake = fake\<lparr>manifest_SupportsEncryption := fake_calls stub (manifest_SupportsEncryption fake)\<rparr>"

definition FakeManifest_SupportsEncryptionArgsForCall :: "int \<Rightarrow> ('c, 'n, 'i, 'q, 's) fake_manifest \<Rightarrow> 'c outcome" where
  "FakeManifest_SupportsEncryptionArgsForCall i fake = fake_args_for_call i (manifest_SupportsEncryption fake)"

definition FakeManifest_SupportsEncryptionReturns :: "bool \<Rightarrow> ('c, 'n, 'i, 'q, 's) fake_manifest \<Rightarrow> ('c, 'n, 'i, 'q, 's) fake_manifest" where
  "FakeManifest_SupportsEncryptionReturns result1 fake =
     fake\<lparr>manifest_SupportsEncryption := fake_returns result1 (manifest_SupportsEncryption fake)\<rparr>"

definition FakeManifest_SupportsEncryptionReturnsOnCall :: "int \<Rightarrow> bool \<Rightarrow> ('c, 'n, 'i, 'q, 's) fake_manifest \<Rightarrow> ('c, 'n, 'i, 'q, 's) fake_manifest" where
  "FakeManifest_SupportsEncryptionReturnsOnCall i result1 fake =
     fake\<lparr>manifest_SupportsEncryption := fake_returns_on_call i result1 (manifest_SupportsEncryption fake)\<rparr>"

paragraph \<open>UpdatedImage\<close>

definition FakeManifest_UpdatedImage :: "'c \<Rightarrow> manifest_update \<Rightarrow> ('c, 'n, 'i, 'q, 's) fake_manifest \<times> 's \<Rightarrow>
    (image option \<times> error option) outcome \<times> (('c, 'n, 'i, 'q, 's) fake_manifest \<times> 's)" where
  "FakeManifest_UpdatedImage arg1 arg2 st =
     (case st of (fake, s) \<Rightarrow>
        (case fake_call (arg1, arg2) (manifest_UpdatedImage fake) of
           (answer, m) \<Rightarrow>
             fake_answer answer
               (FakeManifest_recordInvocation ''UpdatedImage'' [MContext arg1, MUpdate arg2]
                 (fake\<lparr>manifest_UpdatedImage := m\<rparr>)) s))"

definition FakeManifest_UpdatedImageCallCount :: "('c, 'n, 'i, 'q, 's) fake_manifest \<Rightarrow> int" where
  "FakeManifest_UpdatedImageCallCount fake = fake_call_count (manifest_UpdatedImage fake)"

definition FakeManifest_UpdatedImageCalls :: "(('c \<times> manifest_update) \<Rightarrow> (image option \<times> error option, 's) stub_run) option \<Rightarrow>
    ('c, 'n, 'i, 'q, 's) fake_manifest \<Rightarrow> ('c, 'n, 'i, 'q, 's) fake_manifest" where
  "FakeManifest_UpdatedImageCalls stub fake = fake\<lparr>manifest_UpdatedImage := fake_calls stub (manifest_UpdatedImage fake)\<rparr>"

definition FakeManifest_UpdatedImageArgsForCall :: "int \<Rightarrow> ('c, 'n, 'i, 'q, 's) fake_manifest \<Rightarrow> ('c \<times> manifest_update) outcome" where
  "FakeManifest_UpdatedImageArgsForCall i fake = fake_args_for_call i (manifest_UpdatedImage fake)"

definition FakeManifest_UpdatedImageReturns :: "image option \<Rightarrow> error option \<Rightarrow> ('c, 'n, 'i, 'q, 's) fake_manifest \<Rightarrow> ('c, 'n, 'i, 'q, 's) fake_manifest" where
  "FakeManifest_UpdatedImageReturns result1 result2 fake =
     fake\<lparr>manifest_UpdatedImage := fake_returns (result1, result2) (manifest_UpdatedImage fake)\<rparr>"

definition FakeManifest_UpdatedImageReturnsOnCall :: "int \<Rightarrow> image option \<Rightarrow> error option \<Rightarrow> ('c, 'n, 'i, 'q, 's) fake_manifest \<Rightarrow> ('c, 'n, 'i, 'q, 's) fake_manifest" where
  "FakeManifest_UpdatedImageReturnsOnCall i result1 result2 fake =
     fake\<lparr>manifest_UpdatedImage := fake_returns_on_call i (result1, result2) (manifest_UpdatedImage fake)\<rparr>"

paragraph \<open>UpdatedImageNeedsLayerDiffIDs\<close>

definition FakeManifest_UpdatedImageNeedsLayerDiffIDs :: "manifest_update \<Rightarrow> ('c, 'n, 'i, 'q, 's) fake_manifest \<times> 's \<Rightarrow>
    bool outcome \<times> (('c, 'n, 'i, 'q, 's) fake_manifest \<times> 's)" where
  "FakeManifest_UpdatedImageNeedsLayerDiffIDs arg1 st =
     (case st of (fake, s) \<Rightarrow>
        (case fake_call arg1 (manifest_UpdatedImageNeedsLayerDiffIDs fake) of
           (answer, m) \<Rightarrow>
             fake_answer answer
               (FakeManifest_recordInvocation ''UpdatedImageNeedsLayerDiffIDs'' [MUpdate arg1]
                 (fake\<lparr>manifest_UpdatedImageNeedsLayerDiffIDs := m\<rparr>)) s))"

definition FakeManifest_UpdatedImageNeedsLayerDiffIDsCallCount :: "('c, 'n, 'i, 'q, 's) fake_manifest \<Rightarrow> int" where
  "FakeManifest_UpdatedImageNeedsLayerDiffIDsCallCount fake = fake_call_count (manifest_UpdatedImageNeedsLayerDiffIDs fake)"

definition FakeManifest_UpdatedImageNeedsLayerDiffIDsCalls :: "(manifest_update \<Rightarrow> (bool, 's) stub_run) option \<Rightarrow>
    ('c, 'n, 'i, 'q, 's) fake_manifest \<Rightarrow> ('c, 'n, 'i, 'q, 's) fake_manifest" where
  "FakeManifest_UpdatedImageNeedsLayerDiffIDsCalls stub fake = fake\<lparr>manifest_UpdatedImageNeedsLayerDiffIDs := fake_calls stub (manifest_UpdatedImageNeedsLayerDiffIDs fake)\<rparr>"

definition FakeManifest_UpdatedImageNeedsLayerDiffIDsArgsForCall :: "int \<Rightarrow> ('c, 'n, 'i, 'q, 's) fake_manifest \<Rightarrow> manifest_update outcome" where
  "FakeManifest_UpdatedImageNeedsLayerDiffIDsArgsForCall i fake = fake_args_for_call i (manifest_UpdatedImageNeedsLayerDiffIDs fake)"

definition FakeManifest_UpdatedImageNeedsLayerDiffIDsReturns :: "bool \<Rightarrow> ('c, 'n, 'i, 'q, 's) fake_manifest \<Rightarrow> ('c, 'n, 'i, 'q, 's) fake_manifest" where
  "FakeManifest_UpdatedImageNeedsLayerDiffIDsReturns result1 fake =
     fake\<lparr>manifest_UpdatedImageNeedsLayerDiffIDs := fake_returns result1 (manifest_UpdatedImageNeedsLayerDiffIDs fake)\<rparr>"

definition FakeManifest_UpdatedImageNeedsLayerDiffIDsReturnsOnCall :: "int \<Rightarrow> bool \<Rightarrow> ('c, 'n, 'i, 'q, 's) fake_manifest \<Rightarrow> ('c, 'n, 'i, 'q, 's) fake_manifest" where
  "FakeManifest_UpdatedImageNeedsLayerDiffIDsReturnsOnCall i result1 fake =
     fake\<lparr>manifest_UpdatedImageNeedsLayerDiffIDs := fake_returns_on_call i result1 (manifest_UpdatedImageNeedsLayerDiffIDs fake)\<rparr>"

section \<open>Programmed results\<close>

text \<open>
  A sequence of calls of \<^verbatim>\<open>OCIConfig\<close>, the method of the image that the layer fetcher uses, and
  what they return.
\<close>

primrec OCIConfig_results :: "'c list \<Rightarrow> ('c, 'n, 'i, 'q, 's) fake_manifest \<times> 's \<Rightarrow>
    (image_config option \<times> error option) outcome list \<times> (('c, 'n, 'i, 'q, 's) fake_manifest \<times> 's)" where
  "OCIConfig_results [] st = ([], st)"
| "OCIConfig_results (ctx # ctxs) st =
     (case FakeManifest_OCIConfig ctx st of (r, st) \<Rightarrow>
        (case OCIConfig_results ctxs st of (rs, st) \<Rightarrow> (r # rs, st)))"

lemma OCIConfig_results_programmed:
  assumes "mf_Stub (manifest_OCIConfig fake) = None"
  shows "\<exists>fake'. OCIConfig_results ctxs (fake, s) =
      (map (\<lambda>k. Val (answer_of_call (manifest_OCIConfig fake) (length (mf_ArgsForCall (manifest_OCIConfig fake)) + k)))
         [0..<length ctxs], (fake', s)) \<and>
    mf_ArgsForCall (manifest_OCIConfig fake') = mf_ArgsForCall (manifest_OCIConfig fake) @ ctxs"
  using assms
proof (induction ctxs arbitrary: fake)
  case (Cons ctx ctxs)
  let ?m = "manifest_OCIConfig fake"
  let ?fake = "FakeManifest_recordInvocation ''OCIConfig'' [MContext ctx]
    (fake\<lparr>manifest_OCIConfig := snd (fake_call ctx ?m)\<rparr>)"
  have call: "FakeManifest_OCIConfig ctx (fake, s) = (Val (answer_of_call ?m (length (mf_ArgsForCall ?m))), (?fake, s))"
    using Cons.prems by (simp add: FakeManifest_OCIConfig_def fake_call_def answer_of_call_def)
  have after: "manifest_OCIConfig ?fake = snd (fake_call ctx ?m)"
    by (simp add: FakeManifest_recordInvocation_def)
  have same: "answer_of_call (snd (fake_call ctx ?m)) = answer_of_call ?m"
    by (simp add: answer_of_call_def fun_eq_iff split: option.split)
  from Cons.IH [of ?fake] Cons.prems show ?case
    by (auto simp: call after same map_upt_first simp del: upt_Suc)
qed simp

text \<open>
  C36: A fake image that is given a configuration to return, and another result for the call of
  one number, returns it in that call and the configuration in every other, whatever stub or
  result has been set before (for no single call, though); and it records the contexts of all calls in order.
  The calls made before are counted too.
\<close>

theorem fake_manifest_returns_as_programmed:
  assumes "mf_ReturnsOnCall (manifest_OCIConfig fake0) = Map.empty"
  shows "\<exists>fake'. OCIConfig_results ctxs
        (FakeManifest_OCIConfigReturnsOnCall i config' err' (FakeManifest_OCIConfigReturns config err fake0), s) =
      (map (\<lambda>k. Val (if FakeManifest_OCIConfigCallCount fake0 + int k = i then (config', err') else (config, err)))
         [0..<length ctxs], (fake', s)) \<and>
    FakeManifest_OCIConfigCallCount fake' = FakeManifest_OCIConfigCallCount fake0 + int (length ctxs) \<and>
    (\<forall>k. FakeManifest_OCIConfigArgsForCall (FakeManifest_OCIConfigCallCount fake0 + int k) fake' = index_at ctxs k)"
proof -
  let ?fake = "FakeManifest_OCIConfigReturnsOnCall i config' err' (FakeManifest_OCIConfigReturns config err fake0)"
  have m: "manifest_OCIConfig ?fake =
      fake_returns_on_call i (config', err') (fake_returns (config, err) (manifest_OCIConfig fake0))"
    by (simp add: FakeManifest_OCIConfigReturnsOnCall_def FakeManifest_OCIConfigReturns_def)
  then have stub: "mf_Stub (manifest_OCIConfig ?fake) = None" by (simp add: fake_returns_on_call_def)
  have args: "mf_ArgsForCall (manifest_OCIConfig ?fake) = mf_ArgsForCall (manifest_OCIConfig fake0)" by (simp add: m)
  have answer: "answer_of_call (manifest_OCIConfig ?fake) k = (if int k = i then (config', err') else (config, err))" for k
    using assms by (simp add: m answer_of_call_def fake_returns_on_call_def fake_returns_def)
  from OCIConfig_results_programmed [OF stub, of ctxs s] obtain fake' where
      run: "OCIConfig_results ctxs (?fake, s) =
        (map (\<lambda>k. Val (answer_of_call (manifest_OCIConfig ?fake) (length (mf_ArgsForCall (manifest_OCIConfig fake0)) + k)))
           [0..<length ctxs], (fake', s))"
    and rec: "mf_ArgsForCall (manifest_OCIConfig fake') = mf_ArgsForCall (manifest_OCIConfig fake0) @ ctxs"
    by (auto simp: args)
  show ?thesis
    by (intro exI [of _ fake'])
      (auto simp: run rec answer FakeManifest_OCIConfigCallCount_def FakeManifest_OCIConfigArgsForCall_def
        fake_call_count_def fake_args_for_call_def index_at_def nth_append nat_add_distrib)
qed

theorem fake_manifest_returns_as_programmed_witness:
  "\<exists>fake'. OCIConfig_results [True, False]
      (FakeManifest_OCIConfigReturnsOnCall 1 None (Some ErrEOF)
        (FakeManifest_OCIConfigReturns None None (new_FakeManifest :: (bool, unit, unit, unit, unit) fake_manifest)), ()) =
    ([Val (None, None), Val (None, Some ErrEOF)], (fake', ())) \<and>
    FakeManifest_OCIConfigCallCount fake' = 2"
proof -
  let ?n = "new_FakeManifest :: (bool, unit, unit, unit, unit) fake_manifest"
  have n: "mf_ReturnsOnCall (manifest_OCIConfig ?n) = Map.empty" "FakeManifest_OCIConfigCallCount ?n = 0"
    by (simp_all add: new_FakeManifest_def FakeManifest_OCIConfigCallCount_def fake_call_count_def)
  from fake_manifest_returns_as_programmed [OF n(1), of "[True, False]" 1 None "Some ErrEOF" None None "()"] n(2)
  show ?thesis by (auto simp: upt_rec)
qed

end
