(* ===== verification/Spec2Isabelle.thy ===== *)
theory Spec2Isabelle
  imports Layer_Runs Pulling Groot_Core Groot_Config Groot_Cli Sound_Runs Refused_Runs Local_Runs Base_Images Fake_Registry Termination
    Groot_Fakes Imagepuller_Fakes Source_Fake Manifest_Fake
begin

text \<open>
  Verification of groot, the library and command line with which a Garden image plugin fetches
  container images: a driver for a file system plugs into it, and groot downloads the layers of
  an image, checks them, hands them to the driver one after the other, and asks the driver for a
  bundle.

  \<^bold>\<open>The program and the model.\<close>  A command (\<^verbatim>\<open>groot.go\<close>) makes a fetcher for the image: a
  \<^emph>\<open>layer fetcher\<close> on a \<^emph>\<open>layer source\<close> for \<^verbatim>\<open>oci:\<close> and \<^verbatim>\<open>docker:\<close> URLs, a \<^emph>\<open>file fetcher\<close> for anything
  else.  The \<^emph>\<open>image puller\<close> asks the fetcher for the image's layers and has the driver unpack each
  from a stream that is opened on its first read; the operations \<^verbatim>\<open>Create\<close>, \<^verbatim>\<open>Pull\<close>,
  \<^verbatim>\<open>Delete\<close> and \<^verbatim>\<open>Stats\<close> combine the puller and the driver.  One group of theories
  models each part, under the names of the source:

  \<^item> \<^verbatim>\<open>Prelude\<close>: Go's integers (64-bit words, compared through \<open>sint\<close>), errors as values, the
    three ways a call ends (\<open>Val\<close>, \<open>Panic\<close>, \<open>Diverges\<close>), sequencing (\<open>obind\<close>, \<open>attempt\<close>), retry
    loops and loops that may not end (\<open>loop\<close>, a \<^theory_text>\<open>partial_function\<close> whose \<open>None\<close> is not
    returning).
  \<^item> \<^verbatim>\<open>Sha256\<close>, \<^verbatim>\<open>Go_IO\<close>, \<^verbatim>\<open>Go_Url\<close>, \<^verbatim>\<open>Go_Digest\<close>: what the
    program uses of the standard library and of \<^verbatim>\<open>go-digest\<close>: SHA-256, readers and writers with
    \<^verbatim>\<open>io.Copy\<close>, \<^verbatim>\<open>io.ReadAll\<close> and \<^verbatim>\<open>io.TeeReader\<close>, URLs, digests.
  \<^item> \<^verbatim>\<open>Os_World\<close>: the world: files, descriptors, the clock that numbers calls, open downloads
    and image sources; the record \<open>env\<close> of what the program cannot determine (which call fails, what
    the registry answers, the gzip decoder).  A download (\<open>blob_stream\<close>) is a list of pieces with an
    end, an error, an endless sequence of pieces, or a read that never returns (\<open>body_rest\<close>).
  \<^item> \<^verbatim>\<open>Quotaed_Reader\<close>, \<^verbatim>\<open>Blob_Reader\<close>, \<^verbatim>\<open>Ondemand_Reader\<close>: the three readers
    of \<^verbatim>\<open>fetcher/layerfetcher\<close> and \<^verbatim>\<open>imagepuller/ondemand\<close>.
  \<^item> \<^verbatim>\<open>Layer_Source\<close>: \<^verbatim>\<open>fetcher/layerfetcher/source/layer_source.go\<close>, every function of it;
    \<^verbatim>\<open>Layer_Manifest\<close>, \<^verbatim>\<open>Layer_Delivery\<close> and \<^verbatim>\<open>Layer_Runs\<close> hold the properties of
    \<^verbatim>\<open>Manifest\<close>, of \<^verbatim>\<open>Blob\<close>, and of any sequence of their calls (the relation \<open>ls_run\<close>).
  \<^item> \<^verbatim>\<open>Layer_Fetcher\<close>, \<^verbatim>\<open>File_Fetcher\<close>: the two fetchers;
    \<^verbatim>\<open>Puller_Types\<close>, \<^verbatim>\<open>Image_Puller\<close>: the interfaces between puller, fetcher and driver,
    and the puller; \<^verbatim>\<open>Pulling\<close> puts them together.
  \<^item> \<^verbatim>\<open>Groot_Core\<close>: \<^verbatim>\<open>create.go\<close>, \<^verbatim>\<open>pull.go\<close>, \<^verbatim>\<open>delete.go\<close>,
    \<^verbatim>\<open>stats.go\<close>; \<^verbatim>\<open>Groot_Config\<close>: \<^verbatim>\<open>config.go\<close>; \<^verbatim>\<open>Groot_Cli\<close>: the rest of
    \<^verbatim>\<open>groot.go\<close>, up to the exit status of the process and everything it prints;
    \<^verbatim>\<open>Cli_Reports\<close> has what the commands report, for any driver.
  \<^item> \<^verbatim>\<open>Go_Json\<close>: what \<^verbatim>\<open>encoding/json\<close> makes of values that are stored and read back: the UTF-8 of
    strings, with U+FFFD for bytes that are none, and numbers as the shortest decimal of their
    \<^verbatim>\<open>float64\<close>; \<^verbatim>\<open>Foot\<close>, \<^verbatim>\<open>Foot_Pulls\<close>: \<^verbatim>\<open>integration/cmd/foot\<close>, the driver of the
    integration tests, which stores its calls so, and pulling with it; \<^verbatim>\<open>Fake_Registry\<close>: \<^verbatim>\<open>testhelpers/registry.go\<close>;
    \<^verbatim>\<open>Base_Images\<close>: \<^verbatim>\<open>testhelpers/base_images.go\<close>, with the chain IDs of published
    images computed; \<^verbatim>\<open>Sha256_Bits\<close> evaluates SHA-256 for that, on lists of bits.
  \<^item> \<^verbatim>\<open>Published_Images\<close>, \<^verbatim>\<open>Complete_Pulls\<close>, \<^verbatim>\<open>Complete_Runs\<close>,
    \<^verbatim>\<open>Local_Runs\<close>, \<^verbatim>\<open>Refused_Runs\<close>, \<^verbatim>\<open>Sound_Runs\<close>: the whole binary with the test driver, from the
    command line to the exit status: an image that a registry publishes is pulled and created, so is
    a local file, an image with too large a manifest is refused, and a success is reported for
    nothing else.  \<^verbatim>\<open>Published_Images\<close> says what
    publishing is: manifests of either schema, and outages that three attempts survive.
  \<^item> \<^verbatim>\<open>Counterfeiter\<close>: what every method of a generated test double does;
    \<^verbatim>\<open>Groot_Fakes\<close>, \<^verbatim>\<open>Imagepuller_Fakes\<close>, \<^verbatim>\<open>Source_Fake\<close>,
    \<^verbatim>\<open>Manifest_Fake\<close>: the doubles of \<^verbatim>\<open>grootfakes\<close>, \<^verbatim>\<open>imagepullerfakes\<close> and
    \<^verbatim>\<open>layerfetcherfakes\<close>, and the operations under test run on them.
  \<^item> \<^verbatim>\<open>Ending_Readers\<close>, \<^verbatim>\<open>Termination\<close>: that every loop of reads ends, and with it every run of
    the program.
  \<^item> \<^verbatim>\<open>Sample_World\<close>: the small world on which the concrete instances of the properties run.

  \<^bold>\<open>State.\<close>  A stateful operation takes and returns its state: the layer source acts on the pair of
  its record and the world, the puller on the fetcher's state and the driver's.  A driver's
  \<^verbatim>\<open>Unpack\<close> is a tree of reads (\<open>client\<close>), so that it can be run on any reader.

  \<^bold>\<open>Interfaces.\<close>  \<open>io_reader\<close> and \<open>io_writer\<close> are the contracts of Go's readers and writers; reading
  all and copying end, with the right result, for every reader that keeps its contract
  (interpreted for streams, streams through a quota, open files and temporary files).
  \<open>ending_reader\<close> is the part of that contract which is enough for ending, whatever errors the reader
  reports (interpreted for streams and files, and kept by hashing, by a quota and by the decoder).
  \<open>source_contract\<close> is what the layer fetcher needs of its source (interpreted for the layer source);
  \<open>fetcher_contract\<close> is what the puller needs of a fetcher: every source that keeps its contract gives
  such a fetcher (\<^theory_text>\<open>sublocale\<close>), and so does the file fetcher; \<open>puller_contract\<close> is what the
  operations need of a puller, and every such fetcher gives one.

  \<^bold>\<open>What is shown.\<close>  Unless \<^verbatim>\<open>skipOCILayerValidation\<close> is set, a blob, compressed or not, is
  delivered only with the digests and the size the
  manifest promises, and then always; the disk limit is an account that all layers of an image
  share; an error or a panic leaves nothing behind (with the exceptions that the properties name); the chain
  IDs that the fetcher computes identify stacks of layers as far as SHA-256 does; a pull asks the driver
  for exactly the layers of the image, the lowest first; the whole program leaves no file, descriptor,
  download or image source behind, whether it succeeds, fails or panics, provided that removing a
  file works and that a blob's file that was just written can be opened again (\<open>removes_files\<close>,
  \<open>opens_files\<close>; when the latter fails the code does leave the file, \<open>unopened_blob_stays\<close>); and it
  comes to an end, provided that the downloads do (\<open>downloads_end\<close>: the program sets no time limit, and
  copying from a stalled download does not return, \<open>stalled_body_never_copied\<close>).
  With the test driver, pulling or creating a valid image
  succeeds and records exactly its layers, also from a registry that misses up to two of any four
  calls in a row; a registry that cannot be reached is reported after three attempts, and an
  oversized manifest before the driver is called; and whenever a creation succeeds, the recorded
  layers are those that the image's configuration promised.  The chain IDs listed for published images are those that
  the fetcher computes.
  What is printed reaches the standard output only where that can be written (\<open>printed\<close>,
  \<open>stdout_fault\<close>).  Several properties state where the code does not do what it means to.

  \<^bold>\<open>Bounds and fuel.\<close>  Retries are bounded by the code (three attempts).  The loops of
  \<^verbatim>\<open>io.Copy\<close> and \<^verbatim>\<open>io.ReadAll\<close> need no fuel.  As part of a client, \<^verbatim>\<open>io.ReadAll\<close> is
  bounded by \<open>ft_fuel\<close>; running out is not returning, and where reading all of a reader ends, all
  sufficiently large bounds give its result (so the properties of whole runs hold for all large
  enough \<open>ft_fuel\<close>).

  \<^bold>\<open>Not modelled.\<close>  Logging; the layout of JSON and YAML texts; concurrency (the program starts no
  goroutine of its own, the test registry is served one request after the other, and the
  mutexes of the fakes are never held across a call of theirs).
  Parameters: \<^verbatim>\<open>containers/image\<close> with the registry behind it, the gzip decoder, the YAML
  decoder, the command-line framework, the operating system's failures.  Calls of these, other than
  reading a download, return: a call of the library that hangs is not modelled.
\<close>

end
